(* ===== verification/Cs_Prelude.thy ===== *)
theory Cs_Prelude
  imports Main "HOL-Library.Word" "HOL-Library.Char_ord" "HOL-Library.List_Lexorder"
    "HOL-Library.Product_Lexorder" "HOL-Library.Multiset"
begin

text \<open>
  What every component of the development shares.

  \<^item> Names for the machine types of the C++ code: unsigned integers are words of their
    width; a byte vector is a list of 8-bit words; a \<^verbatim>\<open>uint256\<close> is its data array (32
    bytes, least significant byte first), so that \<^verbatim>\<open>memcmp\<close> is the lexicographic order
    of lists. \<^verbatim>\<open>CAmount\<close> (int64) is an \<open>int\<close> whose arithmetic goes through \<open>wrap64\<close>.
  \<^item> The IEEE double rounding of an integer (\<open>round53\<close>), for the two places where the
    code computes amounts in floating point.
  \<^item> Ordered maps: \<^verbatim>\<open>std::map\<close> as an association list in strictly increasing key order.
    The interface the components use is the locale \<open>ordered_map\<close>; it is interpreted on
    the lists at the end of its section.
  \<^item> Vectors that keep at most one record per address (locale \<open>ballot_box\<close>), and state
    changes with an inverse (locale \<open>undoable\<close>): interfaces that several components
    implement; the interpretations stand in the theories of those components.
  \<^item> Text helpers of the code base: decimal and hexadecimal printing, hex parsing.
\<close>

unbundle bit_operations_syntax

named_theorems cache_defs "operations of the OPoI cache"
named_theorems frame_simps "fields an operation leaves unchanged"

section \<open>Machine types\<close>

type_synonym u8 = "8 word"
type_synonym u32 = "32 word"
type_synonym u64 = "64 word"
type_synonym bytes = "8 word list"
type_synonym uint256 = bytes
type_synonym address = string

definition wrap64 :: "int \<Rightarrow> int" where
  "wrap64 x = (x + 2 ^ 63) mod 2 ^ 64 - 2 ^ 63"

definition i64_range :: "int \<Rightarrow> bool" where
  "i64_range x \<longleftrightarrow> - (2 ^ 63) \<le> x \<and> x < 2 ^ 63"

lemma wrap64_id [simp]: "i64_range x \<Longrightarrow> wrap64 x = x"
  by (simp add: wrap64_def i64_range_def)

lemma wrap64_range [simp]: "i64_range (wrap64 x)"
proof -
  have "0 \<le> (x + 2 ^ 63) mod 2 ^ 64" and "(x + 2 ^ 63) mod 2 ^ 64 < (2 ^ 64 :: int)"
    by simp_all
  then show ?thesis by (auto simp: wrap64_def i64_range_def)
qed

text \<open>C++ integer division truncates towards zero.\<close>

definition cdiv :: "int \<Rightarrow> int \<Rightarrow> int" where
  "cdiv a b = sgn a * sgn b * (\<bar>a\<bar> div \<bar>b\<bar>)"

lemma cdiv_nonneg: "0 \<le> a \<Longrightarrow> 0 < b \<Longrightarrow> cdiv a b = a div b"
  by (cases "a = 0") (simp_all add: cdiv_def)

lemma cdiv_mono_bound: "0 \<le> a \<Longrightarrow> 0 < b \<Longrightarrow> 0 \<le> cdiv a b \<and> cdiv a b * b \<le> a"
proof -
  assume a: "0 \<le> a" "0 < b"
  then have "0 \<le> a div b" by (simp add: pos_imp_zdiv_nonneg_iff)
  moreover have "a div b * b \<le> a"
    using div_mult_mod_eq [of a b] pos_mod_sign [OF a(2), of a] by linarith
  ultimately show ?thesis using a by (simp add: cdiv_nonneg)
qed

section \<open>Doubles with integer values\<close>

text \<open>
  The nearest double of an integer: 53 significant bits, ties to even. \<open>bit_size n\<close> is
  the number of binary digits.
\<close>

fun bit_size :: "nat \<Rightarrow> nat" where
  "bit_size n = (if n = 0 then 0 else Suc (bit_size (n div 2)))"

declare bit_size.simps [simp del]

definition round_half_even :: "nat \<Rightarrow> nat \<Rightarrow> nat" where
  "round_half_even n k =
     (let q = n div 2 ^ k; r = n mod 2 ^ k; h = 2 ^ (k - 1)
      in if k = 0 then n
         else if r < h \<or> (r = h \<and> even q) then q else q + 1)"

definition round53_nat :: "nat \<Rightarrow> nat" where
  "round53_nat n = (let k = bit_size n - 53 in round_half_even n k * 2 ^ k)"

definition round53 :: "int \<Rightarrow> int" where
  "round53 x = sgn x * int (round53_nat (nat \<bar>x\<bar>))"

lemma bit_size_0 [simp]: "bit_size 0 = 0"
  by (simp add: bit_size.simps)

lemma bit_size_rec: "0 < n \<Longrightarrow> bit_size n = Suc (bit_size (n div 2))"
  by (subst bit_size.simps) simp

lemma bit_size_le: "n < 2 ^ k \<Longrightarrow> bit_size n \<le> k"
proof (induction n arbitrary: k rule: bit_size.induct)
  case (1 n)
  show ?case
  proof (cases "n = 0")
    case False
    with "1.prems" obtain j where k: "k = Suc j" by (cases k) auto
    with "1.prems" have "n div 2 < 2 ^ j" by auto
    with False "1.IH" have "bit_size (n div 2) \<le> j" by simp
    with False k show ?thesis by (simp add: bit_size_rec)
  qed simp
qed

lemma round53_nat_exact: "n < 2 ^ 53 \<Longrightarrow> round53_nat n = n"
  by (simp add: round53_nat_def round_half_even_def Let_def bit_size_le)

lemma round53_exact: "\<bar>x\<bar> < 2 ^ 53 \<Longrightarrow> round53 x = x"
proof -
  assume "\<bar>x\<bar> < 2 ^ 53"
  then have "nat \<bar>x\<bar> < 2 ^ 53" by (simp add: nat_less_iff)
  then show ?thesis
    by (simp add: round53_def round53_nat_exact sgn_mult_abs)
qed

lemma bit_size_ge: "0 < n \<Longrightarrow> 2 ^ (bit_size n - 1) \<le> n"
proof (induction n rule: bit_size.induct)
  case (1 n)
  show ?case
  proof (cases "n div 2 = 0")
    case True
    with 1 show ?thesis by (simp add: bit_size_rec)
  next
    case False
    with 1 have "2 ^ (bit_size (n div 2) - 1) \<le> n div 2" by simp
    moreover from False have "bit_size (n div 2) = Suc (bit_size (n div 2) - 1)"
      by (simp add: bit_size_rec [of "n div 2"])
    ultimately have "2 ^ bit_size (n div 2) \<le> 2 * (n div 2)" by (metis mult_le_mono2 power_Suc)
    with 1 show ?thesis by (simp add: bit_size_rec)
  qed
qed

lemma bit_size_lt: "n < 2 ^ bit_size n"
proof (induction n rule: bit_size.induct)
  case (1 n)
  show ?case
  proof (cases "n = 0")
    case False
    with 1 have "n div 2 < 2 ^ bit_size (n div 2)" by simp
    then have "n < 2 * 2 ^ bit_size (n div 2)" by linarith
    with False show ?thesis by (simp add: bit_size_rec)
  qed simp
qed

lemma round_half_even_bounds: "n div 2 ^ k \<le> round_half_even n k \<and> round_half_even n k \<le> n div 2 ^ k + 1"
  by (auto simp: round_half_even_def Let_def)

lemma round_half_even_mono:
  assumes "a \<le> b"
  shows "round_half_even a k \<le> round_half_even b k"
proof (cases "a div 2 ^ k = b div 2 ^ k")
  case True
  then have "a mod 2 ^ k \<le> b mod 2 ^ k"
    using assms by (metis div_mult_mod_eq nat_add_left_cancel_le)
  with True assms show ?thesis by (auto simp: round_half_even_def Let_def)
next
  case False
  then have "a div 2 ^ k + 1 \<le> b div 2 ^ k" using div_le_mono [OF assms, of "2 ^ k"] by linarith
  then show ?thesis using round_half_even_bounds [of a k] round_half_even_bounds [of b k] by linarith
qed

lemma round_half_even_power: "k \<le> m \<Longrightarrow> round_half_even (2 ^ m) k = 2 ^ (m - k)"
proof (cases k)
  case (Suc j)
  assume "k \<le> m"
  moreover from this have "(2::nat) ^ m mod 2 ^ k = 0" by (simp add: le_imp_power_dvd)
  ultimately show ?thesis using Suc by (simp add: round_half_even_def Let_def power_diff)
qed (simp add: round_half_even_def)

lemma round53_nat_le_power: "round53_nat n \<le> 2 ^ bit_size n"
proof (cases "bit_size n \<le> 53")
  case True
  then show ?thesis
    using bit_size_lt [of n] by (simp add: round53_nat_def round_half_even_def Let_def less_imp_le)
next
  case False
  let ?k = "bit_size n - 53"
  have "round_half_even n ?k \<le> round_half_even (2 ^ bit_size n) ?k"
    by (rule round_half_even_mono) (use bit_size_lt [of n] in simp)
  then have "round_half_even n ?k \<le> 2 ^ 53" using False by (simp add: round_half_even_power)
  then have "round53_nat n \<le> 2 ^ 53 * 2 ^ ?k" by (simp add: round53_nat_def Let_def)
  also have "(2::nat) ^ 53 * 2 ^ ?k = 2 ^ bit_size n" using False unfolding power_add [symmetric] by simp
  finally show ?thesis .
qed

lemma round53_nat_mono: "a \<le> b \<Longrightarrow> round53_nat a \<le> round53_nat b"
proof -
  assume ab: "a \<le> b"
  then have bs: "bit_size a \<le> bit_size b" using bit_size_lt [of b] by (intro bit_size_le) simp
  show ?thesis
  proof (cases "bit_size a - 53 = bit_size b - 53")
    case True
    with ab show ?thesis by (simp add: round53_nat_def Let_def round_half_even_mono)
  next
    case False
    with bs have lt: "bit_size a < bit_size b" "53 < bit_size b" by auto
    let ?k = "bit_size b - 53"
    have "0 < b" using lt by (cases "b = 0") auto
    then have "round_half_even (2 ^ (bit_size b - 1)) ?k \<le> round_half_even b ?k"
      by (intro round_half_even_mono bit_size_ge)
    then have "2 ^ 52 * 2 ^ ?k \<le> round53_nat b"
      using lt by (simp add: round_half_even_power round53_nat_def Let_def)
    moreover have "(2::nat) ^ bit_size a \<le> 2 ^ 52 * 2 ^ ?k"
      using lt unfolding power_add [symmetric] by (intro power_increasing) auto
    ultimately show ?thesis using round53_nat_le_power [of a] by linarith
  qed
qed

lemma round53_nonneg: "0 \<le> x \<Longrightarrow> round53 x = int (round53_nat (nat x))"
  by (cases "x = 0") (simp_all add: round53_def round53_nat_exact)

lemma round53_mono: "0 \<le> x \<Longrightarrow> x \<le> y \<Longrightarrow> round53 x \<le> round53 y"
  by (simp add: round53_nonneg round53_nat_mono nat_mono)


section \<open>Ordered maps\<close>

text \<open>
  The interface of \<^verbatim>\<open>std::map\<close> that the caches use: \<^verbatim>\<open>find\<close>, insert-or-assign, \<^verbatim>\<open>erase\<close>,
  assignment through an iterator that \<^verbatim>\<open>find\<close> returned (\<open>modify\<close>, which does nothing when
  the key is absent), and iteration in key order. A well-formed map is determined by its
  lookups (\<open>find_ext\<close>): this is what makes "insert, then erase" restore the very same map.
\<close>

locale ordered_map =
  fixes find :: "'m \<Rightarrow> 'k::linorder \<Rightarrow> 'v option"
    and put :: "'k \<Rightarrow> 'v \<Rightarrow> 'm \<Rightarrow> 'm"
    and erase :: "'k \<Rightarrow> 'm \<Rightarrow> 'm"
    and modify :: "'k \<Rightarrow> ('v \<Rightarrow> 'v) \<Rightarrow> 'm \<Rightarrow> 'm"
    and keys :: "'m \<Rightarrow> 'k list"
    and ok :: "'m \<Rightarrow> bool"
  assumes find_put: "find (put k v m) = (find m)(k \<mapsto> v)"
    and find_erase: "find (erase k m) = (find m)(k := None)"
    and find_modify: "find (modify k f m) = (find m)(k := map_option f (find m k))"
    and set_keys: "set (keys m) = dom (find m)"
    and keys_sorted: "ok m \<Longrightarrow> sorted_wrt (<) (keys m)"
    and ok_put: "ok m \<Longrightarrow> ok (put k v m)"
    and ok_erase: "ok m \<Longrightarrow> ok (erase k m)"
    and ok_modify: "ok m \<Longrightarrow> ok (modify k f m)"
    and find_ext: "ok m \<Longrightarrow> ok m' \<Longrightarrow> find m = find m' \<Longrightarrow> m = m'"
begin

lemma erase_put_fresh: "ok m \<Longrightarrow> find m k = None \<Longrightarrow> erase k (put k v m) = m"
  by (rule find_ext) (auto simp: find_put find_erase ok_put ok_erase)

lemma put_put: "ok m \<Longrightarrow> put k v (put k w m) = put k v m"
  by (rule find_ext) (auto simp: find_put ok_put)

lemma put_swap: "ok m \<Longrightarrow> k \<noteq> l \<Longrightarrow> put k v (put l w m) = put l w (put k v m)"
  by (rule find_ext) (auto simp: find_put ok_put)

lemma put_same: "ok m \<Longrightarrow> find m k = Some v \<Longrightarrow> put k v m = m"
  by (rule find_ext) (auto simp: find_put ok_put)

lemma erase_fresh: "ok m \<Longrightarrow> find m k = None \<Longrightarrow> erase k m = m"
  by (rule find_ext) (auto simp: find_erase ok_erase)

lemma modify_fresh: "ok m \<Longrightarrow> find m k = None \<Longrightarrow> modify k f m = m"
  by (rule find_ext) (auto simp: find_modify ok_modify)

lemma modify_modify: "ok m \<Longrightarrow> modify k f (modify k g m) = modify k (f \<circ> g) m"
  by (rule find_ext) (auto simp: find_modify ok_modify option.map_comp)

lemma modify_id: "ok m \<Longrightarrow> (\<And>v. find m k = Some v \<Longrightarrow> f v = v) \<Longrightarrow> modify k f m = m"
  by (rule find_ext) (auto simp: find_modify ok_modify fun_eq_iff split: option.splits
      intro!: option.map_ident_strong)

lemma keys_distinct: "ok m \<Longrightarrow> distinct (keys m)"
  using keys_sorted [of m] by (simp add: strict_sorted_iff)

lemmas find_simps = find_put find_erase find_modify
lemmas ok_simps = ok_put ok_erase ok_modify

end

text \<open>The implementation: association lists in strictly increasing key order.\<close>

type_synonym ('k, 'v) smap = "('k \<times> 'v) list"

abbreviation (input) sm_find :: "('k, 'v) smap \<Rightarrow> 'k \<Rightarrow> 'v option" where
  "sm_find \<equiv> map_of"

abbreviation (input) sm_keys :: "('k, 'v) smap \<Rightarrow> 'k list" where
  "sm_keys m \<equiv> map fst m"

fun sm_put :: "'k::linorder \<Rightarrow> 'v \<Rightarrow> ('k, 'v) smap \<Rightarrow> ('k, 'v) smap" where
  "sm_put k v [] = [(k, v)]"
| "sm_put k v ((k', v') # m) =
     (if k' < k then (k', v') # sm_put k v m
      else if k' = k then (k, v) # m
      else (k, v) # (k', v') # m)"

definition sm_erase :: "'k \<Rightarrow> ('k, 'v) smap \<Rightarrow> ('k, 'v) smap" where
  "sm_erase k m = filter (\<lambda>kv. fst kv \<noteq> k) m"

definition sm_modify :: "'k \<Rightarrow> ('v \<Rightarrow> 'v) \<Rightarrow> ('k, 'v) smap \<Rightarrow> ('k, 'v) smap" where
  "sm_modify k f m = map (\<lambda>(k', v). (k', if k' = k then f v else v)) m"

text \<open>A loop that updates every entry in place, each from its own old value.\<close>

definition sm_update_all :: "('v \<Rightarrow> 'v) \<Rightarrow> ('k, 'v) smap \<Rightarrow> ('k, 'v) smap" where
  "sm_update_all f m = map (\<lambda>(k, v). (k, f v)) m"

definition sm_ok :: "('k::linorder, 'v) smap \<Rightarrow> bool" where
  "sm_ok m \<longleftrightarrow> sorted_wrt (<) (map fst m)"

lemma sm_find_put: "sm_find (sm_put k v m) = (sm_find m)(k \<mapsto> v)"
  by (induction k v m rule: sm_put.induct) auto

lemma sm_find_erase: "sm_find (sm_erase k m) = (sm_find m)(k := None)"
  by (induction m) (auto simp: sm_erase_def)

lemma sm_find_modify: "sm_find (sm_modify k f m) = (sm_find m)(k := map_option f (sm_find m k))"
  by (induction m) (auto simp: sm_modify_def)

lemma sm_find_update_all [simp]: "sm_find (sm_update_all f m) k = map_option f (sm_find m k)"
  by (induction m) (auto simp: sm_update_all_def)

lemma set_sm_put_keys: "set (map fst (sm_put k v m)) = insert k (set (map fst m))"
  by (induction k v m rule: sm_put.induct) auto

lemma sm_ok_put: "sm_ok m \<Longrightarrow> sm_ok (sm_put k v m)"
proof (induction k v m rule: sm_put.induct)
  case (2 k v k' v' m)
  then have IH: "k' < k \<Longrightarrow> sm_ok (sm_put k v m)" by (simp add: sm_ok_def)
  from 2 have m: "\<forall>x\<in>set (map fst m). k' < x" "sorted_wrt (<) (map fst m)"
    by (auto simp: sm_ok_def)
  show ?case
  proof (cases "k' < k")
    case True
    have "\<forall>x\<in>set (map fst (sm_put k v m)). k' < x"
      unfolding set_sm_put_keys using True m by auto
    with True IH show ?thesis by (simp add: sm_ok_def)
  next
    case False
    with m show ?thesis by (force simp: sm_ok_def)
  qed
qed (simp add: sm_ok_def)

lemma sm_ok_filter: "sm_ok m \<Longrightarrow> sm_ok (filter P m)"
  by (induction m) (auto simp: sm_ok_def)

lemma keys_sm_modify [simp]: "map fst (sm_modify k f m) = map fst m"
  by (simp add: sm_modify_def case_prod_beta comp_def)

lemma keys_sm_update_all [simp]: "map fst (sm_update_all f m) = map fst m"
  by (simp add: sm_update_all_def case_prod_beta comp_def)

lemma sm_ok_Nil [simp]: "sm_ok []"
  by (simp add: sm_ok_def)

lemma sm_ok_update_all [simp]: "sm_ok (sm_update_all f m) = sm_ok m"
  by (simp add: sm_ok_def)

lemma sm_ok_Cons: "sm_ok ((k, v) # m) \<longleftrightarrow> (\<forall>x\<in>set (map fst m). k < x) \<and> sm_ok m"
  by (simp add: sm_ok_def)

lemma sm_find_above:
  fixes m :: "('k::linorder, 'v) smap"
  shows "\<forall>x\<in>set (map fst m). k < x \<Longrightarrow> sm_find m k' = Some v \<Longrightarrow> k < k'"
  by (metis domI dom_map_of_conv_image_fst list.set_map)

lemma sm_find_below:
  fixes m :: "('k::linorder, 'v) smap"
  shows "\<forall>x\<in>set (map fst m). k < x \<Longrightarrow> sm_find m k = None"
  using sm_find_above [of m k k] by (cases "sm_find m k") auto

lemma sm_find_ext: "sm_ok m \<Longrightarrow> sm_ok m' \<Longrightarrow> sm_find m = sm_find m' \<Longrightarrow> m = m'"
proof (induction m arbitrary: m')
  case Nil
  then show ?case by (cases m') (auto simp: fun_eq_iff split: if_splits)
next
  case (Cons kv m)
  obtain k v where kv: "kv = (k, v)" by (cases kv)
  note eq = Cons.prems(3)
  show ?case
  proof (cases m')
    case Nil
    with eq kv show ?thesis by (auto simp: fun_eq_iff split: if_splits)
  next
    case (Cons kv' n)
    obtain k' v' where kv': "kv' = (k', v')" by (cases kv')
    have m: "\<forall>x\<in>set (map fst m). k < x" "sm_ok m" and n: "\<forall>x\<in>set (map fst n). k' < x" "sm_ok n"
      using Cons.prems(1,2) Cons kv kv' by (auto simp: sm_ok_Cons)
    have "sm_find m' k = Some v" using eq kv by (simp add: fun_eq_iff split: if_splits)
    then have 1: "k = k' \<or> k' < k" using Cons kv' sm_find_above [OF n(1)]
      by (auto split: if_splits)
    have "sm_find (kv # m) k' = Some v'" using eq Cons kv' by (simp add: fun_eq_iff)
    then have 2: "k' = k \<or> k < k'" using kv sm_find_above [OF m(1)]
      by (auto split: if_splits)
    from 1 2 have k: "k' = k" by auto
    with eq kv kv' Cons have v: "v' = v" by (auto simp: fun_eq_iff dest: spec [of _ k])
    have "sm_find m = sm_find n"
    proof
      fix x show "sm_find m x = sm_find n x"
        using eq kv kv' Cons k m(1) n(1) sm_find_below [of m k] sm_find_below [of n k]
        by (cases "x = k") (auto simp: fun_eq_iff dest: spec [of _ x])
    qed
    with Cons.IH m(2) n(2) kv kv' k v Cons show ?thesis by simp
  qed
qed

interpretation sm: ordered_map sm_find sm_put sm_erase sm_modify sm_keys sm_ok
proof unfold_locales
  fix m :: "('k::linorder, 'v) smap" and k f v
  show "sm_find (sm_put k v m) = (sm_find m)(k \<mapsto> v)" by (rule sm_find_put)
  show "sm_find (sm_erase k m) = (sm_find m)(k := None)" by (rule sm_find_erase)
  show "sm_find (sm_modify k f m) = (sm_find m)(k := map_option f (sm_find m k))"
    by (rule sm_find_modify)
  show "set (sm_keys m) = dom (sm_find m)" by (simp add: dom_map_of_conv_image_fst)
  show "sorted_wrt (<) (sm_keys m)" if "sm_ok m" using that by (simp add: sm_ok_def)
  show "sm_ok (sm_put k v m)" if "sm_ok m" using that by (rule sm_ok_put)
  show "sm_ok (sm_erase k m)" if "sm_ok m" using that by (simp add: sm_erase_def sm_ok_filter)
  show "sm_ok (sm_modify k f m)" if "sm_ok m" using that by (simp add: sm_ok_def)
next
  fix m m' :: "('k::linorder, 'v) smap"
  assume "sm_ok m" "sm_ok m'" "sm_find m = sm_find m'"
  then show "m = m'" by (rule sm_find_ext)
qed

lemmas sm_simps [simp] = sm.find_simps sm.ok_simps


section \<open>Vectors with one record per address\<close>

text \<open>
  Several vectors of the cache accept at most one record per address, the first one that
  arrives: auditor votes, shard results, coordinator claims. The contract of the add
  operation and what follows from it for whole runs of additions.
\<close>

locale ballot_box =
  fixes who :: "'r \<Rightarrow> address"
    and add :: "'r list \<Rightarrow> 'r \<Rightarrow> 'r list"
  assumes add_known: "who r \<in> who ` set rs \<Longrightarrow> add rs r = rs"
    and add_new: "who r \<notin> who ` set rs \<Longrightarrow> add rs r = rs @ [r]"
begin

lemma add_distinct: "distinct (map who rs) \<Longrightarrow> distinct (map who (add rs r))"
  by (cases "who r \<in> who ` set rs") (auto simp: add_known add_new)

lemma add_who: "who ` set (add rs r) = insert (who r) (who ` set rs)"
  by (cases "who r \<in> who ` set rs") (auto simp: add_known add_new)

lemma add_prefix: "\<exists>ys. add rs r = rs @ ys"
  by (cases "who r \<in> who ` set rs") (auto simp: add_known add_new)

lemma add_twice: "who r = who r' \<Longrightarrow> add (add rs r) r' = add rs r"
  by (rule add_known) (simp add: add_who)

lemma fold_add_distinct: "distinct (map who rs) \<Longrightarrow> distinct (map who (foldl add rs xs))"
  by (induction xs arbitrary: rs) (auto simp: add_distinct)

lemma fold_add_who: "who ` set (foldl add rs xs) = who ` set xs \<union> who ` set rs"
  by (induction xs arbitrary: rs) (auto simp: add_who)

lemma fold_add_known: "who ` set xs \<subseteq> who ` set rs \<Longrightarrow> foldl add rs xs = rs"
  by (induction xs) (simp_all add: add_known)

text \<open>Adding the same records again changes nothing.\<close>

lemma fold_add_again: "foldl add (foldl add rs xs) xs = foldl add rs xs"
  by (rule fold_add_known) (simp add: fold_add_who)

end

definition push_once :: "('r \<Rightarrow> address) \<Rightarrow> 'r list \<Rightarrow> 'r \<Rightarrow> 'r list" where
  "push_once who rs r = (if list_ex (\<lambda>x. who x = who r) rs then rs else rs @ [r])"

lemma list_ex_who: "list_ex (\<lambda>x. who x = who r) rs \<longleftrightarrow> who r \<in> who ` set rs"
  by (induction rs) auto

lemma push_once_box: "ballot_box who (push_once who)"
  by unfold_locales (simp_all add: push_once_def list_ex_who)

section \<open>State changes with an inverse\<close>

text \<open>
  A transaction type has an apply and an undo; \<open>canon\<close> is the part of the state the undo
  restores, \<open>ok\<close> the invariant, and \<open>ready t s\<close> the condition under which \<open>t\<close> can be taken
  back after it was applied to \<open>s\<close>. The lemmas lift the inverse law from one transaction to
  a list undone in reverse order, the way a failed block connect and a block disconnect do it.
\<close>

locale undoable =
  fixes app :: "'t \<Rightarrow> 's \<Rightarrow> 's"
    and und :: "'t \<Rightarrow> 's \<Rightarrow> 's"
    and ready :: "'t \<Rightarrow> 's \<Rightarrow> bool"
    and canon :: "'s \<Rightarrow> 's"
    and ok :: "'s \<Rightarrow> bool"
  assumes ok_app: "ok s \<Longrightarrow> ok (app t s)"
    and ok_und: "ok s \<Longrightarrow> ok (und t s)"
    and und_app: "ok s \<Longrightarrow> ready t s \<Longrightarrow> canon (und t (app t s)) = canon s"
    and und_canon: "ok s \<Longrightarrow> ok s' \<Longrightarrow> canon s = canon s' \<Longrightarrow> canon (und t s) = canon (und t s')"
begin

fun ready_run :: "'t list \<Rightarrow> 's \<Rightarrow> bool" where
  "ready_run [] s = True"
| "ready_run (t # ts) s = (ready t s \<and> ready_run ts (app t s))"

lemma ok_fold_app: "ok s \<Longrightarrow> ok (fold app ts s)"
  by (induction ts arbitrary: s) (simp_all add: ok_app)

lemma ok_fold_und: "ok s \<Longrightarrow> ok (fold und ts s)"
  by (induction ts arbitrary: s) (simp_all add: ok_und)

lemma fold_und_app: "ok s \<Longrightarrow> ready_run ts s \<Longrightarrow> canon (fold und (rev ts) (fold app ts s)) = canon s"
proof (induction ts arbitrary: s)
  case (Cons t ts)
  then have "canon (fold und (rev ts) (fold app ts (app t s))) = canon (app t s)"
    by (simp add: ok_app)
  moreover have "ok (fold und (rev ts) (fold app ts (app t s)))"
    by (intro ok_fold_und ok_fold_app ok_app) (rule Cons.prems)
  ultimately have "canon (und t (fold und (rev ts) (fold app ts (app t s)))) = canon (und t (app t s))"
    by (intro und_canon ok_app) (simp_all add: Cons.prems)
  with Cons.prems show ?case by (simp add: und_app)
qed simp

end

section \<open>Invariants over a list of steps\<close>

lemma fold_invariant: "P s \<Longrightarrow> (\<And>x s. x \<in> set xs \<Longrightarrow> P s \<Longrightarrow> P (f x s)) \<Longrightarrow> P (fold f xs s)"
proof (induction xs arbitrary: s)
  case (Cons x xs)
  have "P (f x s)" by (rule Cons.prems(2)) (simp_all add: Cons.prems(1))
  then have "P (fold f xs (f x s))" by (rule Cons.IH) (rule Cons.prems(2), simp_all)
  then show ?case by simp
qed simp

lemma fold_unchanged: "(\<And>x s. x \<in> set xs \<Longrightarrow> g (f x s) = g s) \<Longrightarrow> g (fold f xs s) = g s"
proof (induction xs arbitrary: s)
  case (Cons x xs)
  have "g (fold f xs (f x s)) = g (f x s)" by (rule Cons.IH) (rule Cons.prems, simp)
  also have "\<dots> = g s" by (rule Cons.prems) simp
  finally show ?case by simp
qed simp

section \<open>Rejections\<close>

text \<open>
  \<^verbatim>\<open>CValidationState::DoS(level, error(..), code, reason)\<close> returns false with a misbehaviour
  score; \<^verbatim>\<open>CValidationState::Invalid\<close> is a score of 0; \<open>Abort\<close> is a failed \<^verbatim>\<open>assert\<close>. A check returns \<open>Some\<close> of its
  rejection or \<open>None\<close> when it passes; \<open>first_failure\<close> runs a list of guarded rejections
  in order, the shape of the code's \<^verbatim>\<open>if (..) return state.DoS(..);\<close> sequences.
\<close>

datatype reject = Reject (rj_dos: int) (rj_code: int) (rj_reason: string) | Abort

definition REJECT_INVALID :: int where "REJECT_INVALID = 16"
definition REJECT_DUPLICATE :: int where "REJECT_DUPLICATE = 18"

abbreviation DoS :: "int \<Rightarrow> string \<Rightarrow> reject" where
  "DoS level reason \<equiv> Reject level REJECT_INVALID reason"

abbreviation Duplicate :: "string \<Rightarrow> reject" where
  "Duplicate reason \<equiv> Reject 0 REJECT_DUPLICATE reason"

fun first_failure :: "(bool \<times> reject) list \<Rightarrow> reject option" where
  "first_failure [] = None"
| "first_failure ((b, r) # cs) = (if b then Some r else first_failure cs)"

lemma first_failure_None: "first_failure cs = None \<longleftrightarrow> (\<forall>c\<in>set cs. \<not> fst c)"
  by (induction cs rule: first_failure.induct) auto

definition and_then :: "reject option \<Rightarrow> reject option \<Rightarrow> reject option" where
  "and_then a b = (case a of None \<Rightarrow> b | Some r \<Rightarrow> Some r)"

lemma and_then_None [simp]: "and_then a b = None \<longleftrightarrow> a = None \<and> b = None"
  by (simp add: and_then_def split: option.splits)

section \<open>Text helpers\<close>

text \<open>
  \<^verbatim>\<open>strprintf("%u", n)\<close> and \<^verbatim>\<open>std::to_string(n)\<close> print a decimal number; \<^verbatim>\<open>HexStr\<close> prints a
  byte vector, \<^verbatim>\<open>uint256::GetHex\<close> prints the data array from its last byte to its first.
\<close>

definition digit_char :: "nat \<Rightarrow> char" where
  "digit_char d = char_of (if d < 10 then 48 + d else 87 + d)"

fun dec_nat :: "nat \<Rightarrow> string" where
  "dec_nat n = (if n < 10 then [digit_char n] else dec_nat (n div 10) @ [digit_char (n mod 10)])"

declare dec_nat.simps [simp del]

definition HexStr :: "bytes \<Rightarrow> string" where
  "HexStr bs = concat (map (\<lambda>b. [digit_char (unat b div 16), digit_char (unat b mod 16)]) bs)"

definition GetHex :: "uint256 \<Rightarrow> string" where
  "GetHex h = HexStr (rev h)"

definition HexDigit :: "char \<Rightarrow> int" where
  "HexDigit c =
     (let n = (of_char c :: nat)
      in if 48 \<le> n \<and> n \<le> 57 then int n - 48
         else if 65 \<le> n \<and> n \<le> 70 then int n - 55
         else if 97 \<le> n \<and> n \<le> 102 then int n - 87
         else -1)"

definition isspace :: "char \<Rightarrow> bool" where
  "isspace c = (let n = (of_char c :: nat) in (9 \<le> n \<and> n \<le> 13) \<or> n = 32)"

text \<open>The terminating NUL of a C string is the end of the list.\<close>

function ParseHex :: "string \<Rightarrow> bytes" where
  "ParseHex s =
     (case dropWhile isspace s of
        [] \<Rightarrow> []
      | c # s1 \<Rightarrow>
          if HexDigit c = -1 then []
          else case s1 of
            [] \<Rightarrow> []
          | d # s2 \<Rightarrow>
              if HexDigit d = -1 then []
              else (push_bit 4 (word_of_int (HexDigit c)) OR word_of_int (HexDigit d)) # ParseHex s2)"
  by pat_completeness auto
termination
proof (relation "measure length")
  fix s c s1 d s2
  assume "dropWhile isspace s = c # s1" "s1 = d # s2"
  moreover have "length (dropWhile isspace s) \<le> length s" by (rule length_dropWhile_le)
  ultimately show "(s2, s) \<in> measure length" by simp
qed simp

declare ParseHex.simps [simp del]

text \<open>
  \<^verbatim>\<open>base_blob<256>::SetHex\<close>: leading spaces and an optional \<^verbatim>\<open>0x\<close> are skipped, then the
  digits are packed from the last one on, two per byte, into the 32 bytes of the array.
\<close>

fun pack_nibbles :: "int list \<Rightarrow> bytes" where
  "pack_nibbles [] = []"
| "pack_nibbles [d] = [word_of_int d]"
| "pack_nibbles (d # e # ds) = (word_of_int d OR push_bit 4 (word_of_int e)) # pack_nibbles ds"

definition skip_0x :: "string \<Rightarrow> string" where
  "skip_0x s = (case s of
       c0 # c1 # r \<Rightarrow> if c0 = CHR ''0'' \<and> (c1 = CHR ''x'' \<or> c1 = CHR ''X'') then r else s
     | _ \<Rightarrow> s)"

definition SetHex :: "string \<Rightarrow> uint256" where
  "SetHex s =
     (let ds = takeWhile (\<lambda>d. d \<noteq> -1) (map HexDigit (skip_0x (dropWhile isspace s)));
          bs = take 32 (pack_nibbles (rev ds))
      in bs @ replicate (32 - length bs) 0)"

text \<open>\<^verbatim>\<open>UintToArith256\<close> and \<^verbatim>\<open>ArithToUint256\<close>: the number whose little-endian bytes are the data.\<close>

type_synonym arith_uint256 = "256 word"

fun le_num :: "bytes \<Rightarrow> nat" where
  "le_num [] = 0"
| "le_num (b # bs) = unat b + 256 * le_num bs"

fun le_bytes :: "nat \<Rightarrow> nat \<Rightarrow> bytes" where
  "le_bytes 0 n = []"
| "le_bytes (Suc k) n = word_of_nat (n mod 256) # le_bytes k (n div 256)"

definition UintToArith256 :: "uint256 \<Rightarrow> arith_uint256" where
  "UintToArith256 h = word_of_nat (le_num h)"

definition ArithToUint256 :: "arith_uint256 \<Rightarrow> uint256" where
  "ArithToUint256 x = le_bytes 32 (unat x)"

definition str_bytes :: "string \<Rightarrow> bytes" where
  "str_bytes s = map of_char s"

definition uint256_zero :: uint256 where "uint256_zero = replicate 32 0"

definition uint256_IsNull :: "uint256 \<Rightarrow> bool" where
  "uint256_IsNull h = list_all (\<lambda>b. b = 0) h"

lemma unat_u8: "unat (b :: 8 word) < 256"
proof -
  have "unat b < 2 ^ LENGTH(8)" by (rule unsigned_less)
  then show ?thesis by simp
qed

lemma of_char_digit: "d < 16 \<Longrightarrow> (of_char (digit_char d) :: nat) = (if d < 10 then 48 + d else 87 + d)"
  by (simp add: digit_char_def)

lemma HexDigit_digit: "d < 16 \<Longrightarrow> HexDigit (digit_char d) = int d"
  by (auto simp: HexDigit_def of_char_digit Let_def)

lemma isspace_digit: "d < 16 \<Longrightarrow> \<not> isspace (digit_char d)"
  by (auto simp: isspace_def of_char_digit Let_def)

lemma join_nibbles:
  "push_bit 4 (word_of_nat (unat (b :: 8 word) div 16)) OR word_of_nat (unat b mod 16) = b"
proof -
  have "word_of_nat (unat b div 16) = drop_bit 4 b"
    by (simp add: drop_bit_eq_div unat_div word_arith_nat_div)
  moreover have "word_of_nat (unat b mod 16) = take_bit 4 b"
    by (simp add: take_bit_eq_mod word_arith_nat_mod)
  ultimately show ?thesis
    by (simp add: bit_eq_iff bit_simps) (auto simp: bit_simps)
qed

lemma HexStr_Nil [simp]: "HexStr [] = []"
  by (simp add: HexStr_def)

lemma HexStr_Cons: "HexStr (b # bs) = digit_char (unat b div 16) # digit_char (unat b mod 16) # HexStr bs"
  by (simp add: HexStr_def)

lemma nibble_bounds: "unat (b :: 8 word) div 16 < 16" "unat b mod 16 < 16"
  using unat_u8 [of b] by auto

lemma ParseHex_HexStr: "ParseHex (HexStr bs) = bs"
proof (induction bs)
  case Nil show ?case by (simp add: ParseHex.simps)
next
  case (Cons b bs)
  have "ParseHex (HexStr (b # bs)) =
      (push_bit 4 (word_of_int (int (unat b div 16))) OR word_of_int (int (unat b mod 16))) # ParseHex (HexStr bs)"
    using nibble_bounds [of b]
    by (subst ParseHex.simps) (simp add: HexStr_Cons isspace_digit HexDigit_digit)
  then show ?case using Cons by (simp add: join_nibbles)
qed

lemma length_HexStr [simp]: "length (HexStr bs) = 2 * length bs"
  by (induction bs) (simp_all add: HexStr_Cons)

lemma HexStr_inj: "HexStr a = HexStr b \<Longrightarrow> a = b"
  by (metis ParseHex_HexStr)

lemma GetHex_inj: "GetHex a = GetHex b \<Longrightarrow> a = b"
  by (metis GetHex_def HexStr_inj rev_rev_ident)

lemma le_num_bound: "le_num bs < 256 ^ length bs"
proof (induction bs)
  case (Cons b bs)
  have "unat b < 256" by (rule unat_u8)
  moreover from Cons have "Suc (le_num bs) \<le> 256 ^ length bs" by simp
  then have "256 * Suc (le_num bs) \<le> 256 * 256 ^ length bs" by (rule mult_le_mono2)
  ultimately show ?case by simp
qed simp

lemma le_bytes_le_num: "le_bytes (length bs) (le_num bs) = bs"
proof (induction bs)
  case (Cons b bs)
  have "unat b < 256" by (rule unat_u8)
  with Cons show ?case by simp
qed simp

lemma length_le_bytes [simp]: "length (le_bytes k n) = k"
  by (induction k arbitrary: n) simp_all

lemma le_num_le_bytes: "le_num (le_bytes k n) = n mod 256 ^ k"
proof (induction k arbitrary: n)
  case (Suc k)
  have "le_num (le_bytes (Suc k) n) = n mod 256 + 256 * (n div 256 mod 256 ^ k)"
    by (simp add: Suc unat_of_nat)
  also have "\<dots> = n mod (256 * 256 ^ k)" by (simp add: mod_mult2_eq)
  finally show ?case by simp
qed simp

lemma ArithToUint256_UintToArith256: "length h = 32 \<Longrightarrow> ArithToUint256 (UintToArith256 h) = h"
  using le_num_bound [of h] le_bytes_le_num [of h]
  by (simp add: ArithToUint256_def UintToArith256_def unat_of_nat)

lemma UintToArith256_ArithToUint256: "UintToArith256 (ArithToUint256 x) = x"
proof -
  have "unat x < 2 ^ LENGTH(256)" by (rule unsigned_less)
  then have "unat x mod 256 ^ 32 = unat x" by simp
  then show ?thesis by (simp add: ArithToUint256_def UintToArith256_def le_num_le_bytes del: mod_less)
qed

lemma HexDigit_HexStr: "map HexDigit (HexStr bs) = concat (map (\<lambda>b. [int (unat b div 16), int (unat b mod 16)]) bs)"
  by (induction bs) (simp_all add: HexStr_Cons HexDigit_digit nibble_bounds)

lemma pack_nibbles_rev:
  "pack_nibbles (rev (concat (map (\<lambda>b. [int (unat b div 16), int (unat b mod 16)]) bs))) = rev bs"
proof (induction bs rule: rev_induct)
  case (snoc b bs)
  then show ?case using join_nibbles [of b] by (simp add: or.commute)
qed simp

lemma digit_char_0: "digit_char d = CHR ''x'' \<or> digit_char d = CHR ''X'' \<Longrightarrow> d < 16 \<Longrightarrow> False"
proof -
  assume d: "d < 16" and "digit_char d = CHR ''x'' \<or> digit_char d = CHR ''X''"
  then have "(of_char (digit_char d) :: nat) \<in> {120, 88}" by (elim disjE) simp_all
  with d show False by (simp add: of_char_digit split: if_splits)
qed

lemma skip_0x_HexStr: "skip_0x (HexStr bs) = HexStr bs"
proof (cases bs)
  case (Cons b r)
  have "digit_char (unat b mod 16) \<noteq> CHR ''x''" "digit_char (unat b mod 16) \<noteq> CHR ''X''"
    using digit_char_0 [of "unat b mod 16"] nibble_bounds [of b] by auto
  with Cons show ?thesis by (simp add: HexStr_Cons skip_0x_def)
qed (simp add: skip_0x_def)

lemma dropWhile_HexStr: "dropWhile isspace (HexStr bs) = HexStr bs"
  by (cases bs) (simp_all add: HexStr_Cons isspace_digit nibble_bounds)

lemma SetHex_GetHex: "length h = 32 \<Longrightarrow> SetHex (GetHex h) = h"
proof -
  assume h: "length h = 32"
  let ?ds = "concat (map (\<lambda>b. [int (unat b div 16), int (unat b mod 16)]) (rev h))"
  have "takeWhile (\<lambda>d. d \<noteq> -1) ?ds = ?ds"
    by (rule takeWhile_eq_all_conv [THEN iffD2]) auto
  then have "pack_nibbles (rev (takeWhile (\<lambda>d. d \<noteq> -1) ?ds)) = h"
    by (simp only: pack_nibbles_rev rev_rev_ident)
  with h show ?thesis
    by (simp add: SetHex_def Let_def GetHex_def dropWhile_HexStr skip_0x_HexStr HexDigit_HexStr)
qed

subsection \<open>Decimal numbers\<close>

lemma dec_nat_digits: "c \<in> set (dec_nat n) \<Longrightarrow> 48 \<le> (of_char c :: nat) \<and> (of_char c :: nat) \<le> 57"
proof (induction n rule: dec_nat.induct)
  case (1 n)
  then show ?case
    by (subst (asm) (2) dec_nat.simps) (auto simp: of_char_digit split: if_splits)
qed

lemma dec_nat_no_colon: "CHR '':'' \<notin> set (dec_nat n)"
  using dec_nat_digits [of "CHR '':''" n] by auto

lemma dec_nat_not_Nil [simp]: "dec_nat n \<noteq> []"
  by (subst dec_nat.simps) simp

lemma digit_char_inj: "digit_char a = digit_char b \<Longrightarrow> a < 16 \<Longrightarrow> b < 16 \<Longrightarrow> a = b"
  by (metis HexDigit_digit of_nat_eq_iff)

lemma dec_nat_inj: "dec_nat a = dec_nat b \<Longrightarrow> a = b"
proof (induction a arbitrary: b rule: dec_nat.induct)
  case (1 a)
  have a: "dec_nat a = (if a < 10 then [digit_char a] else dec_nat (a div 10) @ [digit_char (a mod 10)])"
    and b: "dec_nat b = (if b < 10 then [digit_char b] else dec_nat (b div 10) @ [digit_char (b mod 10)])"
    by (rule dec_nat.simps)+
  show ?case
  proof (cases "a < 10")
    case True
    with "1.prems" a b have "b < 10" by (auto split: if_splits dest: sym)
    with True "1.prems" a b show ?thesis by (auto dest: digit_char_inj)
  next
    case False
    with "1.prems" a b have "\<not> b < 10" by (auto split: if_splits dest: sym)
    with False "1.prems" a b have "dec_nat (a div 10) = dec_nat (b div 10)"
      "digit_char (a mod 10) = digit_char (b mod 10)" by simp_all
    with False "1.IH" have "a div 10 = b div 10" "a mod 10 = b mod 10"
      by (auto dest: digit_char_inj)
    then show ?thesis by (metis div_mult_mod_eq)
  qed
qed

end
