(* ===== verification/Opoi_Types.thy ===== *)
theory Opoi_Types
  imports Cs_Prelude
begin

text \<open>
  The data of the OPoI subsystem (Optimistic Proof of Inference): the fields of an OPoI
  transaction (\<^verbatim>\<open>primitives/transaction.h\<close>), the records of the cache
  (\<^verbatim>\<open>opoi/opoi.h\<close>, \<^verbatim>\<open>opoi/opoi_model_manifest.h\<close>), the consensus parameters the subsystem
  reads (\<^verbatim>\<open>consensus/params.h\<close>), and \<open>opoi_env\<close>, the primitives it calls: hash, signature
  recovery, VRF verification, address decoding and the block hashes of the active chain.

  Fields that arrive on the wire are numbers, as in the code; fields only the code itself
  assigns (the statuses) are datatypes with the constructors of the code's constants.
\<close>

section \<open>Outpoints and transactions\<close>

datatype COutPoint = COutPoint (op_hash: uint256) (op_n: u32)

instantiation COutPoint :: linorder
begin

fun less_COutPoint :: "COutPoint \<Rightarrow> COutPoint \<Rightarrow> bool" where
  "less_COutPoint (COutPoint h n) (COutPoint h' n') = (h < h' \<or> (h = h' \<and> n < n'))"

definition less_eq_COutPoint :: "COutPoint \<Rightarrow> COutPoint \<Rightarrow> bool" where
  "less_eq_COutPoint a b = (a < b \<or> a = b)"

instance
proof
  fix x y z :: COutPoint
  show "(x < y) = (x \<le> y \<and> \<not> y \<le> x)"
    by (cases x; cases y) (auto simp: less_eq_COutPoint_def)
  show "x \<le> x" by (simp add: less_eq_COutPoint_def)
  show "x \<le> y \<Longrightarrow> y \<le> z \<Longrightarrow> x \<le> z"
    by (cases x; cases y; cases z) (auto simp: less_eq_COutPoint_def)
  show "x \<le> y \<Longrightarrow> y \<le> x \<Longrightarrow> x = y"
    by (cases x; cases y) (auto simp: less_eq_COutPoint_def)
  show "x \<le> y \<or> y \<le> x"
    by (cases x; cases y) (auto simp: less_eq_COutPoint_def)
qed

end

definition COutPoint_null :: COutPoint where
  "COutPoint_null = COutPoint uint256_zero (-1)"

definition COutPoint_IsNull :: "COutPoint \<Rightarrow> bool" where
  "COutPoint_IsNull o1 \<longleftrightarrow> uint256_IsNull (op_hash o1) \<and> op_n o1 = -1"

record CTxOut =
  nValue :: int
  scriptPubKey :: bytes

text \<open>
  \<open>tx_hash\<close> is the value of \<^verbatim>\<open>GetHash()\<close>, which a transaction computes when it is built.
\<close>

record CTransaction =
  tx_hash :: uint256
  nVersion :: int
  nType :: int
  vin :: "COutPoint list"
  vout :: "CTxOut list"
  vJoinSplit :: "bytes list"
  csappDeploymentId :: string
  csappOwner :: string
  csappSpecJson :: string
  csappIp :: string
  csappLockedAmount :: int
  csappSig :: bytes
  opoiRequestId :: string
  opoiRequester :: address
  opoiMinerAddress :: address
  opoiModel :: string
  opoiPromptHash :: uint256
  opoiResponseHash :: uint256
  opoiCommitment :: uint256
  opoiMaxTokens :: u32
  opoiTokenCount :: u32
  opoiTaskType :: int
  opoiTaskClass :: u8
  opoiPayment :: int
  opoiFeePerToken :: int
  opoiSigTime :: u32
  opoiSig :: bytes
  opoiVrfProof :: bytes
  opoiCollateralIn :: COutPoint
  opoiChallengePhase :: u8
  opoiCommitHash :: bytes
  opoiProofData :: bytes
  opoiChallengeNonce :: bytes
  opoiChallengerCollateralIn :: COutPoint
  opoiResponsePhase :: u8
  opoiResponseCommitHash :: bytes
  opoiResponseNonce :: bytes
  opoiVrfOutput :: bytes
  opoiModelId :: string
  opoiTier :: u8
  opoiPomRoot :: uint256
  opoiHostedExpertIds :: "u32 list"
  opoiEndpoint :: string
  opoiPromptTokenCount :: u32
  opoiIsCanary :: u8
  opoiTestSuite :: uint256
  opoiAuditorAddress :: address
  opoiAuditorVerifyResult :: u8
  opoiAuditorCollateralIn :: COutPoint
  opoiModelArchType :: u8
  opoiModelTotalParams :: u64
  opoiModelActiveParamsPerToken :: u64
  opoiModelNumLayers :: u32
  opoiModelNumDenseShards :: u32
  opoiModelNumExperts :: u32
  opoiModelTopKExperts :: u32
  opoiModelExpertPomRoots :: "uint256 list"
  opoiModelMinRewardPerToken :: int
  opoiModelTotalSizeBytes :: u64
  opoiModelVoteApprove :: u8
  opoiShardIndex :: u32

definition OPOI_TX_VERSION :: int where "OPOI_TX_VERSION = 8"
definition OPOI_REQUEST_TX_TYPE :: int where "OPOI_REQUEST_TX_TYPE = 1"
definition OPOI_RESPONSE_TX_TYPE :: int where "OPOI_RESPONSE_TX_TYPE = 2"
definition OPOI_STAKE_TX_TYPE :: int where "OPOI_STAKE_TX_TYPE = 3"
definition OPOI_UNSTAKE_TX_TYPE :: int where "OPOI_UNSTAKE_TX_TYPE = 4"
definition OPOI_CHALLENGE_TX_TYPE :: int where "OPOI_CHALLENGE_TX_TYPE = 5"
definition OPOI_AUDITOR_VERIFY_TX_TYPE :: int where "OPOI_AUDITOR_VERIFY_TX_TYPE = 6"
definition OPOI_MODEL_REGISTER_TX_TYPE :: int where "OPOI_MODEL_REGISTER_TX_TYPE = 7"
definition OPOI_MODEL_VOTE_TX_TYPE :: int where "OPOI_MODEL_VOTE_TX_TYPE = 8"
definition OPOI_COORDINATOR_CLAIM_TX_TYPE :: int where "OPOI_COORDINATOR_CLAIM_TX_TYPE = 9"
definition OPOI_SHARD_RESULT_TX_TYPE :: int where "OPOI_SHARD_RESULT_TX_TYPE = 10"
definition OPOI_RENEW_TX_TYPE :: int where "OPOI_RENEW_TX_TYPE = 11"

lemmas opoi_types = OPOI_TX_VERSION_def OPOI_REQUEST_TX_TYPE_def OPOI_RESPONSE_TX_TYPE_def
  OPOI_STAKE_TX_TYPE_def OPOI_UNSTAKE_TX_TYPE_def OPOI_CHALLENGE_TX_TYPE_def
  OPOI_AUDITOR_VERIFY_TX_TYPE_def OPOI_MODEL_REGISTER_TX_TYPE_def OPOI_MODEL_VOTE_TX_TYPE_def
  OPOI_COORDINATOR_CLAIM_TX_TYPE_def OPOI_SHARD_RESULT_TX_TYPE_def OPOI_RENEW_TX_TYPE_def

definition OPOI_TASK_OPEN :: int where "OPOI_TASK_OPEN = 0"
definition OPOI_TASK_VERIFIABLE :: int where "OPOI_TASK_VERIFIABLE = 1"
definition OPOI_TASKCLASS_INTERACTIVE :: u8 where "OPOI_TASKCLASS_INTERACTIVE = 0"
definition OPOI_AUDITOR_VERIFY_NO_SHARD :: u32 where "OPOI_AUDITOR_VERIFY_NO_SHARD = -1"
definition AUDITOR_VERIFY_PASS :: u8 where "AUDITOR_VERIFY_PASS = 0"
definition AUDITOR_VERIFY_FAIL :: u8 where "AUDITOR_VERIFY_FAIL = 1"
definition AUDITOR_VERIFY_TIMEOUT :: u8 where "AUDITOR_VERIFY_TIMEOUT = 2"
definition OPOI_TIER_TITAN :: u8 where "OPOI_TIER_TITAN = 4"
definition OPOI_MAX_CANARY_STRIKES :: u8 where "OPOI_MAX_CANARY_STRIKES = 3"
definition OPOI_ARCH_DENSE :: u8 where "OPOI_ARCH_DENSE = 0"
definition OPOI_ARCH_MOE :: u8 where "OPOI_ARCH_MOE = 1"
definition OPOI_ARCH_HYBRID :: u8 where "OPOI_ARCH_HYBRID = 2"

lemmas verdicts = AUDITOR_VERIFY_PASS_def AUDITOR_VERIFY_FAIL_def AUDITOR_VERIFY_TIMEOUT_def
lemmas task_types = OPOI_TASK_OPEN_def OPOI_TASK_VERIFIABLE_def

section \<open>Requests and responses\<close>

datatype request_status = RQ_PENDING | RQ_FULFILLED | RQ_EXPIRED

record OPoIRequest =
  rq_requestId :: string
  rq_requester :: address
  rq_model :: string
  rq_promptHash :: uint256
  rq_maxTokens :: u32
  rq_payment :: int
  rq_feePerToken :: int
  rq_taskType :: int
  rq_taskClass :: u8
  rq_promptTokenCount :: u32
  rq_isCanary :: u8
  rq_testSuite :: uint256
  rq_blockHeight :: u32
  rq_sigTime :: u32
  rq_txHash :: uint256
  rq_status :: request_status
  rq_responseCommits :: "(address, string) smap"
  rq_responseReveals :: "(address, string) smap"
  rq_commitWindowClosed :: bool
  rq_vrfActiveStakers :: u32

definition rq_IsPending :: "OPoIRequest \<Rightarrow> bool" where
  "rq_IsPending r \<longleftrightarrow> rq_status r = RQ_PENDING"

definition rq_IsExpired :: "OPoIRequest \<Rightarrow> bool" where
  "rq_IsExpired r \<longleftrightarrow> rq_status r = RQ_EXPIRED"

definition rq_IsVerifiable :: "OPoIRequest \<Rightarrow> bool" where
  "rq_IsVerifiable r \<longleftrightarrow> rq_taskType r = OPOI_TASK_VERIFIABLE"

text \<open>
  \<^verbatim>\<open>responseCommitHash\<close> and \<^verbatim>\<open>commitHeight\<close> of a response are never assigned by the code
  that builds one, and nothing reads them; they are left out.
\<close>

record OPoIResponse =
  rs_requestId :: string
  rs_minerAddress :: address
  rs_responseHash :: uint256
  rs_commitment :: uint256
  rs_tokenCount :: u32
  rs_responsePhase :: u8
  rs_blockHeight :: u32
  rs_sigTime :: u32
  rs_txHash :: uint256
  rs_auditSelected :: u8
  rs_auditDeadline :: u32

definition rs_IsRevealed :: "OPoIResponse \<Rightarrow> bool" where
  "rs_IsRevealed r \<longleftrightarrow> rs_responsePhase r = 1"

section \<open>Stakes and challenges\<close>

datatype stake_status = ST_ACTIVE | ST_UNSTAKING | ST_RELEASED | ST_SLASHED | ST_SUSPENDED

record OPoIStake =
  st_minerAddress :: address
  st_collateralIn :: COutPoint
  st_amount :: int
  st_modelId :: string
  st_tier :: u8
  st_pomRoot :: uint256
  st_blockHeight :: u32
  st_lastRenewalHeight :: u32
  st_sigTime :: u32
  st_txHash :: uint256
  st_stakeStatus :: stake_status
  st_unstakeHeight :: u32
  st_unstakeTxHash :: uint256
  st_responsesTotal :: u32
  st_responsesChallenged :: u32
  st_responsesSlashed :: u32
  st_canaryStrikes :: u8
  st_canaryObligationDeadline :: u32
  st_minerPubKey :: bytes
  st_hostedExpertIds :: "u32 list"
  st_endpoint :: string

definition st_IsActive :: "OPoIStake \<Rightarrow> bool" where
  "st_IsActive s \<longleftrightarrow> st_stakeStatus s = ST_ACTIVE"

definition st_IsUnstaking :: "OPoIStake \<Rightarrow> bool" where
  "st_IsUnstaking s \<longleftrightarrow> st_stakeStatus s = ST_UNSTAKING"

definition HostsExpert :: "OPoIStake \<Rightarrow> u32 \<Rightarrow> bool" where
  "HostsExpert s e \<longleftrightarrow> List.member (st_hostedExpertIds s) e"

definition HasCanaryObligation :: "OPoIStake \<Rightarrow> bool" where
  "HasCanaryObligation s \<longleftrightarrow> st_canaryObligationDeadline s \<noteq> 0"

text \<open>
  The products are computed in 32 bits (unsigned for the counters, \<^verbatim>\<open>int\<close> for the strikes)
  and read back as a signed \<^verbatim>\<open>int\<close>.
\<close>

definition ReputationScore :: "OPoIStake \<Rightarrow> int" where
  "ReputationScore s =
     (if st_responsesTotal s = 0 then 100
      else
        let s0 = 100;
            s1 = (if 0 < st_responsesSlashed s then s0 - sint (st_responsesSlashed s * 20) else s0);
            s2 = (if 0 < st_responsesChallenged s then s1 - sint (st_responsesChallenged s * 5) else s1);
            s3 = (if 0 < st_canaryStrikes s then s2 - uint (st_canaryStrikes s) * 10 else s2)
        in if s3 < 0 then 0 else s3)"

datatype challenge_status =
  CH_OPEN | CH_SLASHED | CH_EXPIRED | CH_REVEALED_PENDING | CH_RESOLVED_NO_ORACLE

record OPoIChallenge =
  ch_requestId :: string
  ch_challengerAddress :: address
  ch_fraudProof :: bytes
  ch_challengerCollateral :: COutPoint
  ch_phase :: u8
  ch_commitHash :: string
  ch_commitHeight :: u32
  ch_blockHeight :: u32
  ch_sigTime :: u32
  ch_txHash :: uint256
  ch_challengeStatus :: challenge_status
  ch_revealTxHash :: uint256

definition ch_IsOpen :: "OPoIChallenge \<Rightarrow> bool" where
  "ch_IsOpen c \<longleftrightarrow> ch_challengeStatus c = CH_OPEN"

definition ch_IsPendingResolution :: "OPoIChallenge \<Rightarrow> bool" where
  "ch_IsPendingResolution c \<longleftrightarrow> ch_challengeStatus c = CH_REVEALED_PENDING"

section \<open>Shards, auditors, models\<close>

record ShardCoordinatorClaim =
  cl_requestId :: string
  cl_minerAddress :: address
  cl_blockHeight :: u32
  cl_txHash :: uint256

record ShardResultSubmission =
  sr_minerAddress :: address
  sr_boundaryOutputHash :: uint256
  sr_routerLogitsHash :: uint256
  sr_tokenCount :: u32
  sr_blockHeight :: u32
  sr_txHash :: uint256

datatype auditor_status = AS_PENDING | AS_COMPLETE | AS_SLASHED

record AuditorVerification =
  av_requestId :: string
  av_auditorAddress :: address
  av_result :: u8
  av_auditorCollateral :: COutPoint
  av_blockHeight :: u32
  av_txHash :: uint256
  av_status :: auditor_status
  av_shardIndex :: u32

definition IsShardScoped :: "AuditorVerification \<Rightarrow> bool" where
  "IsShardScoped v \<longleftrightarrow> av_shardIndex v \<noteq> OPOI_AUDITOR_VERIFY_NO_SHARD"

datatype model_status = MS_VOTING | MS_APPROVED | MS_ACTIVE | MS_REJECTED

record ModelManifest =
  mm_modelId :: string
  mm_archType :: u8
  mm_totalParams :: u64
  mm_activeParamsPerToken :: u64
  mm_numLayers :: u32
  mm_numDenseShards :: u32
  mm_numExperts :: u32
  mm_topKExperts :: u32
  mm_backbonePomRoot :: uint256
  mm_expertPomRoots :: "uint256 list"
  mm_minRewardPerToken :: int
  mm_totalSizeBytes :: u64
  mm_proposer :: address
  mm_proposedHeight :: u32
  mm_voteWindowEndHeight :: u32
  mm_activationHeight :: u32
  mm_txHash :: uint256
  mm_status :: model_status
  mm_shardTopologyHash :: uint256

definition IsMoE :: "ModelManifest \<Rightarrow> bool" where
  "IsMoE m \<longleftrightarrow> mm_archType m = OPOI_ARCH_MOE \<or> mm_archType m = OPOI_ARCH_HYBRID"

definition mm_IsVoting :: "ModelManifest \<Rightarrow> bool" where
  "mm_IsVoting m \<longleftrightarrow> mm_status m = MS_VOTING"

definition mm_IsActive :: "ModelManifest \<Rightarrow> bool" where
  "mm_IsActive m \<longleftrightarrow> mm_status m = MS_ACTIVE"

record ModelVoteRecord =
  vr_voterAddress :: address
  vr_approve :: bool
  vr_weight :: int
  vr_blockHeight :: u32
  vr_txHash :: uint256

lemmas status_defs = rq_IsPending_def rq_IsExpired_def rq_IsVerifiable_def rs_IsRevealed_def
  st_IsActive_def st_IsUnstaking_def HasCanaryObligation_def ch_IsOpen_def
  ch_IsPendingResolution_def mm_IsVoting_def mm_IsActive_def

section \<open>Consensus parameters\<close>

text \<open>
  The OPoI fields of \<^verbatim>\<open>Consensus::Params\<close>. The share of the subsidy (\<^verbatim>\<open>nOPoISubsidyPct\<close>, a
  \<^verbatim>\<open>double\<close> that no network overrides) is a constant of the payment theory.
\<close>

record Params =
  nSubsidySlowStartInterval :: int
  nSubsidyHalvingInterval :: int
  nOPoIMinStake :: int
  nOPoIUnstakeCooldownBlocks :: int
  nOPoIChallengerRewardPct :: int
  nOPoITreasuryRewardPct :: int
  nOPoIChallengeCommitRevealBlocks :: int
  nOPoIResponseCommitWindowBlocks :: int
  nOPoIRequestExpiryBlocks :: int
  nOPoIMinAuditors :: int
  nOPoIVrfThreshold :: string
  nOPoIAdaptiveVrfHeight :: int
  nOPoIVrfTargetEligible :: int
  nOPoIModelVoteWindowBlocks :: int
  nOPoIModelApprovalPct :: int
  nOPoIModelActivationDelayBlocks :: int
  nOPoICoordinatorThreshold :: string
  nOPoIShardThreshold :: string
  nOPoIShardMinSubmissions :: int
  nOPoIMaxPipelineDepth :: int
  nOPoITitanOffloadThresholdGB :: int
  nOPoIMaxRequestsPerBlock :: int
  nOPoIMaxResponsesPerBlock :: int
  nOPoIStakeRenewalBlocks :: int
  nOPoICanaryAuditFrequency :: int
  nOPoICanaryResponseWindow :: int
  nOPoIAuditSampleRateBp :: int
  nOPoIAuditSampleRateNewMinerBp :: int
  nOPoIAuditSampleNewMinerResponseCount :: u32
  nOPoIAuditWindowBlocks :: int
  nOPoIFeeBase :: int
  nOPoIFeePerToken :: int
  UPGRADE_OPOI_height :: int

section \<open>Primitives\<close>

text \<open>
  What the subsystem calls and this development does not define: SHA-256, the P2PKH key id
  of an address, public-key recovery from a compact signature, the key id of a public key,
  VRF verification (\<open>Some\<close> of the 32-byte output when the proof is valid), the output script
  of an address (\<open>None\<close> when it is not a valid destination), the hash of the active chain's
  block at a height (\<open>None\<close> beyond the tip), the treasury address, and \<^verbatim>\<open>fIsVerifying\<close>, the
  flag that is set while the node re-checks its stored blocks at start-up.
\<close>

record opoi_env =
  sha256 :: "bytes \<Rightarrow> bytes"
  decode_keyid :: "address \<Rightarrow> bytes option"
  recover_compact :: "uint256 \<Rightarrow> bytes \<Rightarrow> bytes option"
  key_id :: "bytes \<Rightarrow> bytes"
  vrf_verify :: "bytes \<Rightarrow> bytes \<Rightarrow> bytes \<Rightarrow> bytes option"
  script_for :: "address \<Rightarrow> bytes option"
  chain_hash :: "int \<Rightarrow> uint256 option"
  treasury_address :: address
  fIsVerifying :: bool

text \<open>\<^verbatim>\<open>Hash\<close> and \<^verbatim>\<open>CHashWriter::GetHash\<close> are double SHA-256; integers are written least significant byte first.\<close>

definition hash256 :: "opoi_env \<Rightarrow> bytes \<Rightarrow> uint256" where
  "hash256 e bs = sha256 e (sha256 e bs)"

definition WriteCompactSize :: "nat \<Rightarrow> bytes" where
  "WriteCompactSize n =
     (if n < 253 then le_bytes 1 n
      else if n \<le> 65535 then 253 # le_bytes 2 n
      else if n \<le> 4294967295 then 254 # le_bytes 4 n
      else 255 # le_bytes 8 n)"

definition ser_string :: "string \<Rightarrow> bytes" where
  "ser_string s = WriteCompactSize (length s) @ str_bytes s"

definition ser_u32 :: "u32 \<Rightarrow> bytes" where
  "ser_u32 w = le_bytes 4 (unat w)"

definition strMessageMagic :: string where
  "strMessageMagic = ''CS Coin Signed Message:'' @ [CHR 0x0A]"

definition dec_int :: "int \<Rightarrow> string" where
  "dec_int x = (if x < 0 then CHR ''-'' # dec_nat (nat (- x)) else dec_nat (nat x))"

definition dec_u32 :: "u32 \<Rightarrow> string" where
  "dec_u32 w = dec_nat (unat w)"

definition dec_u8 :: "u8 \<Rightarrow> string" where
  "dec_u8 w = dec_nat (unat w)"

definition GetOPoICanaryTestSuiteHash :: "opoi_env \<Rightarrow> uint256" where
  "GetOPoICanaryTestSuiteHash e = hash256 e (str_bytes ''OPoI-Canary-TestSuite-v1'')"

text \<open>The default-constructed transaction.\<close>

definition CTransaction_init :: CTransaction where
  "CTransaction_init =
     \<lparr>tx_hash = uint256_zero, nVersion = 1, nType = 0, vin = [], vout = [], vJoinSplit = [],
      csappDeploymentId = '''', csappOwner = '''', csappSpecJson = '''', csappIp = '''',
      csappLockedAmount = 0, csappSig = [], opoiRequestId = '''', opoiRequester = '''',
      opoiMinerAddress = '''', opoiModel = '''', opoiPromptHash = uint256_zero,
      opoiResponseHash = uint256_zero, opoiCommitment = uint256_zero, opoiMaxTokens = 0,
      opoiTokenCount = 0, opoiTaskType = 0, opoiTaskClass = 0, opoiPayment = 0, opoiFeePerToken = 0,
      opoiSigTime = 0, opoiSig = [], opoiVrfProof = [], opoiCollateralIn = COutPoint_null,
      opoiChallengePhase = 0, opoiCommitHash = [], opoiProofData = [], opoiChallengeNonce = [],
      opoiChallengerCollateralIn = COutPoint_null, opoiResponsePhase = 0,
      opoiResponseCommitHash = [], opoiResponseNonce = [], opoiVrfOutput = [], opoiModelId = '''', opoiTier = 0,
      opoiPomRoot = uint256_zero, opoiHostedExpertIds = [], opoiEndpoint = '''',
      opoiPromptTokenCount = 0, opoiIsCanary = 0, opoiTestSuite = uint256_zero,
      opoiAuditorAddress = '''', opoiAuditorVerifyResult = 0,
      opoiAuditorCollateralIn = COutPoint_null, opoiModelArchType = 0, opoiModelTotalParams = 0,
      opoiModelActiveParamsPerToken = 0, opoiModelNumLayers = 0, opoiModelNumDenseShards = 0,
      opoiModelNumExperts = 0, opoiModelTopKExperts = 0, opoiModelExpertPomRoots = [],
      opoiModelMinRewardPerToken = 0, opoiModelTotalSizeBytes = 0, opoiModelVoteApprove = 0,
      opoiShardIndex = 0\<rparr>"

end
