(* ===== verification/Opoi_Shard.thy ===== *)
theory Opoi_Shard
  imports Opoi_Types
begin

text \<open>
  The Model Execution Graph of a manifest (\<^verbatim>\<open>opoi/opoi_shard.h\<close>): the split of the layers
  into pipeline stages, the graph of dense and expert shards, the bounds checks on shard
  indices, the topology commitment and the hash-based choice of experts.

  The lemmas show that the split is an exact partition of the layers into contiguous
  stages whose sizes differ by at most one and that no 32-bit operation of the loop wraps;
  that the graph has the documented number of nodes, numbered by position; and that every
  expert node of a registrable manifest passes the code's defensive bounds check.
\<close>

record ShardDescriptor =
  sd_shardIndex :: u32
  sd_shardType :: u8
  sd_layerStart :: u32
  sd_layerEnd :: u32
  sd_expertId :: u32

definition OPOI_SHARD_DENSE :: u8 where "OPOI_SHARD_DENSE = 0"
definition OPOI_SHARD_EXPERT :: u8 where "OPOI_SHARD_EXPERT = 1"

section \<open>Splitting the layers\<close>

text \<open>The loop body runs for \<^verbatim>\<open>i = 0 .. numShards - 1\<close>; the first argument counts the runs left.\<close>

fun split_loop :: "nat \<Rightarrow> u32 \<Rightarrow> u32 \<Rightarrow> u32 \<Rightarrow> u32 \<Rightarrow> (u32 \<times> u32) list" where
  "split_loop 0 i cursor base remainder = []"
| "split_loop (Suc k) i cursor base remainder =
     (let size = base + (if i < remainder then 1 else 0)
      in (cursor, cursor + size) # split_loop k (i + 1) (cursor + size) base remainder)"

definition SplitLayerRanges :: "u32 \<Rightarrow> u32 \<Rightarrow> (u32 \<times> u32) list" where
  "SplitLayerRanges numLayers numShards =
     (if numShards = 0 then []
      else split_loop (unat numShards) 0 0 (numLayers div numShards) (numLayers mod numShards))"

text \<open>Where stage \<open>i\<close> starts, as an unbounded number: \<open>i\<close> full stages and the remainders given out so far.\<close>

definition stage_start :: "u32 \<Rightarrow> u32 \<Rightarrow> nat \<Rightarrow> nat" where
  "stage_start numLayers numShards i =
     i * (unat numLayers div unat numShards) + min i (unat numLayers mod unat numShards)"

lemma stage_start_0 [simp]: "stage_start l s 0 = 0"
  by (simp add: stage_start_def)

lemma stage_start_Suc:
  "stage_start l s (Suc i) =
     stage_start l s i + unat l div unat s + (if i < unat l mod unat s then 1 else 0)"
  by (simp add: stage_start_def)

lemma stage_start_end: "0 < unat s \<Longrightarrow> stage_start l s (unat s) = unat l"
  using mod_less_divisor [of "unat s" "unat l"]
  by (simp add: stage_start_def min_absorb2 less_imp_le)

lemma stage_start_mono: "i \<le> j \<Longrightarrow> stage_start l s i \<le> stage_start l s j"
  by (rule lift_Suc_mono_le [of "stage_start l s"]) (simp_all add: stage_start_Suc)

lemma unat_u32: "unat (w :: u32) < 2 ^ 32"
proof -
  have "unat w < 2 ^ LENGTH(32)" by (rule unsigned_less)
  then show ?thesis by simp
qed

lemma split_loop_eq:
  assumes "j + k = unat s" "0 < unat s"
  shows "split_loop k (word_of_nat j) (word_of_nat (stage_start l s j)) (l div s) (l mod s) =
    map (\<lambda>i. (word_of_nat (stage_start l s i), word_of_nat (stage_start l s (Suc i)))) [j ..< unat s]"
  using assms
proof (induction k arbitrary: j)
  case (Suc k)
  then have j: "j < unat s" by simp
  then have "unat (word_of_nat j :: u32) = j"
    using unat_u32 [of s] by (simp add: unat_of_nat)
  then have less: "(word_of_nat j < l mod s) = (j < unat l mod unat s)"
    by (simp add: word_less_nat_alt unat_mod)
  have step: "word_of_nat (stage_start l s j) + (l div s + (if word_of_nat j < l mod s then 1 else 0)) =
      word_of_nat (stage_start l s (Suc j))"
    unfolding less by (simp add: stage_start_Suc word_arith_nat_div)
  have "split_loop (Suc k) (word_of_nat j) (word_of_nat (stage_start l s j)) (l div s) (l mod s) =
      (word_of_nat (stage_start l s j), word_of_nat (stage_start l s (Suc j))) #
      split_loop k (word_of_nat (Suc j)) (word_of_nat (stage_start l s (Suc j))) (l div s) (l mod s)"
    unfolding split_loop.simps Let_def step by (simp add: add.commute)
  also have "\<dots> = (word_of_nat (stage_start l s j), word_of_nat (stage_start l s (Suc j))) #
      map (\<lambda>i. (word_of_nat (stage_start l s i), word_of_nat (stage_start l s (Suc i)))) [Suc j ..< unat s]"
    using Suc.IH [of "Suc j"] Suc.prems by simp
  also have "\<dots> = map (\<lambda>i. (word_of_nat (stage_start l s i), word_of_nat (stage_start l s (Suc i)))) [j ..< unat s]"
    using j by (simp add: upt_conv_Cons)
  finally show ?case .
qed simp

lemma SplitLayerRanges_eq:
  "SplitLayerRanges l s =
     map (\<lambda>i. (word_of_nat (stage_start l s i), word_of_nat (stage_start l s (Suc i)))) [0 ..< unat s]"
proof (cases "s = 0")
  case False
  then have "0 < unat s" by (simp add: unat_gt_0)
  with False split_loop_eq [of 0 "unat s" s l] show ?thesis
    by (simp add: SplitLayerRanges_def)
qed (simp add: SplitLayerRanges_def)

lemma length_SplitLayerRanges [simp]: "length (SplitLayerRanges l s) = unat s"
  by (simp add: SplitLayerRanges_eq)

lemma stage_start_le: "0 < unat s \<Longrightarrow> i \<le> unat s \<Longrightarrow> stage_start l s i \<le> unat l"
  using stage_start_mono [of i "unat s" l s] stage_start_end [of s l] by simp

lemma unat_stage_start:
  "0 < unat s \<Longrightarrow> i \<le> unat s \<Longrightarrow> unat (word_of_nat (stage_start l s i) :: u32) = stage_start l s i"
  using stage_start_le [of s i l] unat_u32 [of l] by (simp add: unat_of_nat)

lemma SplitLayerRanges_nth:
  assumes "i < unat s"
  shows "unat (fst (SplitLayerRanges l s ! i)) = stage_start l s i"
    and "unat (snd (SplitLayerRanges l s ! i)) = stage_start l s (Suc i)"
  using assms unat_stage_start [of s i l] unat_stage_start [of s "Suc i" l]
  by (simp_all add: SplitLayerRanges_eq)

lemma stage_nonempty: "0 < unat s \<Longrightarrow> unat s \<le> unat l \<Longrightarrow> stage_start l s i < stage_start l s (Suc i)"
proof -
  assume "0 < unat s" "unat s \<le> unat l"
  then have "0 < unat l div unat s" by (simp add: div_greater_zero_iff)
  then show ?thesis by (simp add: stage_start_Suc)
qed

section \<open>The graph\<close>

text \<open>
  The code numbers the nodes in the order in which it appends them; a node is its kind, its
  layer range and its expert.
\<close>

definition number_nodes :: "(u8 \<times> (u32 \<times> u32) \<times> u32) list \<Rightarrow> ShardDescriptor list" where
  "number_nodes ns =
     map (\<lambda>(i, t, (a, b), x).
            \<lparr>sd_shardIndex = word_of_nat i, sd_shardType = t, sd_layerStart = a,
             sd_layerEnd = b, sd_expertId = x\<rparr>)
         (enumerate 0 ns)"

definition BuildModelExecutionGraph :: "ModelManifest \<Rightarrow> bool \<Rightarrow> ShardDescriptor list" where
  "BuildModelExecutionGraph m collapseToTitanSingleNode =
     (if mm_numLayers m = 0 then []
      else if collapseToTitanSingleNode then
        number_nodes [(OPOI_SHARD_DENSE, (0, mm_numLayers m), 0)]
      else if IsMoE m then
        let denseShards = (if 0 < mm_numDenseShards m then mm_numDenseShards m else 1);
            ranges = SplitLayerRanges (mm_numLayers m) denseShards
        in number_nodes
             (map (\<lambda>r. (OPOI_SHARD_DENSE, r, 0)) ranges @
              concat (map (\<lambda>r. map (\<lambda>x. (OPOI_SHARD_EXPERT, r, word_of_nat x))
                                   [0 ..< unat (mm_numExperts m)]) ranges))
      else if mm_numDenseShards m = 0 then []
      else number_nodes
             (map (\<lambda>r. (OPOI_SHARD_DENSE, r, 0))
                  (SplitLayerRanges (mm_numLayers m) (mm_numDenseShards m))))"

definition IsExpertShardWithinManifestBounds :: "ShardDescriptor \<Rightarrow> ModelManifest \<Rightarrow> bool" where
  "IsExpertShardWithinManifestBounds d m =
     (if mm_numExperts m \<le> sd_expertId d then False
      else if mm_numLayers m < sd_layerEnd d then False
      else if sd_layerEnd d \<le> sd_layerStart d then False
      else True)"

definition IsAuditorVerificationShardIndexValid :: "u32 \<Rightarrow> ModelManifest \<Rightarrow> bool \<Rightarrow> bool" where
  "IsAuditorVerificationShardIndexValid shardIndex m collapse \<longleftrightarrow>
     unat shardIndex < length (BuildModelExecutionGraph m collapse)"

definition ComputeShardTopologyHash :: "opoi_env \<Rightarrow> ModelManifest \<Rightarrow> uint256" where
  "ComputeShardTopologyHash e m =
     hash256 e (mm_archType m # ser_u32 (mm_numLayers m) @ ser_u32 (mm_numDenseShards m)
                @ ser_u32 (mm_numExperts m) @ ser_u32 (mm_topKExperts m))"

lemma length_number_nodes [simp]: "length (number_nodes ns) = length ns"
  by (simp add: number_nodes_def)

lemma number_nodes_nth:
  "j < length ns \<Longrightarrow> number_nodes ns ! j =
     \<lparr>sd_shardIndex = word_of_nat j, sd_shardType = fst (ns ! j), sd_layerStart = fst (fst (snd (ns ! j))),
      sd_layerEnd = snd (fst (snd (ns ! j))), sd_expertId = snd (snd (ns ! j))\<rparr>"
  by (simp add: number_nodes_def nth_enumerate_eq case_prod_beta)

lemma set_number_nodes:
  "d \<in> set (number_nodes ns) \<Longrightarrow>
     \<exists>n\<in>set ns. sd_shardType d = fst n \<and> sd_layerStart d = fst (fst (snd n)) \<and>
       sd_layerEnd d = snd (fst (snd n)) \<and> sd_expertId d = snd (snd n)"
proof -
  assume "d \<in> set (number_nodes ns)"
  then obtain j where "j < length ns" "d = number_nodes ns ! j"
    by (metis in_set_conv_nth length_number_nodes)
  then show ?thesis by (intro bexI [of _ "ns ! j"]) (simp_all add: number_nodes_nth)
qed

text \<open>Positions and numbers agree: this is what lets the callers index the graph by shard index.\<close>

lemma meg_index:
  assumes "j < length (BuildModelExecutionGraph m c)"
  shows "sd_shardIndex (BuildModelExecutionGraph m c ! j) = word_of_nat j"
  using assms by (auto simp: BuildModelExecutionGraph_def Let_def number_nodes_nth split: if_splits)

lemma meg_length:
  "length (BuildModelExecutionGraph m c) =
     (if mm_numLayers m = 0 then 0
      else if c then 1
      else if IsMoE m then
        (let ds = max 1 (unat (mm_numDenseShards m)) in ds + ds * unat (mm_numExperts m))
      else unat (mm_numDenseShards m))"
proof -
  have ds: "unat (if 0 < w then w else 1) = max 1 (unat w)" for w :: u32
    by (auto simp: word_less_nat_alt)
  have "sum_list (map (\<lambda>r. unat (mm_numExperts m)) rs) = length rs * unat (mm_numExperts m)"
    for rs :: "(u32 \<times> u32) list" by (induction rs) simp_all
  then show ?thesis
    by (simp add: BuildModelExecutionGraph_def Let_def length_concat comp_def ds)
qed

lemma SplitLayerRanges_bounds:
  assumes "r \<in> set (SplitLayerRanges l s)" "unat s \<le> unat l"
  shows "fst r < snd r \<and> snd r \<le> l"
proof -
  from assms(1) obtain i where i: "i < unat s" "r = SplitLayerRanges l s ! i"
    by (metis in_set_conv_nth length_SplitLayerRanges)
  then have s: "0 < unat s" by simp
  show ?thesis
    using SplitLayerRanges_nth [OF i(1), of l] stage_nonempty [OF s assms(2), of i]
      stage_start_le [OF s, of "Suc i" l] i
    by (simp add: word_less_nat_alt word_le_nat_alt)
qed

lemma meg_expert_node:
  assumes "d \<in> set (BuildModelExecutionGraph m False)" "sd_shardType d = OPOI_SHARD_EXPERT"
  obtains r x where "r \<in> set (SplitLayerRanges (mm_numLayers m)
        (if 0 < mm_numDenseShards m then mm_numDenseShards m else 1))"
    "x < unat (mm_numExperts m)" "sd_layerStart d = fst r" "sd_layerEnd d = snd r"
    "sd_expertId d = word_of_nat x" "mm_numLayers m \<noteq> 0" "IsMoE m"
proof -
  have ne: "OPOI_SHARD_EXPERT \<noteq> OPOI_SHARD_DENSE"
    by (simp add: OPOI_SHARD_DENSE_def OPOI_SHARD_EXPERT_def)
  have moe: "mm_numLayers m \<noteq> 0" "IsMoE m"
    using assms ne by (auto simp: BuildModelExecutionGraph_def split: if_splits
        dest!: set_number_nodes)
  let ?rs = "SplitLayerRanges (mm_numLayers m) (if 0 < mm_numDenseShards m then mm_numDenseShards m else 1)"
  let ?ns = "map (\<lambda>r. (OPOI_SHARD_DENSE, r, 0)) ?rs @
     concat (map (\<lambda>r. map (\<lambda>x. (OPOI_SHARD_EXPERT, r, word_of_nat x)) [0 ..< unat (mm_numExperts m)]) ?rs)"
  from assms(1) moe have "d \<in> set (number_nodes ?ns)"
    by (simp add: BuildModelExecutionGraph_def Let_def)
  from set_number_nodes [OF this] obtain n where n: "n \<in> set ?ns" "sd_shardType d = fst n"
    "sd_layerStart d = fst (fst (snd n))" "sd_layerEnd d = snd (fst (snd n))" "sd_expertId d = snd (snd n)"
    by blast
  with assms(2) ne obtain r x where "r \<in> set ?rs" "x < unat (mm_numExperts m)"
    "n = (OPOI_SHARD_EXPERT, r, word_of_nat x)" by auto
  with n moe that show thesis by simp
qed

section \<open>Choosing experts by hash\<close>

definition expert_digest :: "opoi_env \<Rightarrow> string \<Rightarrow> uint256 \<Rightarrow> nat \<Rightarrow> bytes" where
  "expert_digest e requestId promptHash i =
     sha256 e (str_bytes requestId @ promptHash @ str_bytes (''EXPERT'' @ dec_nat i))"

definition SelectTopKExperts :: "opoi_env \<Rightarrow> string \<Rightarrow> uint256 \<Rightarrow> u32 \<Rightarrow> u32 \<Rightarrow> u32 list" where
  "SelectTopKExperts e requestId promptHash numExperts topK =
     (let scored = map (\<lambda>i. (expert_digest e requestId promptHash i, word_of_nat i)) [0 ..< unat numExperts];
          sorted_scored = sort_key fst scored
      in map snd (take (unat (min topK numExperts)) sorted_scored))"

section \<open>Properties\<close>

text \<open>
  C9. The split is an exact partition: \<open>numShards\<close> stages, the first starts at layer 0,
  each stage starts where the previous one ends, the last ends at \<open>numLayers\<close>, no stage
  runs backwards (the 32-bit cursor never wraps), and the stage sizes are the quotient or
  the quotient plus one.
\<close>

theorem SplitLayerRanges_partition:
  assumes "0 < numShards"
  shows "length (SplitLayerRanges numLayers numShards) = unat numShards \<and>
    fst (SplitLayerRanges numLayers numShards ! 0) = 0 \<and>
    snd (SplitLayerRanges numLayers numShards ! (unat numShards - 1)) = numLayers \<and>
    (\<forall>i. Suc i < unat numShards \<longrightarrow>
      fst (SplitLayerRanges numLayers numShards ! Suc i) = snd (SplitLayerRanges numLayers numShards ! i)) \<and>
    (\<forall>i < unat numShards.
      unat (snd (SplitLayerRanges numLayers numShards ! i)) =
        unat (fst (SplitLayerRanges numLayers numShards ! i)) + unat numLayers div unat numShards
        + (if i < unat numLayers mod unat numShards then 1 else 0))"
proof -
  from assms have s: "0 < unat numShards" by (simp add: word_less_nat_alt)
  have "snd (SplitLayerRanges numLayers numShards ! (unat numShards - 1)) =
      word_of_nat (stage_start numLayers numShards (Suc (unat numShards - 1)))"
    using s by (simp add: SplitLayerRanges_eq)
  then have "snd (SplitLayerRanges numLayers numShards ! (unat numShards - 1)) = numLayers"
    using s by (simp add: stage_start_end)
  with s show ?thesis
    by (simp add: SplitLayerRanges_nth stage_start_Suc) (simp add: SplitLayerRanges_eq)
qed

theorem SplitLayerRanges_partition_witness:
  "SplitLayerRanges 10 3 = [(0, 4), (4, 7), (7, 10)] \<and>
   length (SplitLayerRanges 10 3) = unat (3 :: u32) \<and>
   snd (SplitLayerRanges 10 3 ! (unat (3 :: u32) - 1)) = 10"
proof -
  have "SplitLayerRanges 10 3 = [(0, 4), (4, 7), (7, 10)]" "(0 :: u32) < 3" by code_simp+
  with SplitLayerRanges_partition [of 3 10] show ?thesis by simp
qed

text \<open>
  Every expert node of the graph of a manifest that \<^verbatim>\<open>MODEL_REGISTER\<close> accepts (at least
  one stage, not more stages than layers) satisfies the defensive bounds check
  \<^verbatim>\<open>IsExpertShardWithinManifestBounds\<close>: that rejection is unreachable.
\<close>

theorem expert_nodes_within_bounds:
  assumes "0 < mm_numDenseShards m" "mm_numDenseShards m \<le> mm_numLayers m"
    and "d \<in> set (BuildModelExecutionGraph m collapse)" "sd_shardType d = OPOI_SHARD_EXPERT"
  shows "IsExpertShardWithinManifestBounds d m"
proof (cases collapse)
  case True
  with assms(3,4) show ?thesis
    by (auto simp: BuildModelExecutionGraph_def OPOI_SHARD_DENSE_def OPOI_SHARD_EXPERT_def
        split: if_splits dest!: set_number_nodes)
next
  case False
  with assms(3,4) obtain r x where r: "r \<in> set (SplitLayerRanges (mm_numLayers m) (mm_numDenseShards m))"
    and x: "x < unat (mm_numExperts m)" "sd_expertId d = word_of_nat x"
    and d: "sd_layerStart d = fst r" "sd_layerEnd d = snd r"
    using meg_expert_node [of d m thesis] assms(1) by simp
  have "sd_expertId d < mm_numExperts m"
    using x unat_u32 [of "mm_numExperts m"] by (simp add: word_less_nat_alt unat_of_nat)
  with SplitLayerRanges_bounds [OF r] assms(2) d show ?thesis
    by (auto simp: IsExpertShardWithinManifestBounds_def word_le_nat_alt word_less_nat_alt)
qed

definition sample_moe :: ModelManifest where
  "sample_moe = \<lparr>mm_modelId = ''m'', mm_archType = OPOI_ARCH_MOE, mm_totalParams = 0,
     mm_activeParamsPerToken = 0, mm_numLayers = 5, mm_numDenseShards = 2, mm_numExperts = 2,
     mm_topKExperts = 1, mm_backbonePomRoot = [1], mm_expertPomRoots = [[1], [2]],
     mm_minRewardPerToken = 0, mm_totalSizeBytes = 0, mm_proposer = ''p'', mm_proposedHeight = 1,
     mm_voteWindowEndHeight = 2, mm_activationHeight = 3, mm_txHash = [7], mm_status = MS_ACTIVE,
     mm_shardTopologyHash = []\<rparr>"

theorem expert_nodes_within_bounds_witness:
  "IsExpertShardWithinManifestBounds
     \<lparr>sd_shardIndex = 5, sd_shardType = 1, sd_layerStart = 3, sd_layerEnd = 5, sd_expertId = 1\<rparr> sample_moe"
proof -
  have "0 < mm_numDenseShards sample_moe" "mm_numDenseShards sample_moe \<le> mm_numLayers sample_moe"
    by code_simp+
  moreover have "List.member (BuildModelExecutionGraph sample_moe False)
      \<lparr>sd_shardIndex = 5, sd_shardType = 1, sd_layerStart = 3, sd_layerEnd = 5, sd_expertId = 1\<rparr>"
    by code_simp
  ultimately show ?thesis
    using expert_nodes_within_bounds [of sample_moe] by (simp add: OPOI_SHARD_EXPERT_def)
qed

text \<open>
  Shard indices are positions: node \<open>j\<close> of a graph carries shard index \<open>j\<close>, so that as
  long as the graph has at most $2^{32}$ nodes the payment loop's search by \<^verbatim>\<open>d.shardIndex\<close>
  and the validator's access \<^verbatim>\<open>meg[shardIndex]\<close> meet the same node, and only that one.
\<close>

theorem meg_shardIndex_unique:
  assumes "length (BuildModelExecutionGraph m c) \<le> 2 ^ 32"
    and "j < length (BuildModelExecutionGraph m c)"
  shows "sd_shardIndex (BuildModelExecutionGraph m c ! j) = shardIndex \<longleftrightarrow> j = unat shardIndex"
proof -
  have "unat (word_of_nat j :: u32) = j" using assms by (simp add: unat_of_nat)
  with meg_index [OF assms(2)] show ?thesis by (metis word_unat_eq_iff)
qed

theorem meg_shardIndex_unique_witness:
  "sd_shardIndex (BuildModelExecutionGraph sample_moe False ! 4) = 4"
proof -
  have "length (BuildModelExecutionGraph sample_moe False) = 6" by code_simp
  then show ?thesis using meg_shardIndex_unique [of sample_moe False 4 4] by simp
qed

text \<open>
  \<^verbatim>\<open>SelectTopKExperts\<close> returns \<open>min topK numExperts\<close> different experts, all in range,
  and no expert it leaves out has a smaller digest than one it returns.
\<close>

theorem SelectTopKExperts_correct:
  "length (SelectTopKExperts e requestId promptHash numExperts topK) = unat (min topK numExperts) \<and>
   distinct (SelectTopKExperts e requestId promptHash numExperts topK) \<and>
   set (SelectTopKExperts e requestId promptHash numExperts topK) \<subseteq> {x. x < numExperts} \<and>
   (\<forall>x y. x \<in> set (SelectTopKExperts e requestId promptHash numExperts topK) \<longrightarrow> y < numExperts \<longrightarrow>
      y \<notin> set (SelectTopKExperts e requestId promptHash numExperts topK) \<longrightarrow>
      expert_digest e requestId promptHash (unat x) \<le> expert_digest e requestId promptHash (unat y))"
proof -
  define dig where "dig = expert_digest e requestId promptHash"
  define scored where "scored = map (\<lambda>i. (dig i, word_of_nat i :: u32)) [0 ..< unat numExperts]"
  define n where "n = unat (min topK numExperts)"
  let ?s = "sort_key fst scored"
  have sel: "SelectTopKExperts e requestId promptHash numExperts topK = map snd (take n ?s)"
    by (simp add: SelectTopKExperts_def scored_def n_def dig_def)
  have len: "n \<le> length ?s" by (simp add: n_def min_def word_le_nat_alt scored_def)
  have wn: "unat (word_of_nat i :: u32) = i" if "i < unat numExperts" for i
    using that unat_u32 [of numExperts] by (simp add: unat_of_nat)
  have scored: "set scored = (\<lambda>x. (dig (unat x), x)) ` {x. x < numExperts}"
  proof (intro equalityI subsetI)
    fix p assume "p \<in> set scored"
    then show "p \<in> (\<lambda>x. (dig (unat x), x)) ` {x. x < numExperts}"
      by (auto simp: scored_def wn word_less_nat_alt image_iff)
  next
    fix p assume "p \<in> (\<lambda>x. (dig (unat x), x)) ` {x. x < numExperts}"
    then show "p \<in> set scored"
      by (auto simp: scored_def word_less_nat_alt image_iff intro!: bexI [of _ "unat x" for x])
  qed
  have "inj_on (word_of_nat :: nat \<Rightarrow> u32) {0 ..< unat numExperts}"
    by (rule inj_onI) (metis atLeastLessThan_iff wn)
  then have "distinct (map snd scored)" by (simp add: scored_def comp_def distinct_map)
  moreover have "mset (map snd ?s) = mset (map snd scored)" by (metis mset_map mset_sort)
  ultimately have "distinct (map snd ?s)" by (metis mset_eq_imp_distinct_iff)
  then have 2: "distinct (map snd (take n ?s))" by (metis distinct_take take_map)
  have 3: "set (map snd (take n ?s)) \<subseteq> {x. x < numExperts}"
    using set_take_subset [of n ?s] scored by auto
  have 4: "dig (unat x) \<le> dig (unat y)"
    if x: "x \<in> set (map snd (take n ?s))" and y: "y < numExperts" "y \<notin> set (map snd (take n ?s))" for x y
  proof -
    from y scored have "(dig (unat y), y) \<in> set ?s" by auto
    with y(2) have "(dig (unat y), y) \<in> set (drop n ?s)"
      by (metis Un_iff append_take_drop_id image_eqI list.set_map set_append snd_conv)
    moreover from x obtain p where p: "p \<in> set (take n ?s)" "snd p = x" by auto
    moreover from p scored have "fst p = dig (unat x)"
      using set_take_subset [of n ?s] by auto
    moreover have "sorted (map fst (take n ?s @ drop n ?s))" by simp
    then have "\<forall>a\<in>set (map fst (take n ?s)). \<forall>b\<in>set (map fst (drop n ?s)). a \<le> b"
      unfolding map_append sorted_append by blast
    ultimately show ?thesis by force
  qed
  from len have "length (map snd (take n ?s)) = n" by simp
  with 2 3 4 show ?thesis unfolding sel n_def dig_def by blast
qed

theorem SelectTopKExperts_correct_witness:
  "\<exists>e. SelectTopKExperts e ''r'' [0] 3 2 = [2, 1] \<and>
       expert_digest e ''r'' [0] 2 \<le> expert_digest e ''r'' [0] 0"
proof -
  define e :: opoi_env where "e = \<lparr>sha256 = (\<lambda>bs. [- last bs]), decode_keyid = (\<lambda>_. None),
    recover_compact = (\<lambda>_ _. None), key_id = (\<lambda>b. b), vrf_verify = (\<lambda>_ _ _. None),
    script_for = (\<lambda>_. None), chain_hash = (\<lambda>_. None), treasury_address = [], fIsVerifying = False\<rparr>"
  have "SelectTopKExperts e ''r'' [0] 3 2 = [2, 1]" "(0 :: u32) < 3" unfolding e_def by code_simp+
  moreover have "2 \<in> set (SelectTopKExperts e ''r'' [0] 3 2) \<longrightarrow> 0 < (3 :: u32) \<longrightarrow>
      0 \<notin> set (SelectTopKExperts e ''r'' [0] 3 2) \<longrightarrow>
      expert_digest e ''r'' [0] (unat (2 :: u32)) \<le> expert_digest e ''r'' [0] (unat (0 :: u32))"
    using SelectTopKExperts_correct [of e "''r''" "[0]" 3 2] by blast
  ultimately show ?thesis by auto
qed

end
