(* ===== verification/Opoi_Majority.thy ===== *)
theory Opoi_Majority
  imports Opoi_Types
begin

text \<open>
  The two vote counts of the subsystem, both pure functions of a list of records
  (\<^verbatim>\<open>opoi/opoi.h\<close>): \<^verbatim>\<open>ComputeShardMajority\<close> over the results submitted for a shard, keyed by
  output hash and token count, and \<^verbatim>\<open>ComputeAuditorMajority\<close> over the verdicts of the
  auditors. Each is shown equal to a specification that only counts: there is a result
  exactly when enough records are in and one value has strictly more than half of them;
  the result does not depend on the order in which the records arrived.
\<close>

section \<open>Counting\<close>

definition count_if :: "('a \<Rightarrow> bool) \<Rightarrow> 'a list \<Rightarrow> nat" where
  "count_if P xs = length (filter P xs)"

lemma count_if_simps [simp]:
  "count_if P [] = 0"
  "count_if P (x # xs) = (if P x then Suc (count_if P xs) else count_if P xs)"
  by (simp_all add: count_if_def)

lemma count_if_append [simp]: "count_if P (xs @ ys) = count_if P xs + count_if P ys"
  by (simp add: count_if_def)

lemma count_if_mset: "mset xs = mset ys \<Longrightarrow> count_if P xs = count_if P ys"
  unfolding count_if_def by (metis mset_filter size_mset)

lemma count_if_disjoint: "(\<And>x. \<not> (P x \<and> Q x)) \<Longrightarrow> count_if P xs + count_if Q xs \<le> length xs"
  by (induction xs) auto

lemma strict_majority_unique:
  "length xs < 2 * count_if (\<lambda>x. f x = a) xs \<Longrightarrow> length xs < 2 * count_if (\<lambda>x. f x = b) xs \<Longrightarrow> a = b"
  using count_if_disjoint [of "\<lambda>x. f x = a" "\<lambda>x. f x = b" xs] by (cases "a = b") auto

section \<open>Shard results\<close>

text \<open>The key a submission is counted under.\<close>

definition sub_key :: "ShardResultSubmission \<Rightarrow> uint256 \<times> u32" where
  "sub_key s = (sr_boundaryOutputHash s, sr_tokenCount s)"

definition shard_counts :: "ShardResultSubmission list \<Rightarrow> (uint256 \<times> u32, int) smap" where
  "shard_counts subs =
     foldl (\<lambda>m s. sm_put (sub_key s) ((case sm_find m (sub_key s) of None \<Rightarrow> 0 | Some n \<Rightarrow> n) + 1) m) [] subs"

fun best_step :: "(uint256 \<times> u32) \<times> int \<Rightarrow> (uint256 \<times> u32) \<times> int \<Rightarrow> (uint256 \<times> u32) \<times> int" where
  "best_step (best, bestCount) (k, n) = (if bestCount < n then (k, n) else (best, bestCount))"

definition best_count :: "(uint256 \<times> u32, int) smap \<Rightarrow> (uint256 \<times> u32) \<times> int" where
  "best_count m = foldl best_step ((uint256_zero, 0), 0) m"

text \<open>
  The out-parameters of the C++ function are the components of the result: majority hash,
  majority token count, agreeing and divergent miners. \<^verbatim>\<open>return false\<close> is \<open>None\<close>.
\<close>

definition ComputeShardMajority ::
  "ShardResultSubmission list \<Rightarrow> int \<Rightarrow> (uint256 \<times> u32 \<times> address list \<times> address list) option" where
  "ComputeShardMajority subs minSubmissions =
     (if int (length subs) < minSubmissions then None
      else
        let (best, bestCount) = best_count (shard_counts subs)
        in if bestCount * 2 \<le> int (length subs) then None
           else Some (fst best, snd best,
                      map sr_minerAddress (filter (\<lambda>s. sr_boundaryOutputHash s = fst best \<and> sr_tokenCount s = snd best) subs),
                      map sr_minerAddress (filter (\<lambda>s. \<not> (sr_boundaryOutputHash s = fst best \<and> sr_tokenCount s = snd best)) subs)))"

lemma shard_counts_find:
  "sm_find (shard_counts subs) k =
     (let n = count_if (\<lambda>s. sub_key s = k) subs in if n = 0 then None else Some (int n))"
  unfolding shard_counts_def
  by (induction subs rule: rev_induct) (auto simp: Let_def)

lemma shard_counts_ok: "sm_ok (shard_counts subs)"
  unfolding shard_counts_def by (induction subs rule: rev_induct) auto

lemma best_step_snd: "snd (best_step b kn) = max (snd b) (snd kn)"
  by (cases b; cases kn) auto

lemma best_fold_bound:
  "snd b \<le> snd (foldl best_step b m) \<and> (\<forall>kn\<in>set m. snd kn \<le> snd (foldl best_step b m))"
proof (induction m arbitrary: b)
  case (Cons kn m)
  from Cons.IH [of "best_step b kn"] best_step_snd [of b kn] show ?case by auto
qed simp

lemma best_fold_member: "foldl best_step b m = b \<or> foldl best_step b m \<in> set m"
proof (induction m arbitrary: b)
  case (Cons kn m)
  have "best_step b kn = b \<or> best_step b kn = kn" by (cases b; cases kn) auto
  with Cons.IH [of "best_step b kn"] show ?case by auto
qed simp

lemma best_count_max:
  assumes "(k, n) \<in> set m"
  shows "n \<le> snd (best_count m)"
  using best_fold_bound [of "((uint256_zero, 0), 0)" m] assms by (auto simp: best_count_def)

lemma best_count_member: "best_count m = ((uint256_zero, 0), 0) \<or> best_count m \<in> set m"
  using best_fold_member [of "((uint256_zero, 0), 0)" m] by (simp add: best_count_def)

lemma best_count_counts:
  assumes "best_count (shard_counts subs) = (k, n)" "0 < n"
  shows "n = int (count_if (\<lambda>s. sub_key s = k) subs)"
proof -
  from assms best_count_member [of "shard_counts subs"] have "(k, n) \<in> set (shard_counts subs)" by auto
  then have "sm_find (shard_counts subs) k = Some n"
    using sm.keys_distinct [OF shard_counts_ok] by simp
  then show ?thesis by (simp add: shard_counts_find Let_def split: if_splits)
qed

lemma best_count_ge: "int (count_if (\<lambda>s. sub_key s = k) subs) \<le> snd (best_count (shard_counts subs))"
proof (cases "count_if (\<lambda>s. sub_key s = k) subs = 0")
  case True
  have "0 \<le> snd (best_count (shard_counts subs))"
    using best_fold_bound [of "((uint256_zero, 0), 0)" "shard_counts subs"] by (simp add: best_count_def)
  with True show ?thesis by simp
next
  case False
  then have "sm_find (shard_counts subs) k = Some (int (count_if (\<lambda>s. sub_key s = k) subs))"
    by (simp add: shard_counts_find Let_def)
  then have "(k, int (count_if (\<lambda>s. sub_key s = k) subs)) \<in> set (shard_counts subs)"
    by (rule map_of_SomeD)
  then show ?thesis by (rule best_count_max)
qed

text \<open>The specification: a value held by strictly more than half of enough submissions.\<close>

definition shard_majority :: "ShardResultSubmission list \<Rightarrow> int \<Rightarrow> uint256 \<Rightarrow> u32 \<Rightarrow> bool" where
  "shard_majority subs minSubmissions h t \<longleftrightarrow>
     minSubmissions \<le> int (length subs) \<and> length subs < 2 * count_if (\<lambda>s. sub_key s = (h, t)) subs"

lemma shard_majority_unique:
  "shard_majority subs m h t \<Longrightarrow> shard_majority subs m' h' t' \<Longrightarrow> h = h' \<and> t = t'"
  unfolding shard_majority_def using strict_majority_unique [of subs sub_key "(h, t)" "(h', t')"] by simp

lemma ComputeShardMajority_Some:
  "ComputeShardMajority subs m = Some (h, t, agreeing, divergent) \<longleftrightarrow>
     shard_majority subs m h t \<and>
     agreeing = map sr_minerAddress (filter (\<lambda>s. sub_key s = (h, t)) subs) \<and>
     divergent = map sr_minerAddress (filter (\<lambda>s. sub_key s \<noteq> (h, t)) subs)"
proof -
  obtain k n where kn: "best_count (shard_counts subs) = (k, n)" by (cases "best_count (shard_counts subs)")
  have maj: "shard_majority subs m h t \<longleftrightarrow> m \<le> int (length subs) \<and> int (length subs) < n * 2 \<and> k = (h, t)" for h t
  proof
    assume L: "shard_majority subs m h t"
    then have c: "length subs < 2 * count_if (\<lambda>s. sub_key s = (h, t)) subs" "m \<le> int (length subs)"
      by (simp_all add: shard_majority_def)
    from best_count_ge [of "(h, t)" subs] kn
    have "int (count_if (\<lambda>s. sub_key s = (h, t)) subs) \<le> n" by simp
    with c have n: "int (length subs) < n * 2" by linarith
    then have "n = int (count_if (\<lambda>s. sub_key s = k) subs)"
      using best_count_counts [OF kn] by linarith
    with n have "length subs < 2 * count_if (\<lambda>s. sub_key s = k) subs" by linarith
    with c n show "m \<le> int (length subs) \<and> int (length subs) < n * 2 \<and> k = (h, t)"
      using strict_majority_unique [of subs sub_key k "(h, t)"] by simp
  next
    assume R: "m \<le> int (length subs) \<and> int (length subs) < n * 2 \<and> k = (h, t)"
    then have "n = int (count_if (\<lambda>s. sub_key s = k) subs)"
      using best_count_counts [OF kn] by linarith
    with R have "length subs < 2 * count_if (\<lambda>s. sub_key s = (h, t)) subs" by auto
    with R show "shard_majority subs m h t" by (simp add: shard_majority_def)
  qed
  show ?thesis
    unfolding ComputeShardMajority_def maj kn
    by (auto simp: sub_key_def Let_def not_le)
qed

lemma ComputeShardMajority_None:
  "ComputeShardMajority subs m = None \<longleftrightarrow> (\<forall>h t. \<not> shard_majority subs m h t)"
  by (metis ComputeShardMajority_Some not_None_eq prod_cases4)

section \<open>Auditor verdicts\<close>

text \<open>The loop counts the three known verdicts; \<^verbatim>\<open>-1\<close> means no quorum or a tie.\<close>

definition ComputeAuditorMajority :: "AuditorVerification list \<Rightarrow> int \<Rightarrow> int" where
  "ComputeAuditorMajority verifs minVerifiers =
     (let (revealed, pass, fail, timeout) =
        foldl (\<lambda>(revealed, pass, fail, timeout) fv.
                 if av_result fv = AUDITOR_VERIFY_PASS then (revealed + 1, pass + 1, fail, timeout)
                 else if av_result fv = AUDITOR_VERIFY_FAIL then (revealed + 1, pass, fail + 1, timeout)
                 else if av_result fv = AUDITOR_VERIFY_TIMEOUT then (revealed + 1, pass, fail, timeout + 1)
                 else (revealed, pass, fail, timeout))
              (0, 0, 0, 0) verifs
      in if revealed < minVerifiers then -1
         else if cdiv revealed 2 < pass then uint AUDITOR_VERIFY_PASS
         else if cdiv revealed 2 < fail then uint AUDITOR_VERIFY_FAIL
         else if cdiv revealed 2 < timeout then uint AUDITOR_VERIFY_TIMEOUT
         else -1)"

definition revealed_votes :: "AuditorVerification list \<Rightarrow> AuditorVerification list" where
  "revealed_votes vs =
     filter (\<lambda>v. av_result v \<in> {AUDITOR_VERIFY_PASS, AUDITOR_VERIFY_FAIL, AUDITOR_VERIFY_TIMEOUT}) vs"

definition votes_for :: "u8 \<Rightarrow> AuditorVerification list \<Rightarrow> nat" where
  "votes_for r vs = count_if (\<lambda>v. av_result v = r) vs"

lemma auditor_fold:
  "foldl (\<lambda>(revealed, pass, fail, timeout) fv.
       if av_result fv = AUDITOR_VERIFY_PASS then (revealed + 1, pass + 1, fail, timeout)
       else if av_result fv = AUDITOR_VERIFY_FAIL then (revealed + 1, pass, fail + 1, timeout)
       else if av_result fv = AUDITOR_VERIFY_TIMEOUT then (revealed + 1, pass, fail, timeout + 1)
       else (revealed, pass, fail, timeout)) (0, 0, 0, 0) vs =
     (int (length (revealed_votes vs)), int (votes_for AUDITOR_VERIFY_PASS vs),
      int (votes_for AUDITOR_VERIFY_FAIL vs), int (votes_for AUDITOR_VERIFY_TIMEOUT vs))"
  by (induction vs rule: rev_induct)
    (auto simp: revealed_votes_def votes_for_def verdicts)

lemma revealed_votes_sum:
  "length (revealed_votes vs) =
     votes_for AUDITOR_VERIFY_PASS vs + votes_for AUDITOR_VERIFY_FAIL vs + votes_for AUDITOR_VERIFY_TIMEOUT vs"
  by (induction vs) (auto simp: revealed_votes_def votes_for_def verdicts)

lemma half_less: "cdiv (int n) 2 < int c \<longleftrightarrow> n < 2 * c"
  by (simp add: cdiv_nonneg) linarith

lemma ComputeAuditorMajority_eq:
  "ComputeAuditorMajority vs m =
     (let n = length (revealed_votes vs)
      in if int n < m then -1
         else if n < 2 * votes_for AUDITOR_VERIFY_PASS vs then 0
         else if n < 2 * votes_for AUDITOR_VERIFY_FAIL vs then 1
         else if n < 2 * votes_for AUDITOR_VERIFY_TIMEOUT vs then 2
         else -1)"
  unfolding ComputeAuditorMajority_def auditor_fold prod.case Let_def half_less
  by (simp add: verdicts)

text \<open>The specification: the verdict of strictly more than half of enough counted votes.\<close>

definition auditor_majority :: "AuditorVerification list \<Rightarrow> int \<Rightarrow> u8 \<Rightarrow> bool" where
  "auditor_majority vs minVerifiers r \<longleftrightarrow>
     r \<in> {AUDITOR_VERIFY_PASS, AUDITOR_VERIFY_FAIL, AUDITOR_VERIFY_TIMEOUT} \<and>
     minVerifiers \<le> int (length (revealed_votes vs)) \<and>
     length (revealed_votes vs) < 2 * votes_for r vs"

lemma auditor_majority_unique:
  "auditor_majority vs m r \<Longrightarrow> auditor_majority vs m' r' \<Longrightarrow> r = r'"
  using revealed_votes_sum [of vs] by (auto simp: auditor_majority_def)

lemma ComputeAuditorMajority_iff:
  "ComputeAuditorMajority vs m = uint r \<longleftrightarrow> auditor_majority vs m r"
proof -
  have "-1 \<noteq> uint r"
  proof
    assume "-1 = uint r"
    moreover have "0 \<le> uint r" by simp
    ultimately show False by linarith
  qed
  moreover have "r = 0 \<longleftrightarrow> uint r = 0" "r = 1 \<longleftrightarrow> uint r = 1" "r = 2 \<longleftrightarrow> uint r = 2"
    by (simp_all add: word_uint_eq_iff)
  ultimately show ?thesis
    using revealed_votes_sum [of vs]
    by (auto simp: ComputeAuditorMajority_eq auditor_majority_def verdicts Let_def)
qed

lemma ComputeAuditorMajority_undecided:
  "ComputeAuditorMajority vs m < 0 \<longleftrightarrow> (\<forall>r. \<not> auditor_majority vs m r)"
  using revealed_votes_sum [of vs]
  by (auto simp: ComputeAuditorMajority_eq auditor_majority_def verdicts Let_def)

lemma ComputeAuditorMajority_range: "ComputeAuditorMajority vs m \<in> {-1, 0, 1, 2}"
  by (simp add: ComputeAuditorMajority_eq Let_def)

lemma ComputeAuditorMajority_cong:
  "map av_result vs = map av_result ws \<Longrightarrow> ComputeAuditorMajority vs m = ComputeAuditorMajority ws m"
proof -
  assume eq: "map av_result vs = map av_result ws"
  have "length (filter (\<lambda>v. P (av_result v)) vs) = length (filter (\<lambda>v. P (av_result v)) ws)" for P
    using arg_cong [OF eq, of "\<lambda>xs. length (filter P xs)"] by (simp add: filter_map comp_def)
  note len = this
  have "length (revealed_votes vs) = length (revealed_votes ws)"
    unfolding revealed_votes_def by (rule len)
  moreover have "votes_for r vs = votes_for r ws" for r
    unfolding votes_for_def count_if_def by (rule len)
  ultimately show ?thesis by (simp add: ComputeAuditorMajority_eq Let_def)
qed

section \<open>Properties\<close>

text \<open>
  C6. \<^verbatim>\<open>ComputeShardMajority\<close> meets its specification. It answers exactly when at least
  \<open>minSubmissions\<close> results are in and one pair (output hash, token count) was submitted by
  strictly more than half of the submitters; the pair is unique, and the agreeing and
  divergent lists split the submitters by whether they submitted that pair.
\<close>

theorem ComputeShardMajority_correct:
  "ComputeShardMajority subs minSubmissions = Some (h, t, agreeing, divergent) \<longleftrightarrow>
     shard_majority subs minSubmissions h t \<and>
     (\<forall>h' t'. shard_majority subs minSubmissions h' t' \<longrightarrow> h' = h \<and> t' = t) \<and>
     agreeing = map sr_minerAddress (filter (\<lambda>s. sub_key s = (h, t)) subs) \<and>
     divergent = map sr_minerAddress (filter (\<lambda>s. sub_key s \<noteq> (h, t)) subs)"
  using shard_majority_unique [of subs minSubmissions h t] ComputeShardMajority_Some by blast

definition sample_sub :: "address \<Rightarrow> u8 \<Rightarrow> u32 \<Rightarrow> ShardResultSubmission" where
  "sample_sub a h t = \<lparr>sr_minerAddress = a, sr_boundaryOutputHash = replicate 32 h,
     sr_routerLogitsHash = uint256_zero, sr_tokenCount = t, sr_blockHeight = 1, sr_txHash = []\<rparr>"

theorem ComputeShardMajority_correct_witness:
  "shard_majority [sample_sub ''a'' 1 7, sample_sub ''b'' 1 8, sample_sub ''c'' 1 7] 3 (replicate 32 1) 7 \<and>
   ComputeShardMajority [sample_sub ''a'' 1 7, sample_sub ''b'' 1 8, sample_sub ''c'' 1 7] 3 =
     Some (replicate 32 1, 7, [''a'', ''c''], [''b''])"
proof -
  have "ComputeShardMajority [sample_sub ''a'' 1 7, sample_sub ''b'' 1 8, sample_sub ''c'' 1 7] 3 =
      Some (replicate 32 1, 7, [''a'', ''c''], [''b''])" by code_simp
  with ComputeShardMajority_correct [of _ 3 "replicate 32 1" 7 "[''a'', ''c'']" "[''b'']"]
  show ?thesis by blast
qed

text \<open>
  The order in which results arrive does not matter: for two arrangements of the same
  submissions the majority decision is the same, and so are the agreeing miners as a set.
\<close>

theorem ComputeShardMajority_order_independent:
  assumes "mset subs = mset subs'"
  shows "map_option (\<lambda>(h, t, agreeing, divergent). (h, t, mset agreeing, mset divergent))
           (ComputeShardMajority subs minSubmissions) =
         map_option (\<lambda>(h, t, agreeing, divergent). (h, t, mset agreeing, mset divergent))
           (ComputeShardMajority subs' minSubmissions)"
proof -
  from assms have maj: "shard_majority subs minSubmissions h t = shard_majority subs' minSubmissions h t" for h t
    by (simp add: shard_majority_def count_if_mset [OF assms] mset_eq_length [OF assms])
  have addr: "mset (map sr_minerAddress (filter P subs)) = mset (map sr_minerAddress (filter P subs'))" for P
    using assms by (metis mset_filter mset_map)
  show ?thesis
  proof (cases "ComputeShardMajority subs minSubmissions")
    case None
    with maj have "ComputeShardMajority subs' minSubmissions = None"
      by (simp add: ComputeShardMajority_None)
    with None show ?thesis by simp
  next
    case (Some r)
    obtain h t a d where r: "r = (h, t, a, d)" by (cases r)
    with Some maj have "ComputeShardMajority subs' minSubmissions =
        Some (h, t, map sr_minerAddress (filter (\<lambda>s. sub_key s = (h, t)) subs'),
                    map sr_minerAddress (filter (\<lambda>s. sub_key s \<noteq> (h, t)) subs'))"
      by (simp add: ComputeShardMajority_Some)
    moreover from Some r have "a = map sr_minerAddress (filter (\<lambda>s. sub_key s = (h, t)) subs)"
      "d = map sr_minerAddress (filter (\<lambda>s. sub_key s \<noteq> (h, t)) subs)"
      by (simp_all add: ComputeShardMajority_Some)
    ultimately show ?thesis using Some r addr by simp
  qed
qed

theorem ComputeShardMajority_order_independent_witness:
  "map_option (\<lambda>(h, t, agreeing, divergent). (h, t, mset agreeing, mset divergent))
     (ComputeShardMajority [sample_sub ''a'' 1 7, sample_sub ''b'' 2 7, sample_sub ''c'' 1 7] 2) =
   map_option (\<lambda>(h, t, agreeing, divergent). (h, t, mset agreeing, mset divergent))
     (ComputeShardMajority [sample_sub ''b'' 2 7, sample_sub ''c'' 1 7, sample_sub ''a'' 1 7] 2)"
  by (rule ComputeShardMajority_order_independent) (simp add: add_mset_commute)

text \<open>
  C5. \<^verbatim>\<open>ComputeAuditorMajority\<close> meets its specification: it returns the verdict that strictly
  more than half of the counted votes share, once \<open>minVerifiers\<close> votes with a known verdict
  are in, and a negative number exactly when no verdict has such a majority; the majority
  verdict is unique.
\<close>

theorem ComputeAuditorMajority_correct:
  "(ComputeAuditorMajority vs minVerifiers = uint r \<longleftrightarrow> auditor_majority vs minVerifiers r) \<and>
   (ComputeAuditorMajority vs minVerifiers < 0 \<longleftrightarrow> (\<nexists>r'. auditor_majority vs minVerifiers r')) \<and>
   (auditor_majority vs minVerifiers r \<and> auditor_majority vs minVerifiers r' \<longrightarrow> r = r')"
  using ComputeAuditorMajority_iff ComputeAuditorMajority_undecided auditor_majority_unique by blast

definition sample_vote :: "address \<Rightarrow> u8 \<Rightarrow> AuditorVerification" where
  "sample_vote a r = \<lparr>av_requestId = ''r'', av_auditorAddress = a, av_result = r,
     av_auditorCollateral = COutPoint (replicate 32 1) 0, av_blockHeight = 1, av_txHash = [],
     av_status = AS_PENDING, av_shardIndex = OPOI_AUDITOR_VERIFY_NO_SHARD\<rparr>"

theorem ComputeAuditorMajority_correct_witness:
  "auditor_majority [sample_vote ''a'' 0, sample_vote ''b'' 1, sample_vote ''c'' 0] 3 AUDITOR_VERIFY_PASS \<and>
   ComputeAuditorMajority [sample_vote ''a'' 0, sample_vote ''b'' 1, sample_vote ''c'' 0] 3 = 0"
proof -
  have "ComputeAuditorMajority [sample_vote ''a'' 0, sample_vote ''b'' 1, sample_vote ''c'' 0] 3 =
      uint AUDITOR_VERIFY_PASS" "uint AUDITOR_VERIFY_PASS = 0" by code_simp+
  with ComputeAuditorMajority_correct [of "[sample_vote ''a'' 0, sample_vote ''b'' 1, sample_vote ''c'' 0]"
      3 AUDITOR_VERIFY_PASS AUDITOR_VERIFY_PASS]
  show ?thesis by simp
qed

text \<open>
  A tie is possible with an odd number of required auditors: with three required, four
  votes split two to two, or three votes with three different verdicts, give no result. The
  comment at the last return of \<^verbatim>\<open>ComputeAuditorMajority\<close> says this should not happen.
\<close>

theorem auditor_tie_with_odd_quorum:
  "ComputeAuditorMajority [sample_vote ''a'' 0, sample_vote ''b'' 0, sample_vote ''c'' 1, sample_vote ''d'' 1] 3 = -1 \<and>
   ComputeAuditorMajority [sample_vote ''a'' 0, sample_vote ''b'' 1, sample_vote ''c'' 2] 3 = -1"
  by code_simp

end
