(* ===== verification/Opoi_Cache.thy ===== *)
theory Opoi_Cache
  imports Opoi_Shard Opoi_Majority
begin

text \<open>
  \<^verbatim>\<open>OPoICache\<close> (\<^verbatim>\<open>opoi/opoi.h\<close>): the in-memory state of the subsystem and its operations, in
  the order of the class. The global \<^verbatim>\<open>g_opoiCache\<close> is passed explicitly; a method that
  changes it returns the new cache, a lookup with an out-parameter returns an option. The
  mutex \<^verbatim>\<open>cs\<close> makes each method atomic and is not modelled.

  A \<^verbatim>\<open>std::map\<close> is an ordered association list (\<open>smap\<close>), a \<^verbatim>\<open>std::set\<close> that is never iterated
  is a set. The contracts the rest of the development uses are the interpretations at the
  end: the bookkeeping sets are registers (\<open>once_register\<close>), the vectors of votes, claims
  and results are ballot boxes, and composite keys are injective.
\<close>

section \<open>State\<close>

record PendingDelivery =
  pd_requestId :: string
  pd_kind :: u8
  pd_payloadHex :: string
  pd_sigTime :: u32
  pd_senderAddress :: address

record OPoICache =
  mapRequests :: "(string, OPoIRequest) smap"
  mapResponses :: "(string, OPoIResponse) smap"
  mapResponseCommits :: "(string, string) smap"
  mapResponseCommitTxHash :: "(string, uint256) smap"
  mapResponseCommitHeight :: "(string, u32) smap"
  mapStakes :: "(address, OPoIStake) smap"
  mapChallenges :: "(string, OPoIChallenge) smap"
  mapLockedUTXOs :: "(COutPoint, address) smap"
  mapLockingTxHash :: "(COutPoint, uint256) smap"
  mapAuditorVerifications :: "(string, AuditorVerification list) smap"
  mapShardAuditorVerifications :: "(string, AuditorVerification list) smap"
  mapModelManifests :: "(string, ModelManifest) smap"
  mapModelVotes :: "(string, (address, ModelVoteRecord) smap) smap"
  mapCoordinatorClaims :: "(string, ShardCoordinatorClaim list) smap"
  mapShardResults :: "(string, ShardResultSubmission list) smap"
  setPaidShards :: "string set"
  setResolvedAuditorVerifications :: "string set"
  setResolvedShardAuditorVerifications :: "string set"
  setPaidResponses :: "string set"
  setPaidChallengerRewards :: "string set"
  treasurySlashTotal :: int
  treasuryExpiryTotal :: int
  treasuryAuditorTotal :: int
  mapPendingDeliveries :: "(address, PendingDelivery list) smap"
  setKnownOPoIDataHashes :: "uint256 set"
  mapContentByKey :: "(string, string) smap"

definition OPoICache_init :: OPoICache where
  "OPoICache_init = \<lparr>mapRequests = [], mapResponses = [], mapResponseCommits = [],
     mapResponseCommitTxHash = [], mapResponseCommitHeight = [], mapStakes = [], mapChallenges = [],
     mapLockedUTXOs = [], mapLockingTxHash = [], mapAuditorVerifications = [],
     mapShardAuditorVerifications = [], mapModelManifests = [], mapModelVotes = [],
     mapCoordinatorClaims = [], mapShardResults = [], setPaidShards = {},
     setResolvedAuditorVerifications = {}, setResolvedShardAuditorVerifications = {},
     setPaidResponses = {}, setPaidChallengerRewards = {}, treasurySlashTotal = 0,
     treasuryExpiryTotal = 0, treasuryAuditorTotal = 0, mapPendingDeliveries = [],
     setKnownOPoIDataHashes = {}, mapContentByKey = []\<rparr>"

text \<open>\<^verbatim>\<open>SetNull\<close> as it is written: it clears every member but \<^verbatim>\<open>mapLockingTxHash\<close>.\<close>

definition SetNull :: "OPoICache \<Rightarrow> OPoICache" where
  "SetNull c = c\<lparr>mapRequests := [], mapResponses := [], mapResponseCommits := [],
     mapResponseCommitTxHash := [], mapResponseCommitHeight := [], mapStakes := [], mapChallenges := [],
     mapLockedUTXOs := [], mapAuditorVerifications := [],
     mapShardAuditorVerifications := [], mapModelManifests := [], mapModelVotes := [],
     mapCoordinatorClaims := [], mapShardResults := [], setPaidShards := {},
     setResolvedAuditorVerifications := {}, setResolvedShardAuditorVerifications := {},
     setPaidResponses := {}, setPaidChallengerRewards := {},
     mapPendingDeliveries := [], setKnownOPoIDataHashes := {}, mapContentByKey := [],
     treasurySlashTotal := 0, treasuryExpiryTotal := 0, treasuryAuditorTotal := 0\<rparr>"

text \<open>The vector stored under a key; \<^verbatim>\<open>operator[]\<close> starts an absent one as the empty vector.\<close>

definition vec_at :: "('k, 'v list) smap \<Rightarrow> 'k \<Rightarrow> 'v list" where
  "vec_at m k = (case sm_find m k of None \<Rightarrow> [] | Some v \<Rightarrow> v)"

section \<open>Shard results and payment bookkeeping\<close>

definition ShardKey :: "string \<Rightarrow> u32 \<Rightarrow> string" where
  "ShardKey requestId shardIndex = requestId @ '':'' @ dec_u32 shardIndex"

definition AddShardResult :: "string \<Rightarrow> u32 \<Rightarrow> ShardResultSubmission \<Rightarrow> OPoICache \<Rightarrow> OPoICache" where
  [cache_defs]: "AddShardResult requestId shardIndex sub c =
     c\<lparr>mapShardResults :=
         sm_put (ShardKey requestId shardIndex)
           (push_once sr_minerAddress (vec_at (mapShardResults c) (ShardKey requestId shardIndex)) sub)
           (mapShardResults c)\<rparr>"

definition ListShardResults :: "OPoICache \<Rightarrow> string \<Rightarrow> u32 \<Rightarrow> ShardResultSubmission list" where
  "ListShardResults c requestId shardIndex = vec_at (mapShardResults c) (ShardKey requestId shardIndex)"

definition GetShardMajority ::
  "OPoICache \<Rightarrow> string \<Rightarrow> u32 \<Rightarrow> int \<Rightarrow> (uint256 \<times> u32 \<times> address list \<times> address list) option" where
  "GetShardMajority c requestId shardIndex minSubmissions =
     (case sm_find (mapShardResults c) (ShardKey requestId shardIndex) of
        None \<Rightarrow> None
      | Some subs \<Rightarrow> ComputeShardMajority subs minSubmissions)"

definition IsShardPaid :: "OPoICache \<Rightarrow> string \<Rightarrow> u32 \<Rightarrow> bool" where
  "IsShardPaid c requestId shardIndex \<longleftrightarrow> ShardKey requestId shardIndex \<in> setPaidShards c"

definition MarkShardPaid :: "string \<Rightarrow> u32 \<Rightarrow> OPoICache \<Rightarrow> OPoICache" where
  [cache_defs]: "MarkShardPaid requestId shardIndex c =
     c\<lparr>setPaidShards := insert (ShardKey requestId shardIndex) (setPaidShards c)\<rparr>"

definition UnmarkShardPaid :: "string \<Rightarrow> u32 \<Rightarrow> OPoICache \<Rightarrow> OPoICache" where
  [cache_defs]: "UnmarkShardPaid requestId shardIndex c =
     c\<lparr>setPaidShards := setPaidShards c - {ShardKey requestId shardIndex}\<rparr>"

definition IsResponsePaid :: "OPoICache \<Rightarrow> string \<Rightarrow> bool" where
  "IsResponsePaid c requestId \<longleftrightarrow> requestId \<in> setPaidResponses c"

definition MarkResponsePaid :: "string \<Rightarrow> OPoICache \<Rightarrow> OPoICache" where
  [cache_defs]: "MarkResponsePaid requestId c = c\<lparr>setPaidResponses := insert requestId (setPaidResponses c)\<rparr>"

definition UnmarkResponsePaid :: "string \<Rightarrow> OPoICache \<Rightarrow> OPoICache" where
  [cache_defs]: "UnmarkResponsePaid requestId c = c\<lparr>setPaidResponses := setPaidResponses c - {requestId}\<rparr>"

definition IsChallengerRewardPaid :: "OPoICache \<Rightarrow> string \<Rightarrow> bool" where
  "IsChallengerRewardPaid c requestId \<longleftrightarrow> requestId \<in> setPaidChallengerRewards c"

definition MarkChallengerRewardPaid :: "string \<Rightarrow> OPoICache \<Rightarrow> OPoICache" where
  [cache_defs]: "MarkChallengerRewardPaid requestId c =
     c\<lparr>setPaidChallengerRewards := insert requestId (setPaidChallengerRewards c)\<rparr>"

definition UnmarkChallengerRewardPaid :: "string \<Rightarrow> OPoICache \<Rightarrow> OPoICache" where
  [cache_defs]: "UnmarkChallengerRewardPaid requestId c =
     c\<lparr>setPaidChallengerRewards := setPaidChallengerRewards c - {requestId}\<rparr>"

section \<open>Coordinator claims\<close>

definition AddCoordinatorClaim :: "ShardCoordinatorClaim \<Rightarrow> OPoICache \<Rightarrow> OPoICache" where
  [cache_defs]: "AddCoordinatorClaim cl c =
     c\<lparr>mapCoordinatorClaims :=
         sm_put (cl_requestId cl)
           (push_once cl_minerAddress (vec_at (mapCoordinatorClaims c) (cl_requestId cl)) cl)
           (mapCoordinatorClaims c)\<rparr>"

definition ListCoordinatorClaims :: "OPoICache \<Rightarrow> string \<Rightarrow> ShardCoordinatorClaim list" where
  "ListCoordinatorClaims c requestId = vec_at (mapCoordinatorClaims c) requestId"

definition IsClaimedCoordinator :: "OPoICache \<Rightarrow> string \<Rightarrow> address \<Rightarrow> bool" where
  "IsClaimedCoordinator c requestId minerAddress =
     (case sm_find (mapCoordinatorClaims c) requestId of
        None \<Rightarrow> False
      | Some cls \<Rightarrow> list_ex (\<lambda>cl. cl_minerAddress cl = minerAddress) cls)"

section \<open>Stake totals and model manifests\<close>

definition TotalActiveStake :: "OPoICache \<Rightarrow> int" where
  "TotalActiveStake c =
     foldl (\<lambda>total (_, s). if st_IsActive s then wrap64 (total + st_amount s) else total) 0 (mapStakes c)"

definition CountActiveStakers :: "OPoICache \<Rightarrow> int" where
  "CountActiveStakers c = foldl (\<lambda>n (_, s). if st_IsActive s then n + 1 else n) 0 (mapStakes c)"

definition CountActiveExpertHosts :: "OPoICache \<Rightarrow> u32 \<Rightarrow> int" where
  "CountActiveExpertHosts c expertId =
     foldl (\<lambda>n (_, s). if st_IsActive s \<and> HostsExpert s expertId then n + 1 else n) 0 (mapStakes c)"

definition HasActiveTitanStaker :: "OPoICache \<Rightarrow> bool" where
  "HasActiveTitanStaker c = list_ex (\<lambda>(_, s). st_IsActive s \<and> st_tier s = OPOI_TIER_TITAN) (mapStakes c)"

definition AddModelManifest :: "ModelManifest \<Rightarrow> OPoICache \<Rightarrow> OPoICache" where
  [cache_defs]: "AddModelManifest m c = c\<lparr>mapModelManifests := sm_put (mm_modelId m) m (mapModelManifests c)\<rparr>"

definition GetModelManifest :: "OPoICache \<Rightarrow> string \<Rightarrow> ModelManifest option" where
  "GetModelManifest c modelId = sm_find (mapModelManifests c) modelId"

text \<open>A negative filter (\<open>None\<close>) lists every manifest.\<close>

definition ListModelManifests :: "OPoICache \<Rightarrow> model_status option \<Rightarrow> ModelManifest list" where
  "ListModelManifests c statusFilter =
     filter (\<lambda>m. statusFilter = None \<or> statusFilter = Some (mm_status m)) (map snd (mapModelManifests c))"

definition AddModelVote :: "string \<Rightarrow> ModelVoteRecord \<Rightarrow> OPoICache \<Rightarrow> OPoICache" where
  [cache_defs]: "AddModelVote modelId rec c =
     (case sm_find (mapModelManifests c) modelId of
        None \<Rightarrow> c
      | Some _ \<Rightarrow>
          c\<lparr>mapModelVotes :=
              sm_put modelId
                (sm_put (vr_voterAddress rec) rec
                  (case sm_find (mapModelVotes c) modelId of None \<Rightarrow> [] | Some vs \<Rightarrow> vs))
                (mapModelVotes c)\<rparr>)"

definition IsHarmlessModelVoteRedelivery :: "OPoICache \<Rightarrow> string \<Rightarrow> address \<Rightarrow> uint256 \<Rightarrow> bool" where
  "IsHarmlessModelVoteRedelivery c modelId voterAddress txHash =
     (case sm_find (mapModelVotes c) modelId of
        None \<Rightarrow> False
      | Some vs \<Rightarrow> (case sm_find vs voterAddress of None \<Rightarrow> False | Some r \<Rightarrow> vr_txHash r = txHash))"

text \<open>Yes weight and no weight.\<close>

definition TallyModelVotes :: "OPoICache \<Rightarrow> string \<Rightarrow> int \<times> int" where
  "TallyModelVotes c modelId =
     (case sm_find (mapModelVotes c) modelId of
        None \<Rightarrow> (0, 0)
      | Some vs \<Rightarrow>
          foldl (\<lambda>(yes, no) (_, r). if vr_approve r then (wrap64 (yes + vr_weight r), no)
                                    else (yes, wrap64 (no + vr_weight r))) (0, 0) vs)"

definition ListManifestsDueForTally :: "OPoICache \<Rightarrow> u32 \<Rightarrow> ModelManifest list" where
  "ListManifestsDueForTally c blockHeight =
     filter (\<lambda>m. mm_IsVoting m \<and> mm_voteWindowEndHeight m \<le> blockHeight) (map snd (mapModelManifests c))"

definition SetModelManifestStatus :: "string \<Rightarrow> model_status \<Rightarrow> u32 \<Rightarrow> OPoICache \<Rightarrow> OPoICache" where
  [cache_defs]: "SetModelManifestStatus modelId status activationHeight c =
     c\<lparr>mapModelManifests :=
         sm_modify modelId
           (\<lambda>m. (if 0 < activationHeight then m\<lparr>mm_status := status, mm_activationHeight := activationHeight\<rparr>
                 else m\<lparr>mm_status := status\<rparr>))
           (mapModelManifests c)\<rparr>"

section \<open>Collateral locks\<close>

definition LockUTXO :: "COutPoint \<Rightarrow> address \<Rightarrow> uint256 \<Rightarrow> OPoICache \<Rightarrow> OPoICache" where
  [cache_defs]: "LockUTXO out minerAddress txHash c =
     c\<lparr>mapLockedUTXOs := sm_put out minerAddress (mapLockedUTXOs c),
       mapLockingTxHash := sm_put out txHash (mapLockingTxHash c)\<rparr>"

definition UnlockUTXO :: "COutPoint \<Rightarrow> OPoICache \<Rightarrow> OPoICache" where
  [cache_defs]: "UnlockUTXO out c =
     c\<lparr>mapLockedUTXOs := sm_erase out (mapLockedUTXOs c),
       mapLockingTxHash := sm_erase out (mapLockingTxHash c)\<rparr>"

definition IsLockedUTXO :: "OPoICache \<Rightarrow> COutPoint \<Rightarrow> bool" where
  "IsLockedUTXO c out \<longleftrightarrow> sm_find (mapLockedUTXOs c) out \<noteq> None"

definition GetLockingTxHash :: "OPoICache \<Rightarrow> COutPoint \<Rightarrow> uint256 option" where
  "GetLockingTxHash c out = sm_find (mapLockingTxHash c) out"

section \<open>Requests and responses\<close>

definition AddRequest :: "OPoIRequest \<Rightarrow> OPoICache \<Rightarrow> OPoICache" where
  [cache_defs]: "AddRequest req c = c\<lparr>mapRequests := sm_put (rq_requestId req) req (mapRequests c)\<rparr>"

definition AddResponse :: "OPoIResponse \<Rightarrow> OPoICache \<Rightarrow> OPoICache" where
  [cache_defs]: "AddResponse resp c =
     c\<lparr>mapResponses := sm_put (rs_requestId resp) resp (mapResponses c),
       mapRequests :=
         (if rs_IsRevealed resp
          then sm_modify (rs_requestId resp) (\<lambda>r. r\<lparr>rq_status := RQ_FULFILLED\<rparr>) (mapRequests c)
          else mapRequests c)\<rparr>"

definition commit_key :: "string \<Rightarrow> address \<Rightarrow> string" where
  "commit_key requestId minerAddress = requestId @ '':'' @ minerAddress"

definition AddResponseCommit :: "string \<Rightarrow> address \<Rightarrow> string \<Rightarrow> u32 \<Rightarrow> uint256 \<Rightarrow> OPoICache \<Rightarrow> OPoICache" where
  [cache_defs]: "AddResponseCommit requestId minerAddress commitHash blockHeight txHash c =
     c\<lparr>mapResponseCommits := sm_put (commit_key requestId minerAddress) commitHash (mapResponseCommits c),
       mapResponseCommitTxHash := sm_put (commit_key requestId minerAddress) txHash (mapResponseCommitTxHash c),
       mapResponseCommitHeight := sm_put (commit_key requestId minerAddress) blockHeight (mapResponseCommitHeight c),
       mapRequests := sm_modify requestId
         (\<lambda>r. r\<lparr>rq_responseCommits := sm_put minerAddress commitHash (rq_responseCommits r)\<rparr>) (mapRequests c)\<rparr>"

definition GetResponseCommitHeight :: "OPoICache \<Rightarrow> string \<Rightarrow> address \<Rightarrow> u32 option" where
  "GetResponseCommitHeight c requestId minerAddress =
     sm_find (mapResponseCommitHeight c) (commit_key requestId minerAddress)"

definition IsHarmlessResponseCommitRedelivery :: "OPoICache \<Rightarrow> string \<Rightarrow> address \<Rightarrow> uint256 \<Rightarrow> bool" where
  "IsHarmlessResponseCommitRedelivery c requestId minerAddress txHash =
     (case sm_find (mapResponseCommitTxHash c) (commit_key requestId minerAddress) of
        None \<Rightarrow> False | Some h \<Rightarrow> h = txHash)"

definition GetResponseCommit :: "OPoICache \<Rightarrow> string \<Rightarrow> address \<Rightarrow> string option" where
  "GetResponseCommit c requestId minerAddress =
     sm_find (mapResponseCommits c) (commit_key requestId minerAddress)"

definition GetRequest :: "OPoICache \<Rightarrow> string \<Rightarrow> OPoIRequest option" where
  "GetRequest c i = sm_find (mapRequests c) i"

definition GetResponse :: "OPoICache \<Rightarrow> string \<Rightarrow> OPoIResponse option" where
  "GetResponse c i = sm_find (mapResponses c) i"

definition ListResponses :: "OPoICache \<Rightarrow> OPoIResponse list" where
  "ListResponses c = map snd (mapResponses c)"

section \<open>Stakes\<close>

definition AddStake :: "OPoIStake \<Rightarrow> OPoICache \<Rightarrow> OPoICache" where
  [cache_defs]: "AddStake stake c = c\<lparr>mapStakes := sm_put (st_minerAddress stake) stake (mapStakes c)\<rparr>"

definition GetStake :: "OPoICache \<Rightarrow> address \<Rightarrow> OPoIStake option" where
  "GetStake c minerAddress = sm_find (mapStakes c) minerAddress"

definition IsActiveStaker :: "OPoICache \<Rightarrow> address \<Rightarrow> bool" where
  "IsActiveStaker c minerAddress =
     (case sm_find (mapStakes c) minerAddress of None \<Rightarrow> False | Some s \<Rightarrow> st_IsActive s)"

definition StartUnstake :: "address \<Rightarrow> u32 \<Rightarrow> uint256 \<Rightarrow> OPoICache \<Rightarrow> OPoICache" where
  [cache_defs]: "StartUnstake minerAddress height txHash c =
     (if IsActiveStaker c minerAddress
      then c\<lparr>mapStakes := sm_modify minerAddress
               (\<lambda>s. s\<lparr>st_stakeStatus := ST_UNSTAKING, st_unstakeHeight := height, st_unstakeTxHash := txHash\<rparr>)
               (mapStakes c)\<rparr>
      else c)"

definition IsHarmlessUnstakeRedelivery :: "OPoICache \<Rightarrow> address \<Rightarrow> uint256 \<Rightarrow> bool" where
  "IsHarmlessUnstakeRedelivery c minerAddress txHash =
     (case sm_find (mapStakes c) minerAddress of
        None \<Rightarrow> False | Some s \<Rightarrow> st_IsUnstaking s \<and> st_unstakeTxHash s = txHash)"

definition ReleaseStake :: "address \<Rightarrow> OPoICache \<Rightarrow> OPoICache" where
  [cache_defs]: "ReleaseStake minerAddress c =
     c\<lparr>mapStakes := sm_modify minerAddress (\<lambda>s. s\<lparr>st_stakeStatus := ST_RELEASED\<rparr>) (mapStakes c)\<rparr>"

definition SlashStake :: "address \<Rightarrow> OPoICache \<Rightarrow> OPoICache" where
  [cache_defs]: "SlashStake minerAddress c =
     c\<lparr>mapStakes := sm_modify minerAddress (\<lambda>s. s\<lparr>st_stakeStatus := ST_SLASHED\<rparr>) (mapStakes c)\<rparr>"

section \<open>Auditor verifications\<close>

definition AddAuditorVerification :: "AuditorVerification \<Rightarrow> OPoICache \<Rightarrow> OPoICache" where
  [cache_defs]: "AddAuditorVerification fv c =
     (let verifs = vec_at (mapAuditorVerifications c) (av_requestId fv);
          c1 = c\<lparr>mapAuditorVerifications :=
                   sm_put (av_requestId fv) (push_once av_auditorAddress verifs fv) (mapAuditorVerifications c)\<rparr>
      in if list_ex (\<lambda>x. av_auditorAddress x = av_auditorAddress fv) verifs then c1
         else if COutPoint_IsNull (av_auditorCollateral fv) then c1
         else LockUTXO (av_auditorCollateral fv) (av_auditorAddress fv) (av_txHash fv) c1)"

definition GetAuditorVerifications :: "OPoICache \<Rightarrow> string \<Rightarrow> AuditorVerification list" where
  "GetAuditorVerifications c requestId = vec_at (mapAuditorVerifications c) requestId"

definition GetAuditorMajorityResult :: "OPoICache \<Rightarrow> string \<Rightarrow> int \<Rightarrow> int" where
  "GetAuditorMajorityResult c requestId minVerifiers =
     (case sm_find (mapAuditorVerifications c) requestId of
        None \<Rightarrow> -1 | Some verifs \<Rightarrow> ComputeAuditorMajority verifs minVerifiers)"

definition AddShardAuditorVerification :: "string \<Rightarrow> u32 \<Rightarrow> AuditorVerification \<Rightarrow> OPoICache \<Rightarrow> OPoICache" where
  [cache_defs]: "AddShardAuditorVerification requestId shardIndex fv c =
     (let verifs = vec_at (mapShardAuditorVerifications c) (ShardKey requestId shardIndex);
          c1 = c\<lparr>mapShardAuditorVerifications :=
                   sm_put (ShardKey requestId shardIndex) (push_once av_auditorAddress verifs fv)
                     (mapShardAuditorVerifications c)\<rparr>
      in if list_ex (\<lambda>x. av_auditorAddress x = av_auditorAddress fv) verifs then c1
         else if COutPoint_IsNull (av_auditorCollateral fv) then c1
         else LockUTXO (av_auditorCollateral fv) (av_auditorAddress fv) (av_txHash fv) c1)"

definition GetShardAuditorVerifications :: "OPoICache \<Rightarrow> string \<Rightarrow> u32 \<Rightarrow> AuditorVerification list" where
  "GetShardAuditorVerifications c requestId shardIndex =
     vec_at (mapShardAuditorVerifications c) (ShardKey requestId shardIndex)"

definition GetShardAuditorMajorityResult :: "OPoICache \<Rightarrow> string \<Rightarrow> u32 \<Rightarrow> int \<Rightarrow> int" where
  "GetShardAuditorMajorityResult c requestId shardIndex minVerifiers =
     (case sm_find (mapShardAuditorVerifications c) (ShardKey requestId shardIndex) of
        None \<Rightarrow> -1 | Some verifs \<Rightarrow> ComputeAuditorMajority verifs minVerifiers)"

definition IsAuditorResolved :: "OPoICache \<Rightarrow> string \<Rightarrow> bool" where
  "IsAuditorResolved c requestId \<longleftrightarrow> requestId \<in> setResolvedAuditorVerifications c"

definition MarkAuditorResolved :: "string \<Rightarrow> OPoICache \<Rightarrow> OPoICache" where
  [cache_defs]: "MarkAuditorResolved requestId c =
     c\<lparr>setResolvedAuditorVerifications := insert requestId (setResolvedAuditorVerifications c)\<rparr>"

definition UnmarkAuditorResolved :: "string \<Rightarrow> OPoICache \<Rightarrow> OPoICache" where
  [cache_defs]: "UnmarkAuditorResolved requestId c =
     c\<lparr>setResolvedAuditorVerifications := setResolvedAuditorVerifications c - {requestId}\<rparr>"

definition IsShardAuditorResolved :: "OPoICache \<Rightarrow> string \<Rightarrow> u32 \<Rightarrow> bool" where
  "IsShardAuditorResolved c requestId shardIndex \<longleftrightarrow>
     ShardKey requestId shardIndex \<in> setResolvedShardAuditorVerifications c"

definition MarkShardAuditorResolved :: "string \<Rightarrow> u32 \<Rightarrow> OPoICache \<Rightarrow> OPoICache" where
  [cache_defs]: "MarkShardAuditorResolved requestId shardIndex c =
     c\<lparr>setResolvedShardAuditorVerifications :=
         insert (ShardKey requestId shardIndex) (setResolvedShardAuditorVerifications c)\<rparr>"

definition UnmarkShardAuditorResolved :: "string \<Rightarrow> u32 \<Rightarrow> OPoICache \<Rightarrow> OPoICache" where
  [cache_defs]: "UnmarkShardAuditorResolved requestId shardIndex c =
     c\<lparr>setResolvedShardAuditorVerifications :=
         setResolvedShardAuditorVerifications c - {ShardKey requestId shardIndex}\<rparr>"

section \<open>Relay queues and content\<close>

definition AddPendingDelivery :: "address \<Rightarrow> PendingDelivery \<Rightarrow> OPoICache \<Rightarrow> OPoICache" where
  [cache_defs]: "AddPendingDelivery dest d c =
     c\<lparr>mapPendingDeliveries := sm_put dest (vec_at (mapPendingDeliveries c) dest @ [d]) (mapPendingDeliveries c)\<rparr>"

definition GetAndDrainPendingDeliveries :: "address \<Rightarrow> OPoICache \<Rightarrow> PendingDelivery list \<times> OPoICache" where
  "GetAndDrainPendingDeliveries dest c =
     (case sm_find (mapPendingDeliveries c) dest of
        None \<Rightarrow> ([], c)
      | Some ds \<Rightarrow> (ds, c\<lparr>mapPendingDeliveries := sm_erase dest (mapPendingDeliveries c)\<rparr>))"

definition HasKnownOPoIDataHash :: "OPoICache \<Rightarrow> uint256 \<Rightarrow> bool" where
  "HasKnownOPoIDataHash c h \<longleftrightarrow> h \<in> setKnownOPoIDataHashes c"

definition MarkOPoIDataHashKnown :: "uint256 \<Rightarrow> OPoICache \<Rightarrow> OPoICache" where
  [cache_defs]: "MarkOPoIDataHashKnown h c =
     c\<lparr>setKnownOPoIDataHashes := insert h (setKnownOPoIDataHashes c)\<rparr>"

definition ContentKey :: "string \<Rightarrow> u8 \<Rightarrow> string" where
  "ContentKey requestId kind = requestId @ '':'' @ dec_u8 kind"

definition HasContent :: "OPoICache \<Rightarrow> string \<Rightarrow> u8 \<Rightarrow> bool" where
  "HasContent c requestId kind \<longleftrightarrow> sm_find (mapContentByKey c) (ContentKey requestId kind) \<noteq> None"

definition AddContent :: "string \<Rightarrow> u8 \<Rightarrow> string \<Rightarrow> OPoICache \<Rightarrow> OPoICache" where
  [cache_defs]: "AddContent requestId kind payloadHex c =
     c\<lparr>mapContentByKey := sm_put (ContentKey requestId kind) payloadHex (mapContentByKey c)\<rparr>"

definition GetContent :: "OPoICache \<Rightarrow> string \<Rightarrow> u8 \<Rightarrow> string option" where
  "GetContent c requestId kind = sm_find (mapContentByKey c) (ContentKey requestId kind)"

definition PruneExpiredPendingDeliveries :: "OPoICache \<Rightarrow> OPoICache" where
  [cache_defs]: "PruneExpiredPendingDeliveries c =
     c\<lparr>mapPendingDeliveries :=
         filter (\<lambda>(_, v). v \<noteq> [])
           (sm_update_all
             (filter (\<lambda>d. \<not> (case sm_find (mapRequests c) (pd_requestId d) of
                                None \<Rightarrow> True | Some r \<Rightarrow> rq_status r \<noteq> RQ_PENDING)))
             (mapPendingDeliveries c))\<rparr>"

section \<open>Challenges\<close>

definition AddChallenge :: "OPoIChallenge \<Rightarrow> OPoICache \<Rightarrow> OPoICache" where
  [cache_defs]: "AddChallenge ch c = c\<lparr>mapChallenges := sm_put (ch_requestId ch) ch (mapChallenges c)\<rparr>"

definition GetChallenge :: "OPoICache \<Rightarrow> string \<Rightarrow> OPoIChallenge option" where
  "GetChallenge c requestId = sm_find (mapChallenges c) requestId"

section \<open>Routing to a single large host\<close>

definition ShouldCollapseToTitanSingleNode :: "OPoICache \<Rightarrow> Params \<Rightarrow> ModelManifest \<Rightarrow> bool" where
  "ShouldCollapseToTitanSingleNode c params m =
     (if mm_archType m \<noteq> OPOI_ARCH_DENSE \<or> mm_numDenseShards m \<le> 1 then False
      else if nOPoITitanOffloadThresholdGB params = 0 then False
      else
        let thresholdBytes = (word_of_int (nOPoITitanOffloadThresholdGB params) :: u64) * 1024 * 1024 * 1024
        in if mm_totalSizeBytes m = 0 \<or> mm_totalSizeBytes m \<le> thresholdBytes then False
           else HasActiveTitanStaker c)"

section \<open>Composite keys\<close>

text \<open>A decimal suffix after a colon can be read back, whatever the prefix contains.\<close>

lemma colon_suffix_inj:
  assumes "a @ '':'' @ u = b @ '':'' @ v" "CHR '':'' \<notin> set u" "CHR '':'' \<notin> set v"
  shows "a = b \<and> u = v"
proof -
  have "takeWhile (\<lambda>x. x \<noteq> CHR '':'') (rev (s @ '':'' @ w)) = rev w" if "CHR '':'' \<notin> set w" for s w
    using that by (auto simp: takeWhile_append2 takeWhile_tail)
  with assms have "rev u = rev v" by metis
  then have "u = v" by simp
  with assms(1) show ?thesis by simp
qed

lemma dec_u32_no_colon: "CHR '':'' \<notin> set (dec_u32 i)"
  by (simp add: dec_u32_def dec_nat_no_colon)

lemma ShardKey_inj: "ShardKey r i = ShardKey r' i' \<longleftrightarrow> r = r' \<and> i = i'"
proof
  assume "ShardKey r i = ShardKey r' i'"
  then have "r = r' \<and> dec_u32 i = dec_u32 i'"
    using colon_suffix_inj [of r "dec_u32 i" r' "dec_u32 i'"]
    by (simp add: ShardKey_def dec_u32_no_colon)
  then show "r = r' \<and> i = i'"
    by (simp add: dec_u32_def) (metis dec_nat_inj word_unat_eq_iff)
qed simp

lemma ContentKey_inj: "ContentKey r k = ContentKey r' k' \<longleftrightarrow> r = r' \<and> k = k'"
proof
  assume "ContentKey r k = ContentKey r' k'"
  then have "r = r' \<and> dec_u8 k = dec_u8 k'"
    using colon_suffix_inj [of r "dec_u8 k" r' "dec_u8 k'"]
    by (simp add: ContentKey_def dec_u8_def dec_nat_no_colon)
  then show "r = r' \<and> k = k'"
    by (simp add: dec_u8_def) (metis dec_nat_inj word_unat_eq_iff)
qed simp

lemma commit_key_inj:
  assumes "CHR '':'' \<notin> set a" "CHR '':'' \<notin> set a'"
  shows "commit_key r a = commit_key r' a' \<longleftrightarrow> r = r' \<and> a = a'"
  using colon_suffix_inj [of r a r' a'] assms by (auto simp: commit_key_def)

section \<open>Registers\<close>

text \<open>
  The five bookkeeping sets (paid shards, paid responses, paid challenger rewards, resolved
  verifications, resolved shard verifications) keep one contract: a mark is remembered
  under exactly its key until it is taken back.
\<close>

locale once_register =
  fixes marked :: "'c \<Rightarrow> 'k \<Rightarrow> bool"
    and mark :: "'k \<Rightarrow> 'c \<Rightarrow> 'c"
    and unmark :: "'k \<Rightarrow> 'c \<Rightarrow> 'c"
  assumes marked_mark: "marked (mark k c) l \<longleftrightarrow> l = k \<or> marked c l"
    and marked_unmark: "marked (unmark k c) l \<longleftrightarrow> l \<noteq> k \<and> marked c l"
begin

lemma marked_fold: "marked (fold mark ks c) l \<longleftrightarrow> l \<in> set ks \<or> marked c l"
  by (induction ks arbitrary: c) (auto simp: marked_mark)

text \<open>What was due and is marked now is not due any more.\<close>

lemma due_once: "filter (\<lambda>k. \<not> marked (fold mark ks c) k) ks = []"
  by (simp add: marked_fold filter_empty_conv)

lemma unmark_mark: "\<not> marked c k \<Longrightarrow> marked (unmark k (mark k c)) l = marked c l"
  by (auto simp: marked_mark marked_unmark)

end

lemmas register_defs = IsShardPaid_def MarkShardPaid_def UnmarkShardPaid_def
  IsResponsePaid_def MarkResponsePaid_def UnmarkResponsePaid_def
  IsChallengerRewardPaid_def MarkChallengerRewardPaid_def UnmarkChallengerRewardPaid_def
  IsAuditorResolved_def MarkAuditorResolved_def UnmarkAuditorResolved_def
  IsShardAuditorResolved_def MarkShardAuditorResolved_def UnmarkShardAuditorResolved_def

interpretation paid_shards: once_register
  "\<lambda>c (r, i). IsShardPaid c r i" "\<lambda>(r, i). MarkShardPaid r i" "\<lambda>(r, i). UnmarkShardPaid r i"
  by unfold_locales (auto simp: register_defs ShardKey_inj)

interpretation paid_responses: once_register IsResponsePaid MarkResponsePaid UnmarkResponsePaid
  by unfold_locales (auto simp: register_defs)

interpretation paid_rewards: once_register
  IsChallengerRewardPaid MarkChallengerRewardPaid UnmarkChallengerRewardPaid
  by unfold_locales (auto simp: register_defs)

interpretation resolved_audits: once_register
  IsAuditorResolved MarkAuditorResolved UnmarkAuditorResolved
  by unfold_locales (auto simp: register_defs)

interpretation resolved_shard_audits: once_register
  "\<lambda>c (r, i). IsShardAuditorResolved c r i" "\<lambda>(r, i). MarkShardAuditorResolved r i"
  "\<lambda>(r, i). UnmarkShardAuditorResolved r i"
  by unfold_locales (auto simp: register_defs ShardKey_inj)

section \<open>Ballot boxes\<close>

interpretation result_box: ballot_box sr_minerAddress "push_once sr_minerAddress"
  by (rule push_once_box)

interpretation claim_box: ballot_box cl_minerAddress "push_once cl_minerAddress"
  by (rule push_once_box)

interpretation vote_box: ballot_box av_auditorAddress "push_once av_auditorAddress"
  by (rule push_once_box)

section \<open>Locks\<close>

text \<open>
  The contract of the collateral lock: after a lock the outpoint is locked and the locking
  transaction is known, after an unlock neither holds, and no other outpoint is affected.
\<close>

locale lock_table =
  fixes locked :: "'c \<Rightarrow> 'o \<Rightarrow> bool"
    and locker :: "'c \<Rightarrow> 'o \<Rightarrow> 'h option"
    and lock :: "'o \<Rightarrow> 'a \<Rightarrow> 'h \<Rightarrow> 'c \<Rightarrow> 'c"
    and unlock :: "'o \<Rightarrow> 'c \<Rightarrow> 'c"
  assumes locked_lock: "locked (lock o1 a h c) o2 \<longleftrightarrow> o2 = o1 \<or> locked c o2"
    and locked_unlock: "locked (unlock o1 c) o2 \<longleftrightarrow> o2 \<noteq> o1 \<and> locked c o2"
    and locker_lock: "locker (lock o1 a h c) o2 = (if o2 = o1 then Some h else locker c o2)"
    and locker_unlock: "locker (unlock o1 c) o2 = (if o2 = o1 then None else locker c o2)"
begin

lemma unlock_lock: "\<not> locked c o1 \<Longrightarrow> locked (unlock o1 (lock o1 a h c)) o2 = locked c o2"
  by (auto simp: locked_lock locked_unlock)

lemma fold_unlock: "locked (fold unlock os c) o2 \<longleftrightarrow> o2 \<notin> set os \<and> locked c o2"
  by (induction os arbitrary: c) (auto simp: locked_unlock)

text \<open>Every locked outpoint has a known locker: kept by both operations.\<close>

definition accounted :: "'c \<Rightarrow> bool" where
  "accounted c \<longleftrightarrow> (\<forall>out. locked c out \<longrightarrow> locker c out \<noteq> None)"

lemma accounted_lock: "accounted c \<Longrightarrow> accounted (lock o1 a h c)"
  by (simp add: accounted_def locked_lock locker_lock)

lemma accounted_unlock: "accounted c \<Longrightarrow> accounted (unlock o1 c)"
  by (simp add: accounted_def locked_unlock locker_unlock)

end

interpretation locks: lock_table IsLockedUTXO GetLockingTxHash LockUTXO UnlockUTXO
  by unfold_locales (auto simp: IsLockedUTXO_def GetLockingTxHash_def LockUTXO_def UnlockUTXO_def)

section \<open>The well-formedness invariant\<close>

text \<open>
  \<open>wf_map P m\<close>: the keys of \<open>m\<close> are in strictly increasing order and every entry satisfies
  \<open>P\<close>. The invariant of the cache says, for each member, that the records are stored under
  the key they carry, that vectors hold one record per address, that the two kinds of
  auditor votes are never mixed, and that every locked outpoint has a known locker.
\<close>

definition wf_map :: "('k::linorder \<Rightarrow> 'v \<Rightarrow> bool) \<Rightarrow> ('k, 'v) smap \<Rightarrow> bool" where
  "wf_map P m \<longleftrightarrow> sm_ok m \<and> (\<forall>k v. sm_find m k = Some v \<longrightarrow> P k v)"

lemma wf_Nil [simp]: "wf_map P []"
  by (simp add: wf_map_def)

lemma wf_put: "wf_map P m \<Longrightarrow> P k v \<Longrightarrow> wf_map P (sm_put k v m)"
  by (auto simp: wf_map_def)

lemma wf_erase: "wf_map P m \<Longrightarrow> wf_map P (sm_erase k m)"
  by (auto simp: wf_map_def)

lemma wf_modify: "wf_map P m \<Longrightarrow> (\<And>v. P k v \<Longrightarrow> P k (f v)) \<Longrightarrow> wf_map P (sm_modify k f m)"
  by (auto simp: wf_map_def)

lemma wf_update_all: "wf_map P m \<Longrightarrow> (\<And>k v. P k v \<Longrightarrow> P k (f v)) \<Longrightarrow> wf_map P (sm_update_all f m)"
  by (auto simp: wf_map_def)

lemma wf_filter:
  assumes "wf_map P m"
  shows "wf_map P (filter Q m)"
proof -
  have d: "distinct (map fst m)" using assms sm.keys_distinct by (auto simp: wf_map_def)
  have "sm_find m k = Some v" if "sm_find (filter Q m) k = Some v" for k v
    using map_of_SomeD [OF that] d by simp
  with assms show ?thesis by (auto simp: wf_map_def sm_ok_filter)
qed

lemma wf_find: "wf_map P m \<Longrightarrow> sm_find m k = Some v \<Longrightarrow> P k v"
  by (simp add: wf_map_def)

lemma wf_ok: "wf_map P m \<Longrightarrow> sm_ok m"
  by (simp add: wf_map_def)

lemma wf_vec_at: "wf_map P m \<Longrightarrow> P k [] \<Longrightarrow> P k (vec_at m k)"
  by (auto simp: vec_at_def wf_map_def split: option.splits)

definition request_ok :: "string \<Rightarrow> OPoIRequest \<Rightarrow> bool" where
  "request_ok k r \<longleftrightarrow> rq_requestId r = k \<and> sm_ok (rq_responseCommits r) \<and> sm_ok (rq_responseReveals r)"

definition votes_ok :: "string \<Rightarrow> (address, ModelVoteRecord) smap \<Rightarrow> bool" where
  "votes_ok k vs \<longleftrightarrow> wf_map (\<lambda>a v. vr_voterAddress v = a) vs"

definition claims_ok :: "string \<Rightarrow> ShardCoordinatorClaim list \<Rightarrow> bool" where
  "claims_ok k cls \<longleftrightarrow> distinct (map cl_minerAddress cls) \<and> (\<forall>cl\<in>set cls. cl_requestId cl = k)"

definition results_ok :: "string \<Rightarrow> ShardResultSubmission list \<Rightarrow> bool" where
  "results_ok k subs \<longleftrightarrow> distinct (map sr_minerAddress subs)"

definition verifs_ok :: "string \<Rightarrow> AuditorVerification list \<Rightarrow> bool" where
  "verifs_ok k vs \<longleftrightarrow> distinct (map av_auditorAddress vs) \<and>
     (\<forall>v\<in>set vs. av_requestId v = k \<and> \<not> IsShardScoped v)"

definition shard_verifs_ok :: "string \<Rightarrow> AuditorVerification list \<Rightarrow> bool" where
  "shard_verifs_ok k vs \<longleftrightarrow> distinct (map av_auditorAddress vs) \<and>
     (\<forall>v\<in>set vs. ShardKey (av_requestId v) (av_shardIndex v) = k \<and> IsShardScoped v)"

abbreviation any_entry :: "'k \<Rightarrow> 'v \<Rightarrow> bool" where
  "any_entry \<equiv> \<lambda>_ _. True"

definition cache_inv :: "OPoICache \<Rightarrow> bool" where
  "cache_inv c \<longleftrightarrow>
     wf_map request_ok (mapRequests c) \<and>
     wf_map (\<lambda>k r. rs_requestId r = k) (mapResponses c) \<and>
     wf_map any_entry (mapResponseCommits c) \<and>
     wf_map any_entry (mapResponseCommitTxHash c) \<and>
     wf_map any_entry (mapResponseCommitHeight c) \<and>
     wf_map (\<lambda>k s. st_minerAddress s = k) (mapStakes c) \<and>
     wf_map (\<lambda>k h. ch_requestId h = k) (mapChallenges c) \<and>
     wf_map any_entry (mapLockedUTXOs c) \<and>
     wf_map any_entry (mapLockingTxHash c) \<and>
     wf_map verifs_ok (mapAuditorVerifications c) \<and>
     wf_map shard_verifs_ok (mapShardAuditorVerifications c) \<and>
     wf_map (\<lambda>k m. mm_modelId m = k) (mapModelManifests c) \<and>
     wf_map votes_ok (mapModelVotes c) \<and>
     wf_map claims_ok (mapCoordinatorClaims c) \<and>
     wf_map results_ok (mapShardResults c) \<and>
     wf_map any_entry (mapPendingDeliveries c) \<and>
     wf_map any_entry (mapContentByKey c) \<and>
     locks.accounted c"

lemma cache_inv_init: "cache_inv OPoICache_init"
  by (simp add: cache_inv_def OPoICache_init_def locks.accounted_def IsLockedUTXO_def)

text \<open>Locks depend on two members only.\<close>

lemma accounted_cong:
  "mapLockedUTXOs c' = mapLockedUTXOs c \<Longrightarrow> mapLockingTxHash c' = mapLockingTxHash c \<Longrightarrow>
   locks.accounted c' = locks.accounted c"
  by (simp add: locks.accounted_def IsLockedUTXO_def GetLockingTxHash_def)

lemma accounted_update [simp]:
  "locks.accounted (c\<lparr>mapRequests := a1\<rparr>) = locks.accounted c"
  "locks.accounted (c\<lparr>mapResponses := a2\<rparr>) = locks.accounted c"
  "locks.accounted (c\<lparr>mapResponseCommits := a3\<rparr>) = locks.accounted c"
  "locks.accounted (c\<lparr>mapResponseCommitTxHash := a4\<rparr>) = locks.accounted c"
  "locks.accounted (c\<lparr>mapResponseCommitHeight := a5\<rparr>) = locks.accounted c"
  "locks.accounted (c\<lparr>mapStakes := a6\<rparr>) = locks.accounted c"
  "locks.accounted (c\<lparr>mapChallenges := a7\<rparr>) = locks.accounted c"
  "locks.accounted (c\<lparr>mapAuditorVerifications := a8\<rparr>) = locks.accounted c"
  "locks.accounted (c\<lparr>mapShardAuditorVerifications := a9\<rparr>) = locks.accounted c"
  "locks.accounted (c\<lparr>mapModelManifests := b1\<rparr>) = locks.accounted c"
  "locks.accounted (c\<lparr>mapModelVotes := b2\<rparr>) = locks.accounted c"
  "locks.accounted (c\<lparr>mapCoordinatorClaims := b3\<rparr>) = locks.accounted c"
  "locks.accounted (c\<lparr>mapShardResults := b4\<rparr>) = locks.accounted c"
  "locks.accounted (c\<lparr>setPaidShards := b5\<rparr>) = locks.accounted c"
  "locks.accounted (c\<lparr>setResolvedAuditorVerifications := b6\<rparr>) = locks.accounted c"
  "locks.accounted (c\<lparr>setResolvedShardAuditorVerifications := b7\<rparr>) = locks.accounted c"
  "locks.accounted (c\<lparr>setPaidResponses := b8\<rparr>) = locks.accounted c"
  "locks.accounted (c\<lparr>setPaidChallengerRewards := b9\<rparr>) = locks.accounted c"
  "locks.accounted (c\<lparr>mapPendingDeliveries := c1\<rparr>) = locks.accounted c"
  "locks.accounted (c\<lparr>setKnownOPoIDataHashes := c2\<rparr>) = locks.accounted c"
  "locks.accounted (c\<lparr>mapContentByKey := c3\<rparr>) = locks.accounted c"
  by (simp_all add: locks.accounted_def IsLockedUTXO_def GetLockingTxHash_def)

lemma push_once_set: "x \<in> set (push_once who rs r) \<Longrightarrow> x \<in> set rs \<or> x = r"
  by (auto simp: push_once_def split: if_splits)

lemma inv_accounted: "cache_inv c \<Longrightarrow> locks.accounted c"
  by (simp add: cache_inv_def)

lemma inv_LockUTXO:
  assumes "cache_inv c"
  shows "cache_inv (LockUTXO out a h c)"
proof -
  have "locks.accounted (LockUTXO out a h c)"
    by (rule locks.accounted_lock) (rule inv_accounted [OF assms])
  with assms show ?thesis unfolding cache_inv_def LockUTXO_def by (simp add: wf_put)
qed

lemma inv_UnlockUTXO:
  assumes "cache_inv c"
  shows "cache_inv (UnlockUTXO out c)"
proof -
  have "locks.accounted (UnlockUTXO out c)"
    by (rule locks.accounted_unlock) (rule inv_accounted [OF assms])
  with assms show ?thesis unfolding cache_inv_def UnlockUTXO_def by (simp add: wf_erase)
qed

lemma inv_vecs:
  assumes "cache_inv c"
  shows "results_ok k (vec_at (mapShardResults c) k)"
    and "claims_ok k (vec_at (mapCoordinatorClaims c) k)"
    and "verifs_ok k (vec_at (mapAuditorVerifications c) k)"
    and "shard_verifs_ok k (vec_at (mapShardAuditorVerifications c) k)"
  using assms wf_vec_at [of results_ok "mapShardResults c" k] wf_vec_at [of claims_ok "mapCoordinatorClaims c" k]
    wf_vec_at [of verifs_ok "mapAuditorVerifications c" k]
    wf_vec_at [of shard_verifs_ok "mapShardAuditorVerifications c" k]
  by (simp_all add: cache_inv_def results_ok_def claims_ok_def verifs_ok_def shard_verifs_ok_def)

lemma inv_AddShardResult: "cache_inv c \<Longrightarrow> cache_inv (AddShardResult r i s c)"
proof -
  assume inv: "cache_inv c"
  then have "results_ok (ShardKey r i) (vec_at (mapShardResults c) (ShardKey r i))"
    by (simp add: inv_vecs)
  then have "results_ok (ShardKey r i)
      (push_once sr_minerAddress (vec_at (mapShardResults c) (ShardKey r i)) s)"
    by (simp add: results_ok_def result_box.add_distinct)
  with inv show ?thesis by (simp add: cache_inv_def AddShardResult_def wf_put)
qed

lemma inv_registers:
  "cache_inv (MarkShardPaid r i c) = cache_inv c"
  "cache_inv (UnmarkShardPaid r i c) = cache_inv c"
  "cache_inv (MarkResponsePaid r c) = cache_inv c"
  "cache_inv (UnmarkResponsePaid r c) = cache_inv c"
  "cache_inv (MarkChallengerRewardPaid r c) = cache_inv c"
  "cache_inv (UnmarkChallengerRewardPaid r c) = cache_inv c"
  "cache_inv (MarkAuditorResolved r c) = cache_inv c"
  "cache_inv (UnmarkAuditorResolved r c) = cache_inv c"
  "cache_inv (MarkShardAuditorResolved r i c) = cache_inv c"
  "cache_inv (UnmarkShardAuditorResolved r i c) = cache_inv c"
  "cache_inv (MarkOPoIDataHashKnown h c) = cache_inv c"
  by (simp_all add: cache_inv_def cache_defs)

lemma inv_AddCoordinatorClaim: "cache_inv c \<Longrightarrow> cache_inv (AddCoordinatorClaim cl c)"
proof -
  assume inv: "cache_inv c"
  then have "claims_ok (cl_requestId cl) (vec_at (mapCoordinatorClaims c) (cl_requestId cl))"
    by (simp add: inv_vecs)
  then have "claims_ok (cl_requestId cl)
      (push_once cl_minerAddress (vec_at (mapCoordinatorClaims c) (cl_requestId cl)) cl)"
    by (auto simp: claims_ok_def claim_box.add_distinct dest: push_once_set)
  with inv show ?thesis by (simp add: cache_inv_def AddCoordinatorClaim_def wf_put)
qed

lemma inv_AddModelManifest: "cache_inv c \<Longrightarrow> cache_inv (AddModelManifest m c)"
  by (simp add: cache_inv_def AddModelManifest_def wf_put)

lemma inv_SetModelManifestStatus: "cache_inv c \<Longrightarrow> cache_inv (SetModelManifestStatus i s h c)"
  by (simp add: cache_inv_def SetModelManifestStatus_def wf_modify)

lemma inv_AddModelVote: "cache_inv c \<Longrightarrow> cache_inv (AddModelVote i r c)"
proof -
  assume inv: "cache_inv c"
  then have "wf_map votes_ok (mapModelVotes c)" by (simp add: cache_inv_def)
  then have "votes_ok i (case sm_find (mapModelVotes c) i of None \<Rightarrow> [] | Some vs \<Rightarrow> vs)"
    by (cases "sm_find (mapModelVotes c) i") (simp_all add: votes_ok_def wf_map_def)
  then have "votes_ok i (sm_put (vr_voterAddress r) r
      (case sm_find (mapModelVotes c) i of None \<Rightarrow> [] | Some vs \<Rightarrow> vs))"
    by (simp add: votes_ok_def wf_put)
  with inv show ?thesis
    by (cases "sm_find (mapModelManifests c) i") (simp_all add: cache_inv_def AddModelVote_def wf_put)
qed

lemma request_ok_update [simp]:
  "request_ok k (r\<lparr>rq_status := s\<rparr>) = request_ok k r"
  "request_ok k (r\<lparr>rq_commitWindowClosed := b\<rparr>) = request_ok k r"
  by (simp_all add: request_ok_def)

lemma request_ok_maps:
  "request_ok k r \<Longrightarrow> sm_ok m \<Longrightarrow> request_ok k (r\<lparr>rq_responseCommits := m\<rparr>)"
  "request_ok k r \<Longrightarrow> sm_ok m \<Longrightarrow> request_ok k (r\<lparr>rq_responseReveals := m\<rparr>)"
  "request_ok k r \<Longrightarrow> sm_ok (rq_responseCommits r)"
  "request_ok k r \<Longrightarrow> sm_ok (rq_responseReveals r)"
  by (simp_all add: request_ok_def)

lemma inv_AddRequest: "cache_inv c \<Longrightarrow> request_ok (rq_requestId r) r \<Longrightarrow> cache_inv (AddRequest r c)"
  by (simp add: cache_inv_def AddRequest_def wf_put)

lemma inv_AddResponse: "cache_inv c \<Longrightarrow> cache_inv (AddResponse r c)"
  by (simp add: cache_inv_def AddResponse_def wf_put wf_modify)

lemma inv_AddResponseCommit: "cache_inv c \<Longrightarrow> cache_inv (AddResponseCommit r a h b t c)"
  by (simp add: cache_inv_def AddResponseCommit_def wf_put wf_modify request_ok_maps)

lemma inv_AddStake: "cache_inv c \<Longrightarrow> cache_inv (AddStake s c)"
  by (simp add: cache_inv_def AddStake_def wf_put)

lemma inv_StartUnstake: "cache_inv c \<Longrightarrow> cache_inv (StartUnstake a h t c)"
  by (simp add: cache_inv_def StartUnstake_def wf_modify)

lemma inv_AddChallenge: "cache_inv c \<Longrightarrow> cache_inv (AddChallenge h c)"
  by (simp add: cache_inv_def AddChallenge_def wf_put)

lemma inv_AddAuditorVerification:
  "cache_inv c \<Longrightarrow> \<not> IsShardScoped fv \<Longrightarrow> cache_inv (AddAuditorVerification fv c)"
proof -
  assume inv: "cache_inv c" and fv: "\<not> IsShardScoped fv"
  then have "verifs_ok (av_requestId fv) (vec_at (mapAuditorVerifications c) (av_requestId fv))"
    by (simp add: inv_vecs)
  with fv have "verifs_ok (av_requestId fv)
      (push_once av_auditorAddress (vec_at (mapAuditorVerifications c) (av_requestId fv)) fv)"
    by (auto simp: verifs_ok_def vote_box.add_distinct dest: push_once_set)
  with inv have "cache_inv (c\<lparr>mapAuditorVerifications := sm_put (av_requestId fv)
      (push_once av_auditorAddress (vec_at (mapAuditorVerifications c) (av_requestId fv)) fv)
      (mapAuditorVerifications c)\<rparr>)"
    by (simp add: cache_inv_def wf_put)
  then show ?thesis by (simp add: AddAuditorVerification_def Let_def inv_LockUTXO)
qed

lemma inv_AddShardAuditorVerification:
  assumes inv: "cache_inv c" and fv: "IsShardScoped fv" "av_requestId fv = r" "av_shardIndex fv = i"
  shows "cache_inv (AddShardAuditorVerification r i fv c)"
proof -
  from inv have "shard_verifs_ok (ShardKey r i) (vec_at (mapShardAuditorVerifications c) (ShardKey r i))"
    by (simp add: inv_vecs)
  with fv have "shard_verifs_ok (ShardKey r i)
      (push_once av_auditorAddress (vec_at (mapShardAuditorVerifications c) (ShardKey r i)) fv)"
    by (auto simp: shard_verifs_ok_def vote_box.add_distinct dest: push_once_set)
  with inv have "cache_inv (c\<lparr>mapShardAuditorVerifications := sm_put (ShardKey r i)
      (push_once av_auditorAddress (vec_at (mapShardAuditorVerifications c) (ShardKey r i)) fv)
      (mapShardAuditorVerifications c)\<rparr>)"
    by (simp add: cache_inv_def wf_put)
  then show ?thesis by (simp add: AddShardAuditorVerification_def Let_def inv_LockUTXO)
qed

lemma inv_AddPendingDelivery: "cache_inv c \<Longrightarrow> cache_inv (AddPendingDelivery a d c)"
  by (simp add: cache_inv_def AddPendingDelivery_def wf_put)

lemma inv_AddContent: "cache_inv c \<Longrightarrow> cache_inv (AddContent r k p c)"
  by (simp add: cache_inv_def AddContent_def wf_put)

lemma inv_Prune: "cache_inv c \<Longrightarrow> cache_inv (PruneExpiredPendingDeliveries c)"
  by (simp add: cache_inv_def PruneExpiredPendingDeliveries_def wf_filter wf_update_all)

lemma inv_Drain: "cache_inv c \<Longrightarrow> cache_inv (snd (GetAndDrainPendingDeliveries a c))"
  by (cases "sm_find (mapPendingDeliveries c) a")
    (simp_all add: cache_inv_def GetAndDrainPendingDeliveries_def wf_erase)

lemmas inv_ops = inv_LockUTXO inv_UnlockUTXO inv_AddShardResult inv_AddCoordinatorClaim
  inv_AddModelManifest inv_SetModelManifestStatus inv_AddModelVote inv_AddRequest inv_AddResponse
  inv_AddResponseCommit inv_AddStake inv_StartUnstake inv_AddChallenge inv_AddAuditorVerification
  inv_AddShardAuditorVerification inv_AddPendingDelivery inv_AddContent inv_Prune inv_Drain

end
