(* ===== verification/Opoi_Sortition.thy ===== *)
theory Opoi_Sortition
  imports Opoi_Cache
begin

text \<open>
  The checks of \<^verbatim>\<open>opoi/opoi.cpp\<close> that rest on cryptographic primitives: signatures
  (\<^verbatim>\<open>VerifyOPoISig\<close>), the VRF sortition and its adaptive threshold, and the audit sample drawn
  after a commit. The primitives are the fields of \<open>opoi_env\<close>; everything around them
  (messages, seeds, thresholds, comparisons) is defined.

  The lemmas show that the adaptive threshold is the intended fraction of the range and
  never overflows, and who is exempt from or certain to be in the audit sample.
\<close>

section \<open>Signatures\<close>

text \<open>\<open>Some\<close> of the recovered public key when the signature is by the address, \<open>None\<close> otherwise.\<close>

definition VerifyOPoISig :: "opoi_env \<Rightarrow> address \<Rightarrow> string \<Rightarrow> bytes \<Rightarrow> bytes option" where
  "VerifyOPoISig e addr message vchSig =
     (if vchSig = [] then None
      else case decode_keyid e addr of
        None \<Rightarrow> None
      | Some keyID \<Rightarrow>
          (case recover_compact e (hash256 e (ser_string strMessageMagic @ ser_string message)) vchSig of
             None \<Rightarrow> None
           | Some recovered \<Rightarrow> if key_id e recovered \<noteq> keyID then None else Some recovered))"

definition IsHarmlessRedelivery :: "OPoICache \<Rightarrow> COutPoint \<Rightarrow> uint256 \<Rightarrow> bool" where
  "IsHarmlessRedelivery c collateral txHash =
     (case GetLockingTxHash c collateral of None \<Rightarrow> False | Some h \<Rightarrow> h = txHash)"

section \<open>VRF sortition\<close>

text \<open>\<^verbatim>\<open>~arith_uint256(0)\<close>, and the converting constructor from an unsigned integer.\<close>

definition arith_max :: arith_uint256 where "arith_max = NOT 0"

definition arith_of_u32 :: "u32 \<Rightarrow> arith_uint256" where "arith_of_u32 w = word_of_nat (unat w)"

definition OPOI_VRF_PROOF_SIZE :: nat where "OPOI_VRF_PROOF_SIZE = 81"

text \<open>The result is the rejection reason, \<open>None\<close> when the miner is eligible.\<close>

definition CheckVrfSortition ::
  "opoi_env \<Rightarrow> OPoICache \<Rightarrow> address \<Rightarrow> string \<Rightarrow> uint256 \<Rightarrow> string \<Rightarrow> bytes \<Rightarrow> string \<Rightarrow> string option" where
  "CheckVrfSortition e c minerAddress requestId seedBlockHash seedSuffix vrfProof thresholdHex =
     (case GetStake c minerAddress of
        None \<Rightarrow> Some ''no-pubkey''
      | Some stake \<Rightarrow>
          if length (st_minerPubKey stake) \<noteq> 33 then Some ''no-pubkey''
          else if length vrfProof \<noteq> OPOI_VRF_PROOF_SIZE then Some ''no-vrf-proof''
          else
            let seed = sha256 e (seedBlockHash @ str_bytes requestId @ str_bytes seedSuffix)
            in case vrf_verify e (st_minerPubKey stake) seed vrfProof of
                 None \<Rightarrow> Some ''vrf-invalid''
               | Some vrfOutput \<Rightarrow>
                   if UintToArith256 vrfOutput < UintToArith256 (SetHex thresholdHex) then None
                   else Some ''miner-not-eligible'')"

definition OPoIVrfThresholdForRequest :: "OPoICache \<Rightarrow> string \<Rightarrow> Params \<Rightarrow> string" where
  "OPoIVrfThresholdForRequest c requestId params =
     (if nOPoIAdaptiveVrfHeight params \<le> 0 then nOPoIVrfThreshold params
      else case GetRequest c requestId of
        None \<Rightarrow> nOPoIVrfThreshold params
      | Some req \<Rightarrow>
          if rq_blockHeight req < word_of_int (nOPoIAdaptiveVrfHeight params) then nOPoIVrfThreshold params
          else
            let stakers = rq_vrfActiveStakers req;
                target = (word_of_int (max 1 (nOPoIVrfTargetEligible params)) :: u32)
            in if stakers \<le> target then replicate 64 CHR ''f''
               else GetHex (ArithToUint256
                      (arith_max div arith_of_u32 stakers * arith_of_u32 target)))"

definition GetOPoIRequestSeedHash :: "opoi_env \<Rightarrow> OPoICache \<Rightarrow> string \<Rightarrow> uint256 option" where
  "GetOPoIRequestSeedHash e c requestId =
     (case GetRequest c requestId of
        None \<Rightarrow> None
      | Some req \<Rightarrow> chain_hash e (sint (rq_blockHeight req)))"

section \<open>Audit sample\<close>

definition GetOPoIAuditSampleSeedHash :: "opoi_env \<Rightarrow> u32 \<Rightarrow> uint256 option" where
  "GetOPoIAuditSampleSeedHash e commitHeight = chain_hash e (sint (commitHeight + 1))"

definition ComputeOPoIAuditSampleSelected :: "opoi_env \<Rightarrow> bytes \<Rightarrow> uint256 \<Rightarrow> int \<Rightarrow> bool" where
  "ComputeOPoIAuditSampleSelected e commitmentHashBytes seedHash rateBp =
     (if rateBp \<le> 0 then False
      else if 10000 \<le> rateBp then True
      else if length commitmentHashBytes \<noteq> 32 then False
      else
        let sorteio = sha256 e (commitmentHashBytes @ seedHash);
            threshold = arith_max div 10000 * word_of_int rateBp
        in UintToArith256 sorteio < threshold)"

text \<open>The returned flag, \<^verbatim>\<open>outSelected\<close> and \<^verbatim>\<open>outDeadline\<close>.\<close>

definition EvaluateOPoIAuditSample ::
  "opoi_env \<Rightarrow> OPoICache \<Rightarrow> string \<Rightarrow> address \<Rightarrow> u32 \<Rightarrow> Params \<Rightarrow> bool \<times> bool \<times> u32" where
  "EvaluateOPoIAuditSample e c requestId minerAddress currentHeight params =
     (case GetRequest c requestId of
        None \<Rightarrow> (False, False, 0)
      | Some req \<Rightarrow>
          if rq_IsVerifiable req then (True, False, 0)
          else case GetResponseCommitHeight c requestId minerAddress of
            None \<Rightarrow> (False, False, 0)
          | Some commitHeight \<Rightarrow>
              (case GetResponseCommit c requestId minerAddress of
                 None \<Rightarrow> (False, False, 0)
               | Some commitHashHex \<Rightarrow>
                   (case GetOPoIAuditSampleSeedHash e commitHeight of
                      None \<Rightarrow> (False, False, 0)
                    | Some seedHash \<Rightarrow>
                        let responsesSoFar =
                              (case GetStake c minerAddress of None \<Rightarrow> 0 | Some s \<Rightarrow> st_responsesTotal s);
                            rateBp =
                              (if responsesSoFar < nOPoIAuditSampleNewMinerResponseCount params
                               then nOPoIAuditSampleRateNewMinerBp params
                               else nOPoIAuditSampleRateBp params);
                            selected = ComputeOPoIAuditSampleSelected e (ParseHex commitHashHex) seedHash rateBp
                        in (True, selected,
                            if selected then currentHeight + word_of_int (max 1 (nOPoIAuditWindowBlocks params))
                            else 0))))"

section \<open>Properties\<close>

lemma length_ArithToUint256 [simp]: "length (ArithToUint256 w) = 32"
  by (simp add: ArithToUint256_def)

lemma threshold_text: "UintToArith256 (SetHex (GetHex (ArithToUint256 w))) = w"
  by (simp add: SetHex_GetHex UintToArith256_ArithToUint256)

lemma unat_arith_of_u32: "unat (arith_of_u32 w) = unat w"
proof -
  have "unat w < 2 ^ 256" using unat_u32 [of w] by (rule order.strict_trans) simp
  moreover have "unat (arith_of_u32 w) = unat w mod 2 ^ LENGTH(256)"
    unfolding arith_of_u32_def by (rule unat_of_nat)
  ultimately show ?thesis by simp
qed

lemma unat_arith_max: "unat arith_max = 2 ^ 256 - 1"
  by (simp add: arith_max_def unsigned_minus_1_eq_mask mask_eq_exp_minus_1)

lemma unat_times_less: "unat a * unat b < 2 ^ 256 \<Longrightarrow> unat (a * b :: arith_uint256) = unat a * unat b"
  by (simp add: unat_word_ariths)

lemma share_of_range:
  assumes "t < s"
  shows "unat (arith_max div arith_of_u32 s * arith_of_u32 t) = (2 ^ 256 - 1) div unat s * unat t"
proof -
  let ?M = "2 ^ 256 - 1 :: nat"
  from assms have ts: "unat t < unat s" by (simp add: word_less_nat_alt)
  have d: "unat (arith_max div arith_of_u32 s) = ?M div unat s"
    by (simp only: unat_div unat_arith_max unat_arith_of_u32)
  have "?M div unat s * unat t \<le> ?M div unat s * unat s" using ts by simp
  also have "\<dots> \<le> ?M" by (rule div_times_less_eq_dividend)
  finally have "?M div unat s * unat t < 2 ^ 256" by (rule le_less_trans) simp
  then show ?thesis
    using unat_times_less [of "arith_max div arith_of_u32 s" "arith_of_u32 t"]
    by (simp only: d unat_arith_of_u32)
qed

text \<open>
  The adaptive VRF threshold. For a request at or above the activation height with more
  active stakers than the target, the number the sortition compares against is
  \<open>(2 ^ 256 - 1) div stakers * target\<close>: nothing overflows, the hexadecimal text the threshold
  travels in loses nothing, and the eligible share of the range is \<open>target / stakers\<close> up to
  the rounding of the division.
\<close>

theorem adaptive_threshold:
  assumes "0 < nOPoIAdaptiveVrfHeight params" "GetRequest c requestId = Some req"
    and "word_of_int (nOPoIAdaptiveVrfHeight params) \<le> rq_blockHeight req"
    and "target = (word_of_int (max 1 (nOPoIVrfTargetEligible params)) :: u32)" "0 < target"
    and "target < rq_vrfActiveStakers req"
    and "T = unat (UintToArith256 (SetHex (OPoIVrfThresholdForRequest c requestId params)))"
  shows "T = (2 ^ 256 - 1) div unat (rq_vrfActiveStakers req) * unat target \<and>
    T * unat (rq_vrfActiveStakers req) \<le> (2 ^ 256 - 1) * unat target \<and>
    (2 ^ 256 - 1) * unat target < (T + unat target) * unat (rq_vrfActiveStakers req)"
proof -
  define s t M where "s = unat (rq_vrfActiveStakers req)" and "t = unat target" and "M = (2 ^ 256 - 1 :: nat)"
  have "\<not> rq_vrfActiveStakers req \<le> target" "\<not> rq_blockHeight req < word_of_int (nOPoIAdaptiveVrfHeight params)"
    using assms(3,6) by simp_all
  then have "OPoIVrfThresholdForRequest c requestId params =
      GetHex (ArithToUint256 (arith_max div arith_of_u32 (rq_vrfActiveStakers req) * arith_of_u32 target))"
    using assms(1,2,4) by (simp add: OPoIVrfThresholdForRequest_def Let_def)
  then have T: "T = M div s * t"
    using assms(6,7) by (simp only: threshold_text share_of_range s_def t_def M_def)
  have s: "0 < s" and t: "0 < t" using assms(5,6) by (simp_all add: s_def t_def word_less_nat_alt)
  have 1: "T * s \<le> M * t"
    unfolding T by (metis div_times_less_eq_dividend mult.assoc mult.commute mult_le_mono2)
  have "M < (M div s + 1) * s" using s
    by (metis Suc_eq_plus1 dividend_less_div_times mult.commute mult_Suc_right add.commute)
  then have "M * t < (M div s + 1) * s * t" using t by simp
  also have "\<dots> = (T + t) * s" unfolding T by (simp add: algebra_simps)
  finally show ?thesis using T 1 unfolding s_def t_def M_def by blast
qed

definition sample_request :: OPoIRequest where
  "sample_request = \<lparr>rq_requestId = ''r'', rq_requester = ''u'', rq_model = ''m'', rq_promptHash = [1],
     rq_maxTokens = 10, rq_payment = 100, rq_feePerToken = 2, rq_taskType = OPOI_TASK_OPEN, rq_taskClass = 0,
     rq_promptTokenCount = 1, rq_isCanary = 0, rq_testSuite = uint256_zero, rq_blockHeight = 200,
     rq_sigTime = 0, rq_txHash = [9], rq_status = RQ_PENDING, rq_responseCommits = [],
     rq_responseReveals = [], rq_commitWindowClosed = False, rq_vrfActiveStakers = 10\<rparr>"

definition regtest_params :: Params where
  "regtest_params = \<lparr>nSubsidySlowStartInterval = 0, nSubsidyHalvingInterval = 150, nOPoIMinStake = 100000000,
     nOPoIUnstakeCooldownBlocks = 10, nOPoIChallengerRewardPct = 50, nOPoITreasuryRewardPct = 50,
     nOPoIChallengeCommitRevealBlocks = 3, nOPoIResponseCommitWindowBlocks = 3, nOPoIRequestExpiryBlocks = 20,
     nOPoIMinAuditors = 1, nOPoIVrfThreshold = CHR ''e'' # replicate 63 CHR ''0'',
     nOPoIAdaptiveVrfHeight = 200, nOPoIVrfTargetEligible = 3, nOPoIModelVoteWindowBlocks = 5,
     nOPoIModelApprovalPct = 66, nOPoIModelActivationDelayBlocks = 2,
     nOPoICoordinatorThreshold = CHR ''e'' # replicate 63 CHR ''0'',
     nOPoIShardThreshold = CHR ''e'' # replicate 63 CHR ''0'', nOPoIShardMinSubmissions = 2,
     nOPoIMaxPipelineDepth = 3, nOPoITitanOffloadThresholdGB = 1, nOPoIMaxRequestsPerBlock = 3,
     nOPoIMaxResponsesPerBlock = 5, nOPoIStakeRenewalBlocks = 10, nOPoICanaryAuditFrequency = 14,
     nOPoICanaryResponseWindow = 12, nOPoIAuditSampleRateBp = 1500, nOPoIAuditSampleRateNewMinerBp = 10000,
     nOPoIAuditSampleNewMinerResponseCount = 5, nOPoIAuditWindowBlocks = 12, nOPoIFeeBase = 10000,
     nOPoIFeePerToken = 1000, UPGRADE_OPOI_height = 1\<rparr>"

theorem adaptive_threshold_witness:
  "unat (UintToArith256 (SetHex (OPoIVrfThresholdForRequest
     (OPoICache_init\<lparr>mapRequests := [(''r'', sample_request)]\<rparr>) ''r'' regtest_params))) =
   (2 ^ 256 - 1) div 10 * 3"
proof -
  let ?c = "OPoICache_init\<lparr>mapRequests := [(''r'', sample_request)]\<rparr>"
  have w: "word_of_int (max 1 (nOPoIVrfTargetEligible regtest_params)) = (3 :: u32)" by code_simp
  have "T = unat (UintToArith256 (SetHex (OPoIVrfThresholdForRequest ?c ''r'' regtest_params))) \<Longrightarrow>
      T = (2 ^ 256 - 1) div unat (rq_vrfActiveStakers sample_request) * unat (3 :: u32)" for T
    using adaptive_threshold [of regtest_params ?c "''r''" sample_request 3 T]
    unfolding w by (simp add: regtest_params_def sample_request_def GetRequest_def)
  then show ?thesis by (simp add: sample_request_def)
qed

lemma audit_sample_cases:
  "EvaluateOPoIAuditSample e c r m h p = (ok, sel, dl) \<Longrightarrow>
     (sel \<longrightarrow> ok \<and> (\<exists>req. GetRequest c r = Some req \<and> \<not> rq_IsVerifiable req) \<and>
        dl = h + word_of_int (max 1 (nOPoIAuditWindowBlocks p))) \<and> (\<not> sel \<longrightarrow> dl = 0)"
  by (auto simp: EvaluateOPoIAuditSample_def Let_def split: option.splits if_splits)

lemma deadline_after:
  assumes "0 < w" "w < 2 ^ 31" "unat h + nat w < 2 ^ 32"
  shows "(h :: u32) < h + word_of_int w"
proof -
  have "uint (word_of_int w :: u32) = w" using assms by (simp add: uint_word_of_int)
  then have "unat (word_of_int w :: u32) = nat w" by (simp add: unat_eq_nat_uint)
  with assms show ?thesis by (simp add: word_less_nat_alt unat_word_ariths)
qed

text \<open>
  The audit sample. A response to a VERIFIABLE request is never drawn (every such response
  is audited anyway); a rate of zero or less draws nobody and a rate of 10000 basis points or
  more draws every committed response whose seed block exists; a response that is drawn gets
  a deadline after the current height, unless the 32-bit height itself wraps.
\<close>

theorem audit_sample_rules:
  assumes "EvaluateOPoIAuditSample e c requestId minerAddress h params = (ok, selected, deadline)"
    and "nOPoIAuditWindowBlocks params < 2 ^ 31"
    and "unat h + nat (max 1 (nOPoIAuditWindowBlocks params)) < 2 ^ 32"
  shows "(selected \<longrightarrow> h < deadline) \<and> (\<not> selected \<longrightarrow> deadline = 0) \<and>
    (GetRequest c requestId = Some req \<and> rq_IsVerifiable req \<longrightarrow> \<not> selected) \<and>
    (nOPoIAuditSampleRateBp params \<le> 0 \<and> nOPoIAuditSampleRateNewMinerBp params \<le> 0 \<longrightarrow> \<not> selected) \<and>
    (10000 \<le> nOPoIAuditSampleRateBp params \<and> 10000 \<le> nOPoIAuditSampleRateNewMinerBp params \<and>
     GetRequest c requestId = Some req \<and> \<not> rq_IsVerifiable req \<and> ok \<longrightarrow> selected)"
proof -
  from audit_sample_cases [OF assms(1)] have dl: "selected \<longrightarrow> deadline = h + word_of_int (max 1 (nOPoIAuditWindowBlocks params))"
    "\<not> selected \<longrightarrow> deadline = 0" "selected \<longrightarrow> (\<exists>req. GetRequest c requestId = Some req \<and> \<not> rq_IsVerifiable req)"
    by auto
  have "selected \<longrightarrow> h < deadline"
    using dl(1) deadline_after [of "max 1 (nOPoIAuditWindowBlocks params)" h] assms(2,3) by simp
  moreover have "nOPoIAuditSampleRateBp params \<le> 0 \<and> nOPoIAuditSampleRateNewMinerBp params \<le> 0 \<longrightarrow> \<not> selected"
    using assms(1) by (auto simp: EvaluateOPoIAuditSample_def ComputeOPoIAuditSampleSelected_def Let_def
        split: option.splits if_splits)
  moreover have "10000 \<le> nOPoIAuditSampleRateBp params \<and> 10000 \<le> nOPoIAuditSampleRateNewMinerBp params \<and>
     GetRequest c requestId = Some req \<and> \<not> rq_IsVerifiable req \<and> ok \<longrightarrow> selected"
    using assms(1) by (auto simp: EvaluateOPoIAuditSample_def ComputeOPoIAuditSampleSelected_def Let_def
        split: option.splits if_splits)
  ultimately show ?thesis using dl by auto
qed

definition sample_env :: opoi_env where
  "sample_env = \<lparr>sha256 = (\<lambda>bs. take 32 (rev bs) @ replicate (32 - length bs) 0), decode_keyid = (\<lambda>a. Some (str_bytes a)),
     recover_compact = (\<lambda>h sig. Some sig), key_id = (\<lambda>b. b),
     vrf_verify = (\<lambda>pk seed proof. Some (replicate 32 0)), script_for = (\<lambda>a. Some (str_bytes a)),
     chain_hash = (\<lambda>h. if 0 \<le> h \<and> h < 1000 then Some (replicate 32 5) else None),
     treasury_address = ''treasury'', fIsVerifying = False\<rparr>"

theorem audit_sample_rules_witness:
  "\<exists>deadline. EvaluateOPoIAuditSample sample_env
     (OPoICache_init\<lparr>mapRequests := [(''r'', sample_request)], mapResponseCommitHeight := [(''r:a'', 201)],
        mapResponseCommits := [(''r:a'', HexStr (replicate 32 7))]\<rparr>) ''r'' ''a'' 210 regtest_params =
     (True, True, deadline) \<and> 210 < deadline"
proof -
  let ?c = "OPoICache_init\<lparr>mapRequests := [(''r'', sample_request)], mapResponseCommitHeight := [(''r:a'', 201)],
        mapResponseCommits := [(''r:a'', HexStr (replicate 32 7))]\<rparr>"
  have ev: "EvaluateOPoIAuditSample sample_env ?c ''r'' ''a'' 210 regtest_params = (True, True, 222)" by code_simp
  from audit_sample_rules [OF ev, of sample_request] have "(210 :: u32) < 222"
    by (simp add: regtest_params_def)
  with ev show ?thesis by blast
qed

end
