(* ===== verification/Cs_Subsidy.thy ===== *)
theory Cs_Subsidy
  imports Opoi_Sortition
begin

text \<open>
  The block subsidy and what is derived from it (\<^verbatim>\<open>main.cpp\<close>): \<^verbatim>\<open>GetBlockSubsidy\<close>, the share of
  it reserved for OPoI payments (computed in floating point by \<^verbatim>\<open>CheckOPoIPayments\<close> and
  \<^verbatim>\<open>CreateNewBlock\<close>), and the intervals at which the funds are paid.

  The lemmas give the emission schedule, bound the total emission by \<^verbatim>\<open>MAX_MONEY\<close>, show that
  the floating-point share is exactly a tenth on the schedule, and give the closed form of
  the fund intervals.
\<close>

definition COIN :: int where "COIN = 100000000"

definition MAX_MONEY :: int where "MAX_MONEY = 2000000000 * COIN"

definition MoneyRange :: "int \<Rightarrow> bool" where
  "MoneyRange v \<longleftrightarrow> 0 \<le> v \<and> v \<le> MAX_MONEY"

definition SubsidySlowStartShift :: "Params \<Rightarrow> int" where
  "SubsidySlowStartShift p = cdiv (nSubsidySlowStartInterval p) 2"

text \<open>\<open>None\<close> is the failed assertion that the height is past the slow start.\<close>

definition GetBlockSubsidy :: "int \<Rightarrow> Params \<Rightarrow> int option" where
  "GetBlockSubsidy nHeight p =
     (let nSubsidy = 150 * COIN
      in if nHeight = 1 then Some (13020000 * COIN)
         else if nHeight < cdiv (nSubsidySlowStartInterval p) 2
         then Some (wrap64 (cdiv nSubsidy (nSubsidySlowStartInterval p) * nHeight))
         else if nHeight < nSubsidySlowStartInterval p
         then Some (wrap64 (cdiv nSubsidy (nSubsidySlowStartInterval p) * (nHeight + 1)))
         else if \<not> SubsidySlowStartShift p < nHeight then None
         else let halvings = cdiv (nHeight - SubsidySlowStartShift p) (nSubsidyHalvingInterval p)
              in if 64 \<le> halvings then Some 0
                 else if 2 \<le> halvings then Some (nSubsidy div 2 ^ 2)
                 else Some (nSubsidy div 2 ^ nat halvings))"

text \<open>
  \<^verbatim>\<open>static_cast<CAmount>(blockSubsidy * params.nOPoISubsidyPct)\<close> with the constant
  \<^verbatim>\<open>nOPoISubsidyPct = 0.10\<close>: the double nearest to 0.10 is \<open>3602879701896397 / 2 ^ 55\<close>; the
  product is rounded to 53 bits and truncated.
\<close>

definition opoi_budget :: "int \<Rightarrow> int" where
  "opoi_budget blockSubsidy = cdiv (round53 (round53 blockSubsidy * 3602879701896397)) (2 ^ 55)"

text \<open>
  \<^verbatim>\<open>IsSwapPoolInterval\<close>, \<^verbatim>\<open>IsDevFundInterval\<close> and \<^verbatim>\<open>IsMarketingFundInterval\<close> have the same body over the
  start height, interval and count of their fund.
\<close>

definition fund_interval :: "int \<Rightarrow> int \<Rightarrow> int \<Rightarrow> int \<Rightarrow> bool" where
  "fund_interval nStartHeight nInterval nMaxTimes nHeight =
     (if nHeight < nStartHeight then False
      else if nStartHeight + nInterval * nMaxTimes < nHeight then False
      else list_ex (\<lambda>i. nHeight = nStartHeight + nInterval * i) [0..nMaxTimes - 1])"

text \<open>\<^verbatim>\<open>GetExchangeFundAmount\<close> and \<^verbatim>\<open>GetFoundationFundAmount\<close>: the fund's amount at its height.\<close>

definition fund_amount :: "int \<Rightarrow> int \<Rightarrow> int \<Rightarrow> int" where
  "fund_amount nFundAmount nFundHeight nHeight = (if nHeight = nFundHeight then nFundAmount else 0)"

section \<open>Schedule\<close>

definition subsidy :: "int \<Rightarrow> Params \<Rightarrow> int" where
  "subsidy h p = (case GetBlockSubsidy h p of None \<Rightarrow> 0 | Some s \<Rightarrow> s)"

definition mainnet_schedule :: "Params \<Rightarrow> bool" where
  "mainnet_schedule p \<longleftrightarrow> nSubsidySlowStartInterval p = 20000 \<and> nSubsidyHalvingInterval p = 655350"

lemma subsidy_slow_start:
  assumes "mainnet_schedule p" "0 \<le> h" "h < 20000" "h \<noteq> 1"
  shows "GetBlockSubsidy h p = Some (750000 * (if h < 10000 then h else h + 1))"
proof -
  have "i64_range (750000 * h)" "i64_range (750000 * (h + 1))"
    using assms by (auto simp: i64_range_def)
  with assms show ?thesis
    by (simp add: GetBlockSubsidy_def mainnet_schedule_def cdiv_def COIN_def Let_def)
qed

lemma subsidy_after:
  assumes "mainnet_schedule p" "20000 \<le> h"
  shows "GetBlockSubsidy h p =
    Some (if h < 665350 then 150 * COIN else if h < 1320700 then 75 * COIN
          else if h < 41952400 then 75 * COIN div 2 else 0)"
proof -
  have k: "cdiv (h - 10000) 655350 = (h - 10000) div 655350"
    using assms by (intro cdiv_nonneg) auto
  consider "h < 665350" | "665350 \<le> h" "h < 1320700" | "1320700 \<le> h" "h < 41952400" | "41952400 \<le> h" by linarith
  then show ?thesis
  proof cases
    case 1
    then have "(h - 10000) div 655350 = 0" using assms by (simp add: div_pos_pos_trivial)
    with 1 assms k show ?thesis
      by (simp add: GetBlockSubsidy_def mainnet_schedule_def SubsidySlowStartShift_def cdiv_def Let_def)
  next
    case 2
    then have "(h - 10000) div 655350 = 1" by linarith
    with 2 assms k show ?thesis
      by (simp add: GetBlockSubsidy_def mainnet_schedule_def SubsidySlowStartShift_def cdiv_def Let_def COIN_def)
  next
    case 3
    then have "2 \<le> (h - 10000) div 655350" "(h - 10000) div 655350 < 64" by linarith+
    with 3 assms k show ?thesis
      by (simp add: GetBlockSubsidy_def mainnet_schedule_def SubsidySlowStartShift_def cdiv_def [of 20000] Let_def COIN_def)
  next
    case 4
    then have "64 \<le> (h - 10000) div 655350" by linarith
    with 4 assms k show ?thesis
      by (simp add: GetBlockSubsidy_def mainnet_schedule_def SubsidySlowStartShift_def cdiv_def [of 20000] Let_def COIN_def)
  qed
qed

lemma sum_window:
  fixes n lo hi k :: int
  assumes "0 \<le> k" "lo \<le> hi"
  shows "(\<Sum>h\<in>{0..n}. if lo \<le> h \<and> h < hi then k else 0) \<le> k * (hi - lo)"
proof -
  have "(\<Sum>h\<in>{0..n}. if lo \<le> h \<and> h < hi then k else 0) = (\<Sum>h\<in>{h \<in> {0..n}. lo \<le> h \<and> h < hi}. k)"
    by (rule sum.inter_filter [symmetric]) simp
  also have "\<dots> \<le> (\<Sum>h\<in>{lo..<hi}. k)"
    by (rule sum_mono2) (use assms in auto)
  also have "\<dots> = k * (hi - lo)" using assms by simp
  finally show ?thesis .
qed

text \<open>
  C10. On the main network's schedule the block subsidy is defined at every height, and the
  sum of all subsidies up to any height stays within \<^verbatim>\<open>MAX_MONEY\<close> (it is at most
  1,685,662,500 coins).
\<close>

theorem emission_bounded:
  assumes "mainnet_schedule p"
  shows "(\<forall>h. 0 \<le> h \<longrightarrow> GetBlockSubsidy h p \<noteq> None) \<and>
         (\<Sum>h\<in>{0..n}. subsidy h p) \<le> 1685662500 * COIN \<and> 1685662500 * COIN \<le> MAX_MONEY"
proof -
  define w where "w lo hi k h = (if lo \<le> h \<and> h < hi then k else 0)" for lo hi k h :: int
  have defined: "GetBlockSubsidy h p \<noteq> None" if "0 \<le> h" for h
    using subsidy_slow_start [OF assms that] subsidy_after [OF assms, of h]
    by (cases "h = 1"; cases "h < 20000") (simp_all add: GetBlockSubsidy_def)
  have "subsidy h p \<le> w 1 2 (13020000 * COIN) h + (w 0 665350 (150 * COIN) h +
      (w 665350 1320700 (75 * COIN) h + w 1320700 41952400 (75 * COIN div 2) h))" if "0 \<le> h" for h
  proof (cases "h < 20000")
    case True
    then show ?thesis
    proof (cases "h = 1")
      case True
      then show ?thesis by (simp add: subsidy_def w_def GetBlockSubsidy_def COIN_def)
    next
      case False
      with True that subsidy_slow_start [OF assms that] show ?thesis by (auto simp: subsidy_def w_def COIN_def)
    qed
  next
    case False
    with subsidy_after [OF assms, of h] show ?thesis by (auto simp: subsidy_def w_def COIN_def)
  qed
  then have "(\<Sum>h\<in>{0..n}. subsidy h p) \<le> (\<Sum>h\<in>{0..n}. w 1 2 (13020000 * COIN) h + (w 0 665350 (150 * COIN) h +
      (w 665350 1320700 (75 * COIN) h + w 1320700 41952400 (75 * COIN div 2) h)))"
    by (intro sum_mono) simp
  also have "\<dots> \<le> 13020000 * COIN * 1 + (150 * COIN * 665350 + (75 * COIN * 655350 + 75 * COIN div 2 * 40631700))"
    unfolding sum.distrib w_def
    using sum_window [of "13020000 * COIN" 1 2 n] sum_window [of "150 * COIN" 0 665350 n]
      sum_window [of "75 * COIN" 665350 1320700 n] sum_window [of "75 * COIN div 2" 1320700 41952400 n]
    by (simp add: COIN_def)
  also have "\<dots> = 1685662500 * COIN" by (simp add: COIN_def)
  finally show ?thesis using defined by (simp add: MAX_MONEY_def COIN_def)
qed

theorem emission_bounded_witness:
  "GetBlockSubsidy 30000 (regtest_params\<lparr>nSubsidySlowStartInterval := 20000, nSubsidyHalvingInterval := 655350\<rparr>) \<noteq> None"
  using emission_bounded [of "regtest_params\<lparr>nSubsidySlowStartInterval := 20000, nSubsidyHalvingInterval := 655350\<rparr>"]
  by (simp add: mainnet_schedule_def)

lemma opoi_budget_tenth:
  assumes "0 \<le> s" "s < 2 ^ 51"
  shows "opoi_budget s = s div 10"
proof -
  define n where "n = nat s * 3602879701896397"
  define q where "q = nat s div 10"
  define k where "k = bit_size n - 53"
  have s: "nat s < 2 ^ 51" "int (nat s) = s" using assms by auto
  have "n < 2 ^ 51 * 2 ^ 52" unfolding n_def using s by (intro mult_strict_mono) auto
  then have k: "k \<le> 50" using bit_size_le [of n 103] by (simp add: k_def)
  have "(10 * a + b) * 3602879701896397 = a * 2 ^ 55 + (2 * a + b * 3602879701896397)" for a b :: nat
    by (simp add: algebra_simps)
  from this [of q "nat s mod 10"] have n: "n = q * 2 ^ 55 + (2 * q + nat s mod 10 * 3602879701896397)"
    unfolding n_def q_def mult_div_mod_eq .
  have rem: "2 * q + nat s mod 10 * 3602879701896397 + 2 ^ 50 < 2 ^ 55"
  proof -
    have "nat s mod 10 \<le> 9" by simp
    moreover have "q < 2 ^ 48" unfolding q_def using s by simp
    ultimately show ?thesis by simp
  qed
  let ?R = "round53_nat n"
  have R: "?R = round_half_even n k * 2 ^ k" by (simp add: round53_nat_def k_def Let_def)
  have "q * 2 ^ 55 \<le> ?R"
  proof -
    have "q * 2 ^ (55 - k) \<le> n div 2 ^ k"
    proof -
      have "q * 2 ^ (55 - k) * 2 ^ k = q * 2 ^ 55" using k by (simp flip: power_add)
      also have "\<dots> \<le> n" by (simp add: n)
      finally show ?thesis by (simp add: less_eq_div_iff_mult_less_eq)
    qed
    then have "q * 2 ^ (55 - k) \<le> round_half_even n k" using round_half_even_bounds [of n k] by linarith
    then have "q * (2 ^ (55 - k) * 2 ^ k) \<le> ?R" by (simp add: R)
    then show ?thesis using k unfolding power_add [symmetric] by simp
  qed
  moreover have "?R < (q + 1) * 2 ^ 55"
  proof -
    have "?R \<le> (n div 2 ^ k + 1) * 2 ^ k" unfolding R
      by (rule mult_le_mono1) (use round_half_even_bounds [of n k] in simp)
    also have "\<dots> \<le> n + 2 ^ k" by (simp add: algebra_simps)
    also have "\<dots> \<le> n + 2 ^ 50" using power_increasing [OF k, of "2::nat"] by simp
    also have "\<dots> < (q + 1) * 2 ^ 55" unfolding n using rem by (simp add: algebra_simps)
    finally show ?thesis .
  qed
  ultimately have "?R div 2 ^ 55 = q" by (intro div_nat_eqI) (simp_all add: algebra_simps)
  moreover have "round53 s = s" using assms by (intro round53_exact) auto
  moreover have "nat (s * 3602879701896397) = n" using assms by (simp add: n_def nat_mult_distrib)
  ultimately show ?thesis
    using assms by (simp add: opoi_budget_def round53_nonneg cdiv_nonneg q_def flip: of_nat_div of_nat_power)
      (metis s(2) of_nat_div of_nat_numeral)
qed

text \<open>
  C11. The OPoI budget, although computed in floating point, is exactly a tenth of the block
  subsidy rounded down, for every subsidy below \<open>2 ^ 51\<close> (the largest is about \<open>1.3 * 10 ^ 15\<close>).
\<close>

theorem opoi_budget_exact:
  assumes "0 \<le> s" "s < 2 ^ 51"
  shows "opoi_budget s = s div 10"
  using assms by (rule opoi_budget_tenth)

theorem opoi_budget_exact_witness: "opoi_budget (150 * COIN) = 1500000000"
  using opoi_budget_exact [of "150 * COIN"] by (simp add: COIN_def)

text \<open>
  A fund pays exactly at the heights \<open>start + interval * i\<close> for \<open>i\<close> from 0 to the number of
  payments less one; the two range guards of the code exclude none of them.
\<close>

theorem fund_interval_closed_form:
  assumes "0 \<le> nInterval"
  shows "fund_interval nStartHeight nInterval nMaxTimes nHeight \<longleftrightarrow>
    (\<exists>i. 0 \<le> i \<and> i < nMaxTimes \<and> nHeight = nStartHeight + nInterval * i)"
proof -
  have bounds: "0 \<le> nInterval * i \<and> nInterval * i \<le> nInterval * nMaxTimes" if "0 \<le> i" "i < nMaxTimes" for i
    using assms that by (simp add: mult_left_mono)
  show ?thesis
  proof
    assume "fund_interval nStartHeight nInterval nMaxTimes nHeight"
    then show "\<exists>i. 0 \<le> i \<and> i < nMaxTimes \<and> nHeight = nStartHeight + nInterval * i"
      by (auto simp: fund_interval_def list_ex_iff split: if_splits)
  next
    assume "\<exists>i. 0 \<le> i \<and> i < nMaxTimes \<and> nHeight = nStartHeight + nInterval * i"
    then obtain i where i: "0 \<le> i" "i < nMaxTimes" "nHeight = nStartHeight + nInterval * i" by blast
    with bounds [OF i(1,2)] show "fund_interval nStartHeight nInterval nMaxTimes nHeight"
      by (simp add: fund_interval_def list_ex_iff) (metis atLeastAtMost_iff zle_diff1_eq)
  qed
qed

theorem fund_interval_closed_form_witness: "fund_interval 800000 21600 10 821600 \<and> \<not> fund_interval 800000 21600 10 1016000"
  using fund_interval_closed_form [of 21600 800000 10 821600] fund_interval_closed_form [of 21600 800000 10 1016000]
  by auto

end
