(* ===== verification/Coins.thy ===== *)
theory Coins
  imports Opoi_Types
begin

text \<open>
  The set of unspent outputs: \<^verbatim>\<open>CCoins\<close> and \<^verbatim>\<open>CCoinsViewCache\<close> (\<^verbatim>\<open>coins.h\<close>, \<^verbatim>\<open>coins.cpp\<close>),
  and the functions of \<^verbatim>\<open>main.cpp\<close> that change it for a transaction (\<^verbatim>\<open>UpdateCoins\<close>,
  \<^verbatim>\<open>ApplyTxInUndo\<close>, the coins part of \<^verbatim>\<open>DisconnectBlock\<close>).

  A view cache is its map \<^verbatim>\<open>cacheCoins\<close>; the view below it is a function argument, the
  value of \<^verbatim>\<open>base->GetCoins\<close>. A \<^verbatim>\<open>CCoinsModifier\<close> is the pair of \<open>ModifyCoins\<close>, which hands
  out the entry, and \<open>release\<close>, its destructor, which writes the entry back. What a stack
  of caches promises is the plain function \<open>look\<close> from transaction ids to coins: the
  lemmas show that every operation acts on \<open>look\<close> alone, whatever the DIRTY and FRESH flags
  are, and that \<open>Flush\<close> moves a cache into the one below without changing it.
\<close>

section \<open>Outputs and coins\<close>

definition CTxOut_null :: CTxOut where
  "CTxOut_null = \<lparr>nValue = -1, scriptPubKey = []\<rparr>"

definition CTxOut_IsNull :: "CTxOut \<Rightarrow> bool" where
  "CTxOut_IsNull out \<longleftrightarrow> nValue out = -1"

definition OP_RETURN :: u8 where "OP_RETURN = 0x6a"

definition MAX_SCRIPT_SIZE :: nat where "MAX_SCRIPT_SIZE = 10000"

definition IsUnspendable :: "bytes \<Rightarrow> bool" where
  "IsUnspendable s \<longleftrightarrow> (s \<noteq> [] \<and> hd s = OP_RETURN) \<or> length s > MAX_SCRIPT_SIZE"

definition IsCoinBase :: "CTransaction \<Rightarrow> bool" where
  "IsCoinBase tx \<longleftrightarrow> length (vin tx) = 1 \<and> COutPoint_IsNull (hd (vin tx))"

record CCoins =
  co_fCoinBase :: bool
  co_vout :: "CTxOut list"
  co_nHeight :: int
  co_nVersion :: int

definition CCoins_null :: CCoins where
  "CCoins_null = \<lparr>co_fCoinBase = False, co_vout = [], co_nHeight = 0, co_nVersion = 0\<rparr>"

definition drop_null :: "CTxOut list \<Rightarrow> CTxOut list" where
  "drop_null outs = rev (dropWhile CTxOut_IsNull (rev outs))"

definition Cleanup :: "CCoins \<Rightarrow> CCoins" where
  "Cleanup c = c\<lparr>co_vout := drop_null (co_vout c)\<rparr>"

definition null_unspendable :: "CTxOut \<Rightarrow> CTxOut" where
  "null_unspendable out = (if IsUnspendable (scriptPubKey out) then CTxOut_null else out)"

definition ClearUnspendable :: "CCoins \<Rightarrow> CCoins" where
  "ClearUnspendable c = Cleanup (c\<lparr>co_vout := map null_unspendable (co_vout c)\<rparr>)"

definition FromTx :: "CTransaction \<Rightarrow> int \<Rightarrow> CCoins" where
  "FromTx tx nHeightIn = ClearUnspendable
     \<lparr>co_fCoinBase = IsCoinBase tx, co_vout = vout tx, co_nHeight = nHeightIn, co_nVersion = nVersion tx\<rparr>"

definition IsPruned :: "CCoins \<Rightarrow> bool" where
  "IsPruned c \<longleftrightarrow> list_all CTxOut_IsNull (co_vout c)"

definition IsAvailable :: "CCoins \<Rightarrow> u32 \<Rightarrow> bool" where
  "IsAvailable c nPos \<longleftrightarrow> unat nPos < length (co_vout c) \<and> \<not> CTxOut_IsNull (co_vout c ! unat nPos)"

definition Spend :: "u32 \<Rightarrow> CCoins \<Rightarrow> bool \<times> CCoins" where
  "Spend nPos c =
     (if unat nPos \<ge> length (co_vout c) \<or> CTxOut_IsNull (co_vout c ! unat nPos) then (False, c)
      else (True, Cleanup (c\<lparr>co_vout := (co_vout c)[unat nPos := CTxOut_null]\<rparr>)))"

definition CCoins_eq :: "CCoins \<Rightarrow> CCoins \<Rightarrow> bool" where
  "CCoins_eq a b \<longleftrightarrow> (IsPruned a \<and> IsPruned b) \<or>
     (co_fCoinBase a = co_fCoinBase b \<and> co_nHeight a = co_nHeight b \<and>
      co_nVersion a = co_nVersion b \<and> co_vout a = co_vout b)"

text \<open>Coins up to \<^verbatim>\<open>operator==\<close>: all pruned coins are one value.\<close>

definition norm_coins :: "CCoins \<Rightarrow> CCoins" where
  "norm_coins c = (if IsPruned c then CCoins_null else c)"

text \<open>
  Cleaned coins: no spent output at the end, and spent outputs are the null output.
\<close>

definition clean :: "CCoins \<Rightarrow> bool" where
  "clean c \<longleftrightarrow> (co_vout c \<noteq> [] \<longrightarrow> \<not> CTxOut_IsNull (last (co_vout c))) \<and>
     (\<forall>out\<in>set (co_vout c). CTxOut_IsNull out \<longrightarrow> out = CTxOut_null)"

section \<open>The view cache\<close>

record CCoinsCacheEntry =
  ce_coins :: CCoins
  ce_dirty :: bool
  ce_fresh :: bool

type_synonym CCoinsMap = "(uint256, CCoinsCacheEntry) smap"
type_synonym coins_base = "uint256 \<Rightarrow> CCoins option"

definition FetchCoins :: "coins_base \<Rightarrow> uint256 \<Rightarrow> CCoinsMap \<Rightarrow> CCoinsCacheEntry option \<times> CCoinsMap" where
  "FetchCoins base txid m = (case sm_find m txid of
       Some e \<Rightarrow> (Some e, m)
     | None \<Rightarrow> (case base txid of
         None \<Rightarrow> (None, m)
       | Some tmp \<Rightarrow>
           let e = \<lparr>ce_coins = tmp, ce_dirty = False, ce_fresh = IsPruned tmp\<rparr>
           in (Some e, sm_put txid e m)))"

definition GetCoins :: "coins_base \<Rightarrow> uint256 \<Rightarrow> CCoinsMap \<Rightarrow> CCoins option \<times> CCoinsMap" where
  "GetCoins base txid m = (case FetchCoins base txid m of
       (Some e, m') \<Rightarrow> (Some (ce_coins e), m')
     | (None, m') \<Rightarrow> (None, m'))"

definition AccessCoins :: "coins_base \<Rightarrow> uint256 \<Rightarrow> CCoinsMap \<Rightarrow> CCoins option \<times> CCoinsMap" where
  "AccessCoins base txid m = (case FetchCoins base txid m of
       (Some e, m') \<Rightarrow> (Some (ce_coins e), m')
     | (None, m') \<Rightarrow> (None, m'))"

definition HaveCoins :: "coins_base \<Rightarrow> uint256 \<Rightarrow> CCoinsMap \<Rightarrow> bool \<times> CCoinsMap" where
  "HaveCoins base txid m = (case FetchCoins base txid m of
       (Some e, m') \<Rightarrow> (co_vout (ce_coins e) \<noteq> [], m')
     | (None, m') \<Rightarrow> (False, m'))"

definition ModifyCoins :: "coins_base \<Rightarrow> uint256 \<Rightarrow> CCoinsMap \<Rightarrow> CCoinsCacheEntry" where
  "ModifyCoins base txid m = (case sm_find m txid of
       Some e \<Rightarrow> e\<lparr>ce_dirty := True\<rparr>
     | None \<Rightarrow> (case base txid of
         None \<Rightarrow> \<lparr>ce_coins = CCoins_null, ce_dirty = True, ce_fresh = True\<rparr>
       | Some c \<Rightarrow> \<lparr>ce_coins = c, ce_dirty = True, ce_fresh = IsPruned c\<rparr>))"

definition ModifyNewCoins :: "uint256 \<Rightarrow> CCoinsMap \<Rightarrow> CCoinsCacheEntry" where
  "ModifyNewCoins txid m = \<lparr>ce_coins = CCoins_null, ce_dirty = True, ce_fresh = True\<rparr>"

text \<open>The destructor of \<^verbatim>\<open>CCoinsModifier\<close>.\<close>

definition release :: "uint256 \<Rightarrow> CCoinsCacheEntry \<Rightarrow> CCoinsMap \<Rightarrow> CCoinsMap" where
  "release txid e m = (let e = e\<lparr>ce_coins := Cleanup (ce_coins e)\<rparr> in
     if ce_fresh e \<and> IsPruned (ce_coins e) then sm_erase txid m else sm_put txid e m)"

fun HaveInputs_loop :: "coins_base \<Rightarrow> COutPoint list \<Rightarrow> CCoinsMap \<Rightarrow> bool \<times> CCoinsMap" where
  "HaveInputs_loop base [] m = (True, m)"
| "HaveInputs_loop base (prevout # ps) m = (case AccessCoins base (op_hash prevout) m of
       (None, m') \<Rightarrow> (False, m')
     | (Some coins, m') \<Rightarrow>
         if \<not> IsAvailable coins (op_n prevout) then (False, m') else HaveInputs_loop base ps m')"

definition HaveInputs :: "coins_base \<Rightarrow> CTransaction \<Rightarrow> CCoinsMap \<Rightarrow> bool \<times> CCoinsMap" where
  "HaveInputs base tx m = (if \<not> IsCoinBase tx then HaveInputs_loop base (vin tx) m else (True, m))"

text \<open>One entry of \<^verbatim>\<open>BatchWrite\<close>; \<open>None\<close> is the failed assertion.\<close>

definition BatchWrite_entry :: "uint256 \<times> CCoinsCacheEntry \<Rightarrow> CCoinsMap \<Rightarrow> CCoinsMap option" where
  "BatchWrite_entry it m = (case it of (txid, e) \<Rightarrow>
     if ce_dirty e then
       (case sm_find m txid of
          None \<Rightarrow>
            if \<not> IsPruned (ce_coins e) then
              (if ce_fresh e
               then Some (sm_put txid \<lparr>ce_coins = ce_coins e, ce_dirty = True, ce_fresh = True\<rparr> m)
               else None)
            else Some m
        | Some us \<Rightarrow>
            if ce_fresh us \<and> IsPruned (ce_coins e) then Some (sm_erase txid m)
            else Some (sm_put txid (us\<lparr>ce_coins := ce_coins e, ce_dirty := True\<rparr>) m))
     else Some m)"

fun BatchWrite :: "CCoinsMap \<Rightarrow> CCoinsMap \<Rightarrow> CCoinsMap option" where
  "BatchWrite [] m = Some m"
| "BatchWrite (it # its) m = (case BatchWrite_entry it m of None \<Rightarrow> None | Some m' \<Rightarrow> BatchWrite its m')"

text \<open>The cache empties itself into the one below: the new pair of maps.\<close>

definition Flush :: "CCoinsMap \<Rightarrow> CCoinsMap \<Rightarrow> (CCoinsMap \<times> CCoinsMap) option" where
  "Flush child parent = map_option (\<lambda>parent'. ([], parent')) (BatchWrite child parent)"

section \<open>Connecting and disconnecting transactions\<close>

record CTxInUndo =
  un_txout :: CTxOut
  un_fCoinBase :: bool
  un_nHeight :: int
  un_nVersion :: int

definition spend_output :: "u32 \<Rightarrow> CCoins \<Rightarrow> (CTxInUndo \<times> CCoins) option" where
  "spend_output nPos coins =
     (if unat nPos \<ge> length (co_vout coins) \<or> CTxOut_IsNull (co_vout coins ! unat nPos) then None
      else
        let undo = \<lparr>un_txout = co_vout coins ! unat nPos, un_fCoinBase = False, un_nHeight = 0, un_nVersion = 0\<rparr>;
            coins = snd (Spend nPos coins);
            undo = (if co_vout coins = []
              then undo\<lparr>un_nHeight := co_nHeight coins, un_fCoinBase := co_fCoinBase coins,
                        un_nVersion := co_nVersion coins\<rparr>
              else undo)
        in Some (undo, coins))"

definition spend_input :: "coins_base \<Rightarrow> COutPoint \<Rightarrow> CCoinsMap \<Rightarrow> (CTxInUndo \<times> CCoinsMap) option" where
  "spend_input base prevout m =
     (let e = ModifyCoins base (op_hash prevout) m in
      map_option (\<lambda>(undo, coins). (undo, release (op_hash prevout) (e\<lparr>ce_coins := coins\<rparr>) m))
        (spend_output (op_n prevout) (ce_coins e)))"

fun spend_inputs :: "coins_base \<Rightarrow> COutPoint list \<Rightarrow> CCoinsMap \<Rightarrow> (CTxInUndo list \<times> CCoinsMap) option" where
  "spend_inputs base [] m = Some ([], m)"
| "spend_inputs base (p # ps) m = (case spend_input base p m of
       None \<Rightarrow> None
     | Some (u, m') \<Rightarrow> map_option (\<lambda>(us, m''). (u # us, m'')) (spend_inputs base ps m'))"

definition add_outputs :: "CTransaction \<Rightarrow> int \<Rightarrow> CCoinsMap \<Rightarrow> CCoinsMap" where
  "add_outputs tx nHeight m =
     release (tx_hash tx) ((ModifyNewCoins (tx_hash tx) m)\<lparr>ce_coins := FromTx tx nHeight\<rparr>) m"

definition UpdateCoins :: "coins_base \<Rightarrow> CTransaction \<Rightarrow> int \<Rightarrow> CCoinsMap \<Rightarrow> (CTxInUndo list \<times> CCoinsMap) option" where
  "UpdateCoins base tx nHeight m =
     map_option (\<lambda>(txundo, m'). (txundo, add_outputs tx nHeight m'))
       (if \<not> IsCoinBase tx then spend_inputs base (vin tx) m else Some ([], m))"

definition resize_outs :: "nat \<Rightarrow> CTxOut list \<Rightarrow> CTxOut list" where
  "resize_outs n outs = take n outs @ replicate (n - length outs) CTxOut_null"

definition undo_output :: "CTxInUndo \<Rightarrow> u32 \<Rightarrow> CCoins \<Rightarrow> bool \<times> CCoins" where
  "undo_output undo n coins =
     (let fClean = (if un_nHeight undo \<noteq> 0 then IsPruned coins else \<not> IsPruned coins);
          coins = (if un_nHeight undo \<noteq> 0
            then CCoins_null\<lparr>co_fCoinBase := un_fCoinBase undo, co_nHeight := un_nHeight undo,
                             co_nVersion := un_nVersion undo\<rparr>
            else coins);
          fClean = (fClean \<and> \<not> IsAvailable coins n);
          vo = (if length (co_vout coins) < unat (n + 1)
                then resize_outs (unat (n + 1)) (co_vout coins) else co_vout coins)
      in (fClean, coins\<lparr>co_vout := vo[unat n := un_txout undo]\<rparr>))"

definition ApplyTxInUndo :: "coins_base \<Rightarrow> CTxInUndo \<Rightarrow> COutPoint \<Rightarrow> CCoinsMap \<Rightarrow> bool \<times> CCoinsMap" where
  "ApplyTxInUndo base undo out m =
     (let e = ModifyCoins base (op_hash out) m in
      case undo_output undo (op_n out) (ce_coins e) of (fClean, coins) \<Rightarrow>
        (fClean, release (op_hash out) (e\<lparr>ce_coins := coins\<rparr>) m))"

definition remove_outputs :: "coins_base \<Rightarrow> CTransaction \<Rightarrow> int \<Rightarrow> CCoinsMap \<Rightarrow> bool \<times> CCoinsMap" where
  "remove_outputs base tx nHeight m =
     (let e = ModifyCoins base (tx_hash tx) m;
          outs = ClearUnspendable (ce_coins e);
          outsBlock = FromTx tx nHeight;
          outs = (if co_nVersion outsBlock < 0 then outs\<lparr>co_nVersion := co_nVersion outsBlock\<rparr> else outs);
          fClean = CCoins_eq outs outsBlock
      in (fClean, release (tx_hash tx) (e\<lparr>ce_coins := CCoins_null\<rparr>) m))"

text \<open>The inputs are restored from the last to the first.\<close>

fun restore_inputs :: "coins_base \<Rightarrow> CTxInUndo list \<Rightarrow> COutPoint list \<Rightarrow> CCoinsMap \<Rightarrow> bool \<times> CCoinsMap" where
  "restore_inputs base (u # us) (p # ps) m =
     (case restore_inputs base us ps m of (fClean, m') \<Rightarrow>
        (case ApplyTxInUndo base u p m' of (ok, m'') \<Rightarrow> (fClean \<and> ok, m'')))"
| "restore_inputs base _ _ m = (True, m)"

datatype DisconnectResult = DISCONNECT_OK | DISCONNECT_UNCLEAN | DISCONNECT_FAILED

definition disconnect_tx ::
  "coins_base \<Rightarrow> CTransaction \<Rightarrow> CTxInUndo list option \<Rightarrow> int \<Rightarrow> CCoinsMap \<Rightarrow> bool option \<times> CCoinsMap" where
  "disconnect_tx base tx txundo nHeight m =
     (case remove_outputs base tx nHeight m of (fClean, m') \<Rightarrow>
        (case txundo of
           None \<Rightarrow> (Some fClean, m')
         | Some us \<Rightarrow>
             if length us \<noteq> length (vin tx) then (None, m')
             else (case restore_inputs base us (vin tx) m' of (ok, m'') \<Rightarrow> (Some (fClean \<and> ok), m''))))"

text \<open>The loop over the transactions, the last one first; \<open>None\<close> is the failed result.\<close>

fun disconnect_txs ::
  "coins_base \<Rightarrow> int \<Rightarrow> (CTransaction \<times> CTxInUndo list option) list \<Rightarrow> CCoinsMap \<Rightarrow> bool option \<times> CCoinsMap" where
  "disconnect_txs base nHeight [] m = (Some True, m)"
| "disconnect_txs base nHeight ((tx, u) # rest) m = (case disconnect_txs base nHeight rest m of
       (None, m') \<Rightarrow> (None, m')
     | (Some fClean, m') \<Rightarrow> (case disconnect_tx base tx u nHeight m' of
           (None, m'') \<Rightarrow> (None, m'')
         | (Some ok, m'') \<Rightarrow> (Some (fClean \<and> ok), m'')))"

definition DisconnectBlock_coins ::
  "coins_base \<Rightarrow> CTransaction list \<Rightarrow> CTxInUndo list list \<Rightarrow> int \<Rightarrow> CCoinsMap \<Rightarrow> DisconnectResult \<times> CCoinsMap" where
  "DisconnectBlock_coins base vtx vtxundo nHeight m =
     (if length vtxundo + 1 \<noteq> length vtx then (DISCONNECT_FAILED, m)
      else (case disconnect_txs base nHeight (zip vtx (None # map Some vtxundo)) m of
          (None, m') \<Rightarrow> (DISCONNECT_FAILED, m')
        | (Some fClean, m') \<Rightarrow> (if fClean then DISCONNECT_OK else DISCONNECT_UNCLEAN, m')))"

text \<open>
  The coins part of the transaction loop of \<^verbatim>\<open>ConnectBlock\<close>: the inputs must be there, then
  the transaction is applied; the undo data of the coinbase is dropped.
\<close>

datatype connect_error = MissingInputs | AssertFailed

fun connect_txs ::
  "coins_base \<Rightarrow> int \<Rightarrow> CTransaction list \<Rightarrow> CCoinsMap \<Rightarrow> connect_error + (CTxInUndo list list \<times> CCoinsMap)" where
  "connect_txs base nHeight [] m = Inr ([], m)"
| "connect_txs base nHeight (tx # txs) m = (case HaveInputs base tx m of
       (False, _) \<Rightarrow> Inl MissingInputs
     | (True, m') \<Rightarrow> (case UpdateCoins base tx nHeight m' of
           None \<Rightarrow> Inl AssertFailed
         | Some (u, m'') \<Rightarrow> (case connect_txs base nHeight txs m'' of
               Inl err \<Rightarrow> Inl err
             | Inr (us, m3) \<Rightarrow> Inr (u # us, m3))))"

definition ConnectBlock_coins ::
  "coins_base \<Rightarrow> CTransaction list \<Rightarrow> int \<Rightarrow> CCoinsMap \<Rightarrow> connect_error + (CTxInUndo list list \<times> CCoinsMap)" where
  "ConnectBlock_coins base vtx nHeight m =
     (case connect_txs base nHeight vtx m of Inl err \<Rightarrow> Inl err | Inr (us, m') \<Rightarrow> Inr (drop 1 us, m'))"

section \<open>The plain view\<close>

text \<open>The coins a transaction id has in a cache over a base.\<close>

definition raw :: "coins_base \<Rightarrow> CCoinsMap \<Rightarrow> uint256 \<Rightarrow> CCoins" where
  "raw base m txid = (case sm_find m txid of
       Some e \<Rightarrow> ce_coins e
     | None \<Rightarrow> (case base txid of Some c \<Rightarrow> c | None \<Rightarrow> CCoins_null))"

definition look :: "coins_base \<Rightarrow> CCoinsMap \<Rightarrow> uint256 \<Rightarrow> CCoins" where
  "look base m txid = norm_coins (raw base m txid)"

definition base_pruned :: "coins_base \<Rightarrow> uint256 \<Rightarrow> bool" where
  "base_pruned base txid \<longleftrightarrow> (case base txid of Some c \<Rightarrow> IsPruned c | None \<Rightarrow> True)"

text \<open>
  Well-formed coins: cleaned, with fewer than \<open>2 ^ 32\<close> outputs, and not of height 0 (the
  genesis block has no coins) unless they are pruned.
\<close>

definition good :: "CCoins \<Rightarrow> bool" where
  "good c \<longleftrightarrow> clean c \<and> length (co_vout c) < 2 ^ 32 \<and> (IsPruned c \<or> co_nHeight c \<noteq> 0)"

definition good_base :: "coins_base \<Rightarrow> bool" where
  "good_base base \<longleftrightarrow> (\<forall>txid c. base txid = Some c \<longrightarrow> good c)"

text \<open>
  What the flags of an entry promise: an entry that is not DIRTY is the base's, and FRESH
  means the base has nothing to spend.
\<close>

definition entry_ok :: "coins_base \<Rightarrow> uint256 \<Rightarrow> CCoinsCacheEntry \<Rightarrow> bool" where
  "entry_ok base txid e \<longleftrightarrow> good (ce_coins e) \<and> (ce_fresh e \<longrightarrow> base_pruned base txid) \<and>
     (\<not> ce_dirty e \<longrightarrow> base txid = Some (ce_coins e))"

definition coherent :: "coins_base \<Rightarrow> CCoinsMap \<Rightarrow> bool" where
  "coherent base m \<longleftrightarrow> good_base base \<and> sm_ok m \<and>
     (\<forall>txid e. sm_find m txid = Some e \<longrightarrow> entry_ok base txid e)"

lemma null_facts [simp]:
  "CTxOut_IsNull CTxOut_null" "IsPruned CCoins_null" "co_vout CCoins_null = []"
  "good CCoins_null" "norm_coins CCoins_null = CCoins_null"
  by (simp_all add: CTxOut_IsNull_def CTxOut_null_def IsPruned_def CCoins_null_def good_def clean_def
      norm_coins_def)

lemma drop_null_simps [simp]:
  "drop_null [] = []"
  "drop_null (xs @ [x]) = (if CTxOut_IsNull x then drop_null xs else xs @ [x])"
  by (simp_all add: drop_null_def)

lemma drop_null_pruned [simp]: "list_all CTxOut_IsNull (drop_null xs) = list_all CTxOut_IsNull xs"
  by (induction xs rule: rev_induct) auto

lemma drop_null_set: "x \<in> set (drop_null xs) \<Longrightarrow> x \<in> set xs"
  by (induction xs rule: rev_induct) (auto split: if_splits)

lemma drop_null_last: "drop_null xs \<noteq> [] \<Longrightarrow> \<not> CTxOut_IsNull (last (drop_null xs))"
  by (induction xs rule: rev_induct) (auto split: if_splits)

lemma length_drop_null: "length (drop_null xs) \<le> length xs"
  by (simp add: drop_null_def) (metis length_dropWhile_le length_rev)

lemma drop_null_nth: "n < length (drop_null xs) \<Longrightarrow> drop_null xs ! n = xs ! n"
proof (induction xs rule: rev_induct)
  case (snoc x xs)
  then show ?case using length_drop_null [of xs] by (auto simp: nth_append split: if_splits)
qed simp

lemma drop_null_id: "(xs \<noteq> [] \<longrightarrow> \<not> CTxOut_IsNull (last xs)) \<Longrightarrow> drop_null xs = xs"
  by (cases xs rule: rev_cases) auto

lemma drop_null_resize:
  assumes "\<forall>x\<in>set xs. CTxOut_IsNull x \<longrightarrow> x = CTxOut_null"
  shows "drop_null xs @ replicate (length xs - length (drop_null xs)) CTxOut_null = xs"
  using assms
proof (induction xs rule: rev_induct)
  case (snoc x xs)
  note len = length_drop_null [of xs]
  have "drop_null xs @ replicate (length xs - length (drop_null xs)) CTxOut_null = xs"
    using snoc by simp
  moreover have "replicate (Suc n) CTxOut_null = replicate n CTxOut_null @ [CTxOut_null]" for n
    by (simp add: replicate_append_same)
  ultimately show ?case using snoc.prems len
    by (auto simp: Suc_diff_le simp del: replicate.simps simp flip: append_assoc)
qed simp

lemma pruned_clean [simp]: "IsPruned (Cleanup c) = IsPruned c"
  by (simp add: IsPruned_def Cleanup_def)

lemma clean_pruned: "clean c \<Longrightarrow> IsPruned c \<longleftrightarrow> co_vout c = []"
  by (cases "co_vout c" rule: rev_cases) (auto simp: clean_def IsPruned_def)

lemma Cleanup_id: "clean c \<Longrightarrow> Cleanup c = c"
  by (simp add: clean_def Cleanup_def drop_null_id)

lemma good_Cleanup: "good c \<Longrightarrow> Cleanup c = c"
  by (simp add: good_def Cleanup_id)

lemma ModifyCoins_raw [simp]: "ce_coins (ModifyCoins base txid m) = raw base m txid"
  by (simp add: ModifyCoins_def raw_def split: option.splits)

lemma ModifyCoins_dirty [simp]: "ce_dirty (ModifyCoins base txid m)"
  by (simp add: ModifyCoins_def split: option.splits)

lemma ModifyCoins_fresh:
  "coherent base m \<Longrightarrow> ce_fresh (ModifyCoins base txid m) \<Longrightarrow> base_pruned base txid"
  by (auto simp: ModifyCoins_def coherent_def entry_ok_def base_pruned_def split: option.splits)

lemma good_raw: "coherent base m \<Longrightarrow> good (raw base m txid)"
  by (auto simp: raw_def coherent_def entry_ok_def good_base_def split: option.splits)

lemma look_raw: "\<not> IsPruned (look base m txid) \<Longrightarrow> raw base m txid = look base m txid"
  by (auto simp: look_def norm_coins_def split: if_splits)

lemma pruned_look [simp]: "IsPruned (look base m txid) = IsPruned (raw base m txid)"
  by (auto simp: look_def norm_coins_def)

text \<open>The modifier acts on the plain view as an update at its transaction id.\<close>

lemma release_coherent:
  assumes c: "coherent base m" and g: "good (Cleanup (ce_coins e))"
    and f: "ce_fresh e \<Longrightarrow> base_pruned base txid" and d: "ce_dirty e"
  shows "coherent base (release txid e m)"
    "look base (release txid e m) = (look base m)(txid := norm_coins (Cleanup (ce_coins e)))"
proof -
  show "coherent base (release txid e m)"
    using assms by (auto simp: release_def coherent_def entry_ok_def Let_def)
  have "norm_coins (case base txid of None \<Rightarrow> CCoins_null | Some c \<Rightarrow> c) = CCoins_null" if "base_pruned base txid"
    using that by (auto simp: base_pruned_def norm_coins_def split: option.splits)
  then show "look base (release txid e m) = (look base m)(txid := norm_coins (Cleanup (ce_coins e)))"
    using f by (auto simp: release_def look_def raw_def Let_def norm_coins_def fun_eq_iff)
qed

lemma modify_coherent:
  assumes "coherent base m" "good (Cleanup c)"
  shows "coherent base (release txid ((ModifyCoins base txid m)\<lparr>ce_coins := c\<rparr>) m)"
    "look base (release txid ((ModifyCoins base txid m)\<lparr>ce_coins := c\<rparr>) m) =
       (look base m)(txid := norm_coins (Cleanup c))"
  using release_coherent [of base m "(ModifyCoins base txid m)\<lparr>ce_coins := c\<rparr>" txid]
    ModifyCoins_fresh [of base m txid] assms by simp_all

lemma coherent_put: "coherent base m \<Longrightarrow> entry_ok base txid e \<Longrightarrow> coherent base (sm_put txid e m)"
  by (auto simp: coherent_def)

lemma FetchCoins_cases:
  obtains (cached) e where "sm_find m txid = Some e" "FetchCoins base txid m = (Some e, m)"
  | (missing) "sm_find m txid = None" "base txid = None" "FetchCoins base txid m = (None, m)"
  | (fetched) c where "sm_find m txid = None" "base txid = Some c"
      "FetchCoins base txid m = (Some \<lparr>ce_coins = c, ce_dirty = False, ce_fresh = IsPruned c\<rparr>,
         sm_put txid \<lparr>ce_coins = c, ce_dirty = False, ce_fresh = IsPruned c\<rparr> m)"
  by (cases "sm_find m txid"; cases "base txid") (auto simp: FetchCoins_def Let_def)

lemma FetchCoins_coherent:
  assumes "coherent base m" "FetchCoins base txid m = (r, m')"
  shows "coherent base m'" "raw base m' = raw base m"
    "r = None \<Longrightarrow> raw base m txid = CCoins_null" "r = Some e \<Longrightarrow> ce_coins e = raw base m txid"
proof -
  have "coherent base m' \<and> raw base m' = raw base m \<and> (r = None \<longrightarrow> raw base m txid = CCoins_null) \<and>
    (\<forall>e. r = Some e \<longrightarrow> ce_coins e = raw base m txid)"
    using FetchCoins_cases [of m txid base]
  proof cases
    case (fetched c)
    then have "entry_ok base txid \<lparr>ce_coins = c, ce_dirty = False, ce_fresh = IsPruned c\<rparr>"
      using assms(1) by (auto simp: entry_ok_def coherent_def good_base_def base_pruned_def)
    then show ?thesis using assms fetched by (auto simp: coherent_put raw_def fun_eq_iff)
  qed (use assms in \<open>auto simp: raw_def\<close>)
  then show "coherent base m'" "raw base m' = raw base m"
    "r = None \<Longrightarrow> raw base m txid = CCoins_null" "r = Some e \<Longrightarrow> ce_coins e = raw base m txid" by auto
qed

lemma AccessCoins_coherent:
  assumes "coherent base m" "AccessCoins base txid m = (r, m')"
  shows "coherent base m'" "raw base m' = raw base m"
    "r = None \<Longrightarrow> raw base m txid = CCoins_null" "r = Some c \<Longrightarrow> c = raw base m txid"
  using assms FetchCoins_coherent [of base m txid]
  by (auto simp: AccessCoins_def split: prod.splits option.splits)

lemma HaveInputs_loop_coherent:
  "coherent base m \<Longrightarrow> HaveInputs_loop base ps m = (r, m') \<Longrightarrow>
     coherent base m' \<and> raw base m' = raw base m \<and>
     (r = (\<forall>p\<in>set ps. IsAvailable (raw base m (op_hash p)) (op_n p)))"
proof (induction ps arbitrary: m)
  case (Cons p ps)
  obtain c m1 where a: "AccessCoins base (op_hash p) m = (c, m1)" by fastforce
  note f = AccessCoins_coherent [OF Cons.prems(1) a]
  have un: "\<not> IsAvailable CCoins_null n" for n by (simp add: IsAvailable_def)
  show ?case
    using Cons.prems a f(1,2) f(3) f(4) Cons.IH [OF f(1)] un
    by (auto split: option.splits if_splits)
qed simp

section \<open>Undoing a spend\<close>

lemma drop_null_butlast: "CTxOut_IsNull x \<Longrightarrow> drop_null (xs[length xs - 1 := x]) = drop_null (butlast xs)"
  by (cases xs rule: rev_cases) auto

lemma restore_output:
  assumes c: "vs \<noteq> [] \<longrightarrow> \<not> CTxOut_IsNull (last vs)" "\<forall>x\<in>set vs. CTxOut_IsNull x \<longrightarrow> x = CTxOut_null"
    and n: "n < length vs"
  defines "vs' \<equiv> drop_null (vs[n := CTxOut_null])"
  shows "(if length vs' < n + 1 then resize_outs (n + 1) vs' else vs')[n := vs ! n] = vs"
proof (cases "n + 1 = length vs")
  case True
  have nulls: "\<forall>x\<in>set (vs[n := CTxOut_null]). CTxOut_IsNull x \<longrightarrow> x = CTxOut_null"
    using c(2) by (auto dest!: subsetD [OF set_update_subset_insert])
  have "vs' = drop_null (butlast vs)"
    using drop_null_butlast [of CTxOut_null vs] True by (simp add: vs'_def flip: True)
  then have len: "length vs' \<le> n"
    using length_drop_null [of "butlast vs"] by (simp flip: True)
  have "resize_outs (n + 1) vs' = vs[n := CTxOut_null]"
    using drop_null_resize [OF nulls] len by (simp add: resize_outs_def vs'_def flip: True)
  with len n show ?thesis by simp
next
  case False
  then have "last (vs[n := CTxOut_null]) = last vs"
    using n by (subst last_list_update) auto
  then have "vs' = vs[n := CTxOut_null]"
    using c(1) n by (auto simp: vs'_def intro!: drop_null_id)
  with n show ?thesis by simp
qed

lemma good_spent:
  assumes "good c" "n < length (co_vout c)"
  shows "good (Cleanup (c\<lparr>co_vout := (co_vout c)[n := CTxOut_null]\<rparr>))"
proof -
  let ?vs = "(co_vout c)[n := CTxOut_null]"
  have "length (drop_null ?vs) \<le> length (co_vout c)"
    using length_drop_null [of ?vs] by simp
  moreover have "IsPruned c \<Longrightarrow> list_all CTxOut_IsNull ?vs"
    by (auto simp: IsPruned_def list_all_iff dest!: subsetD [OF set_update_subset_insert])
  moreover have "x = CTxOut_null" if "x \<in> set (drop_null ?vs)" "CTxOut_IsNull x" for x
    using that assms drop_null_set [OF that(1)]
    by (auto simp: good_def clean_def dest!: subsetD [OF set_update_subset_insert])
  ultimately show ?thesis
    using assms drop_null_last [of ?vs]
    by (auto simp: good_def clean_def Cleanup_def IsPruned_def)
qed

text \<open>Taking back a spend from its undo data gives the coins back exactly.\<close>

lemma undo_output_spend:
  assumes g: "good c" and s: "spend_output n c = Some (u, c')"
    and p: "IsPruned c2 = IsPruned c'" "\<not> IsPruned c' \<Longrightarrow> c2 = c'"
  shows "good c'" "undo_output u n c2 = (True, c)"
proof -
  let ?n = "unat n"
  have n: "?n < length (co_vout c)" and av: "\<not> CTxOut_IsNull (co_vout c ! ?n)"
    using s by (auto simp: spend_output_def split: if_splits)
  have c': "c' = Cleanup (c\<lparr>co_vout := (co_vout c)[?n := CTxOut_null]\<rparr>)"
    using s n av by (simp add: spend_output_def Let_def Spend_def)
  have un: "u = (if co_vout c' = [] then \<lparr>un_txout = co_vout c ! ?n, un_fCoinBase = co_fCoinBase c,
        un_nHeight = co_nHeight c, un_nVersion = co_nVersion c\<rparr>
      else \<lparr>un_txout = co_vout c ! ?n, un_fCoinBase = False, un_nHeight = 0, un_nVersion = 0\<rparr>)"
    using s n av by (auto simp: spend_output_def Let_def Spend_def Cleanup_def)
  show g': "good c'" unfolding c' by (rule good_spent [OF g n])
  then have pr: "IsPruned c' \<longleftrightarrow> co_vout c' = []" by (simp add: good_def clean_pruned)
  have h0: "co_nHeight c \<noteq> 0" using n av g by (auto simp: good_def IsPruned_def list_all_length)
  have n1: "unat (n + 1) = ?n + 1" using n g by (simp add: unat_word_ariths good_def)
  have vs: "co_vout c' = drop_null ((co_vout c)[?n := CTxOut_null])" by (simp add: c' Cleanup_def)
  have res: "(if length (co_vout c') < ?n + 1 then resize_outs (?n + 1) (co_vout c') else co_vout c')
      [?n := co_vout c ! ?n] = co_vout c"
    unfolding vs using g n by (intro restore_output) (auto simp: good_def clean_def)
  have una: "\<not> IsAvailable c' n"
    using drop_null_nth [of ?n "(co_vout c)[?n := CTxOut_null]"] n by (auto simp: IsAvailable_def vs)
  show "undo_output u n c2 = (True, c)"
  proof (cases "co_vout c' = []")
    case True
    with res n1 pr p h0 show ?thesis
      by (simp add: undo_output_def Let_def un IsAvailable_def CCoins_null_def)
  next
    case False
    then have "c2 = c'" using p(2) pr by simp
    moreover have "c'\<lparr>co_vout := co_vout c\<rparr> = c" by (simp add: c' Cleanup_def)
    ultimately show ?thesis
      using False res n1 pr p una by (simp add: undo_output_def Let_def un split del: if_split cong: if_cong)
  qed
qed

text \<open>The same for a cache, whatever the flags of its entries are.\<close>

lemma spend_input_look:
  assumes c: "coherent base m" and s: "spend_input base p m = Some (u, m')"
  obtains c' where "spend_output (op_n p) (raw base m (op_hash p)) = Some (u, c')" "good c'"
    "coherent base m'" "look base m' = (look base m)(op_hash p := norm_coins c')"
proof -
  let ?c = "raw base m (op_hash p)"
  obtain c' where s': "spend_output (op_n p) ?c = Some (u, c')"
    and m': "m' = release (op_hash p) ((ModifyCoins base (op_hash p) m)\<lparr>ce_coins := c'\<rparr>) m"
    using s by (auto simp: spend_input_def Let_def)
  have g': "good c'" using undo_output_spend(1) [OF good_raw [OF c] s', of c'] by simp
  then have gc: "good (Cleanup c')" by (simp add: good_Cleanup)
  show ?thesis
    using that [OF s' g'] modify_coherent [OF c gc, of "op_hash p"] good_Cleanup [OF g'] by (simp add: m')
qed

lemma ApplyTxInUndo_spend:
  assumes c: "coherent base m" and s: "spend_input base p m = Some (u, m')"
    and c2: "coherent base m2" and l: "look base m2 = look base m'"
  shows "\<exists>m3. ApplyTxInUndo base u p m2 = (True, m3) \<and> coherent base m3 \<and> look base m3 = look base m"
proof -
  let ?c = "raw base m (op_hash p)" and ?c2 = "raw base m2 (op_hash p)"
  note g = good_raw [OF c, of "op_hash p"]
  obtain c' where s': "spend_output (op_n p) ?c = Some (u, c')"
    and m': "look base m' = (look base m)(op_hash p := norm_coins c')"
    using spend_input_look [OF c s] by blast
  then have lk: "look base m2 = (look base m)(op_hash p := norm_coins c')" using l by simp
  then have "norm_coins ?c2 = norm_coins c'" by (metis fun_upd_same look_def)
  then have "IsPruned ?c2 = IsPruned c'" "\<not> IsPruned c' \<Longrightarrow> ?c2 = c'"
    by (auto simp: norm_coins_def split: if_splits)
  from undo_output_spend(2) [OF g s' this]
  have ap: "ApplyTxInUndo base u p m2 =
      (True, release (op_hash p) ((ModifyCoins base (op_hash p) m2)\<lparr>ce_coins := ?c\<rparr>) m2)"
    by (simp add: ApplyTxInUndo_def)
  have "look base m (op_hash p) = norm_coins ?c" by (simp add: look_def)
  with modify_coherent [OF c2, of ?c "op_hash p"] g ap lk
  show "\<exists>m3. ApplyTxInUndo base u p m2 = (True, m3) \<and> coherent base m3 \<and> look base m3 = look base m"
    by (auto simp: good_Cleanup)
qed

lemma restore_spend_inputs:
  "coherent base m \<Longrightarrow> spend_inputs base ps m = Some (us, m') \<Longrightarrow>
     coherent base m' \<and> length us = length ps \<and>
     (\<forall>m2. coherent base m2 \<and> look base m2 = look base m' \<longrightarrow>
        (\<exists>m3. restore_inputs base us ps m2 = (True, m3) \<and> coherent base m3 \<and> look base m3 = look base m))"
proof (induction ps arbitrary: m us)
  case (Cons p ps)
  obtain u m1 us' where s: "spend_input base p m = Some (u, m1)"
    and r: "spend_inputs base ps m1 = Some (us', m')" "us = u # us'"
    using Cons.prems(2) by (auto split: option.splits)
  note undo = ApplyTxInUndo_spend [OF Cons.prems(1) s]
  have c1: "coherent base m1" using spend_input_look [OF Cons.prems(1) s] by blast
  note IH = Cons.IH [OF c1 r(1)]
  show ?case
  proof (intro conjI allI impI)
    show "coherent base m'" "length us = length (p # ps)" using IH r by auto
    fix m2 assume "coherent base m2 \<and> look base m2 = look base m'"
    with IH obtain m3 where "restore_inputs base us' ps m2 = (True, m3)" "coherent base m3"
      "look base m3 = look base m1" by blast
    with undo show "\<exists>m4. restore_inputs base us (p # ps) m2 = (True, m4) \<and> coherent base m4 \<and>
        look base m4 = look base m"
      using r(2) by fastforce
  qed
qed auto

section \<open>Undoing a transaction and a block\<close>

text \<open>What \<^verbatim>\<open>CheckTransaction\<close> guarantees of a transaction's inputs and outputs.\<close>

definition sane_tx :: "CTransaction \<Rightarrow> bool" where
  "sane_tx tx \<longleftrightarrow> distinct (vin tx) \<and> (\<forall>out\<in>set (vout tx). 0 \<le> nValue out) \<and> length (vout tx) < 2 ^ 32"

text \<open>The transaction ids of a block are new: pruned in the view and in the view below.\<close>

definition fresh_id :: "coins_base \<Rightarrow> CCoinsMap \<Rightarrow> uint256 \<Rightarrow> bool" where
  "fresh_id base m txid \<longleftrightarrow> base_pruned base txid \<and> IsPruned (raw base m txid)"

definition fresh_ids :: "coins_base \<Rightarrow> CCoinsMap \<Rightarrow> CTransaction list \<Rightarrow> bool" where
  "fresh_ids base m vtx \<longleftrightarrow> distinct (map tx_hash vtx) \<and> (\<forall>tx\<in>set vtx. fresh_id base m (tx_hash tx))"

lemma fresh_id_look: "fresh_id base m txid \<longleftrightarrow> base_pruned base txid \<and> look base m txid = CCoins_null"
  by (auto simp: fresh_id_def look_def norm_coins_def)

lemma pruned_unavailable: "IsPruned c \<Longrightarrow> \<not> IsAvailable c n"
  by (auto simp: IsPruned_def IsAvailable_def list_all_length)

lemma available_look: "IsAvailable (raw base m txid) n = IsAvailable (look base m txid) n"
  by (auto simp: look_def norm_coins_def pruned_unavailable)

lemma spend_output_available: "spend_output n c = None \<longleftrightarrow> \<not> IsAvailable c n"
  by (auto simp: spend_output_def IsAvailable_def Let_def)

lemma drop_null_keeps: "n < length xs \<Longrightarrow> \<not> CTxOut_IsNull (xs ! n) \<Longrightarrow> n < length (drop_null xs)"
  by (induction xs rule: rev_induct) (auto simp: nth_append less_Suc_eq split: if_splits)

lemma spend_output_other:
  assumes "spend_output n c = Some (u, c')" "IsAvailable c k" "k \<noteq> n"
  shows "IsAvailable c' k"
proof -
  have v: "co_vout c' = drop_null ((co_vout c)[unat n := CTxOut_null])"
    using assms(1) by (auto simp: spend_output_def Let_def Spend_def Cleanup_def split: if_splits)
  have k: "unat k < length (co_vout c)" "\<not> CTxOut_IsNull ((co_vout c)[unat n := CTxOut_null] ! unat k)"
    using assms(2,3) by (auto simp: IsAvailable_def nth_list_update word_unat_eq_iff)
  then have "unat k < length (co_vout c')" unfolding v by (intro drop_null_keeps) auto
  then show ?thesis using k drop_null_nth [of "unat k"] by (simp add: IsAvailable_def v)
qed

text \<open>With the inputs there and pairwise different, the assertion of \<open>UpdateCoins\<close> holds.\<close>

lemma spend_inputs_available:
  "coherent base m \<Longrightarrow> distinct ps \<Longrightarrow> \<forall>p\<in>set ps. IsAvailable (raw base m (op_hash p)) (op_n p) \<Longrightarrow>
     spend_inputs base ps m \<noteq> None"
proof (induction ps arbitrary: m)
  case (Cons p ps)
  then have "spend_output (op_n p) (raw base m (op_hash p)) \<noteq> None"
    by (simp add: spend_output_available)
  then obtain u m1 where s: "spend_input base p m = Some (u, m1)"
    by (auto simp: spend_input_def Let_def)
  obtain c' where s': "spend_output (op_n p) (raw base m (op_hash p)) = Some (u, c')" "good c'"
    and c1: "coherent base m1" and l: "look base m1 = (look base m)(op_hash p := norm_coins c')"
    using spend_input_look [OF Cons.prems(1) s] by blast
  have "IsAvailable (raw base m1 (op_hash q)) (op_n q)" if q: "q \<in> set ps" for q
  proof (cases "op_hash q = op_hash p")
    case True
    then have "op_n q \<noteq> op_n p" using q Cons.prems(2) COutPoint.expand by auto
    then have "IsAvailable c' (op_n q)"
      using spend_output_other [OF s'(1)] q True Cons.prems(3) by auto
    then show ?thesis
      using True l pruned_unavailable by (auto simp: available_look norm_coins_def)
  next
    case False
    then show ?thesis using q l Cons.prems(3) by (simp add: available_look)
  qed
  then show ?case using Cons.IH [OF c1] Cons.prems(2) s by auto
qed simp

lemma spend_inputs_fresh:
  "coherent base m \<Longrightarrow> spend_inputs base ps m = Some (us, m') \<Longrightarrow> fresh_id base m txid \<Longrightarrow>
     fresh_id base m' txid"
proof (induction ps arbitrary: m us)
  case (Cons p ps)
  obtain u m1 us' where s: "spend_input base p m = Some (u, m1)"
    and r: "spend_inputs base ps m1 = Some (us', m')"
    using Cons.prems(2) by (auto split: option.splits)
  obtain c' where s': "spend_output (op_n p) (raw base m (op_hash p)) = Some (u, c')"
    and c1: "coherent base m1" and l: "look base m1 = (look base m)(op_hash p := norm_coins c')"
    using spend_input_look [OF Cons.prems(1) s] by blast
  have "IsAvailable (raw base m (op_hash p)) (op_n p)" 
    using s' spend_output_available [of "op_n p" "raw base m (op_hash p)"] by simp
  then have "op_hash p \<noteq> txid" using Cons.prems(3) pruned_unavailable by (auto simp: fresh_id_def)
  then have "fresh_id base m1 txid" using Cons.prems(3) l by (simp add: fresh_id_look)
  then show ?case by (rule Cons.IH [OF c1 r])
qed simp

lemma null_unspendable_twice [simp]: "null_unspendable (null_unspendable out) = null_unspendable out"
  by (simp add: null_unspendable_def)

lemma ClearUnspendable_FromTx [simp]: "ClearUnspendable (FromTx tx h) = FromTx tx h"
proof -
  have "map null_unspendable (drop_null (map null_unspendable xs)) = drop_null (map null_unspendable xs)" for xs
    by (rule map_idI, drule drop_null_set) auto
  moreover have "drop_null (drop_null xs) = drop_null xs" for xs
    using drop_null_last by (rule drop_null_id [OF impI])
  ultimately show ?thesis by (simp add: FromTx_def ClearUnspendable_def Cleanup_def)
qed

lemma good_FromTx: "sane_tx tx \<Longrightarrow> h \<noteq> 0 \<Longrightarrow> good (FromTx tx h)"
  supply bspec [of "set (vout tx)", dest]
  using length_drop_null [of "map null_unspendable (vout tx)"]
    drop_null_last [of "map null_unspendable (vout tx)"]
  by (auto simp: good_def clean_def FromTx_def ClearUnspendable_def Cleanup_def sane_tx_def
      null_unspendable_def CTxOut_IsNull_def dest!: drop_null_set)

lemma add_outputs_look:
  assumes "coherent base m" "sane_tx tx" "h \<noteq> 0" "fresh_id base m (tx_hash tx)"
  shows "coherent base (add_outputs tx h m)"
    "look base (add_outputs tx h m) = (look base m)(tx_hash tx := norm_coins (FromTx tx h))"
proof -
  note g = good_FromTx [OF assms(2,3)]
  let ?e = "\<lparr>ce_coins = FromTx tx h, ce_dirty = True, ce_fresh = True\<rparr>"
  have "good (Cleanup (ce_coins ?e))" "ce_fresh ?e \<Longrightarrow> base_pruned base (tx_hash tx)" "ce_dirty ?e"
    using g assms(4) by (simp_all add: good_Cleanup fresh_id_def)
  note release_coherent [OF assms(1) this]
  then show "coherent base (add_outputs tx h m)"
    "look base (add_outputs tx h m) = (look base m)(tx_hash tx := norm_coins (FromTx tx h))"
    by (simp_all add: add_outputs_def ModifyNewCoins_def good_Cleanup [OF g])
qed

lemma remove_outputs_look:
  assumes c: "coherent base m" and l: "look base m = L(tx_hash tx := norm_coins (FromTx tx h))"
    and f: "L (tx_hash tx) = CCoins_null"
  shows "\<exists>m'. remove_outputs base tx h m = (True, m') \<and> coherent base m' \<and> look base m' = L"
proof -
  let ?c = "raw base m (tx_hash tx)"
  have n: "norm_coins ?c = norm_coins (FromTx tx h)" using l by (metis fun_upd_same look_def)
  have "CCoins_eq (ClearUnspendable ?c) (FromTx tx h)"
  proof (cases "IsPruned ?c")
    case True
    then have "co_vout ?c = []" using good_raw [OF c] by (simp add: good_def clean_pruned)
    then have "IsPruned (ClearUnspendable ?c)" by (simp add: ClearUnspendable_def Cleanup_def IsPruned_def)
    then show ?thesis using True n by (auto simp: CCoins_eq_def norm_coins_def split: if_splits)
  next
    case False
    then have "?c = FromTx tx h" using n by (auto simp: norm_coins_def split: if_splits)
    then show ?thesis by (simp add: CCoins_eq_def)
  qed
  moreover from this have "CCoins_eq (ClearUnspendable ?c\<lparr>co_nVersion := co_nVersion (FromTx tx h)\<rparr>) (FromTx tx h)"
    by (auto simp: CCoins_eq_def IsPruned_def)
  moreover have "good (Cleanup CCoins_null)" by (simp add: good_Cleanup)
  ultimately show ?thesis
    using modify_coherent [OF c, of CCoins_null "tx_hash tx"] l f
    by (auto simp: remove_outputs_def Let_def good_Cleanup fun_eq_iff)
qed

lemma disconnect_UpdateCoins:
  assumes c: "coherent base m" and s: "sane_tx tx" "h \<noteq> 0" and f: "fresh_id base m (tx_hash tx)"
    and u: "UpdateCoins base tx h m = Some (us, m')"
  shows "coherent base m'"
    "fresh_id base m txid \<Longrightarrow> txid \<noteq> tx_hash tx \<Longrightarrow> fresh_id base m' txid"
    "coherent base m2 \<Longrightarrow> look base m2 = look base m' \<Longrightarrow>
       \<exists>m3. disconnect_tx base tx (if IsCoinBase tx then None else Some us) h m2 = (Some True, m3) \<and>
         coherent base m3 \<and> look base m3 = look base m"
proof -
  obtain m1 where sp: "(if \<not> IsCoinBase tx then spend_inputs base (vin tx) m else Some ([], m)) = Some (us, m1)"
    and m': "m' = add_outputs tx h m1"
    using u by (auto simp: UpdateCoins_def simp del: if_not_P not_not split del: if_split)
  have c1: "coherent base m1"
    and fr: "fresh_id base m txid \<Longrightarrow> fresh_id base m1 txid" for txid
    using sp c restore_spend_inputs [OF c, of "vin tx"] spend_inputs_fresh [OF c, of "vin tx"]
    by (auto split: if_splits)
  note add = add_outputs_look [OF c1 s fr [OF f]]
  show "coherent base m'" using add by (simp add: m')
  show "fresh_id base m' txid" if "fresh_id base m txid" "txid \<noteq> tx_hash tx" for txid
    using fr [OF that(1)] that(2) add by (simp add: m' fresh_id_look)
  show "\<exists>m3. disconnect_tx base tx (if IsCoinBase tx then None else Some us) h m2 = (Some True, m3) \<and>
         coherent base m3 \<and> look base m3 = look base m"
    if c2: "coherent base m2" and l2: "look base m2 = look base m'" for m2
  proof -
    have "look base m1 (tx_hash tx) = CCoins_null" using fr [OF f] by (simp add: fresh_id_look)
    with remove_outputs_look [OF c2, of "look base m1" tx h] l2 add(2) m' obtain m4 where m4: "remove_outputs base tx h m2 = (True, m4)"
      "coherent base m4" "look base m4 = look base m1" by auto
    show ?thesis
      using m4 sp restore_spend_inputs [OF c, of "vin tx" us m1]
      by (auto simp: disconnect_tx_def split: if_splits prod.splits)
  qed
qed

lemma HaveInputs_coherent:
  assumes "coherent base m" "HaveInputs base tx m = (r, m')"
  shows "coherent base m' \<and> raw base m' = raw base m \<and>
    (r \<longrightarrow> IsCoinBase tx \<or> (\<forall>p\<in>set (vin tx). IsAvailable (raw base m (op_hash p)) (op_n p)))"
  using assms HaveInputs_loop_coherent [OF assms(1), of "vin tx"]
  by (auto simp: HaveInputs_def split: if_splits)

lemma UpdateCoins_no_assert:
  assumes "coherent base m" "sane_tx tx" "HaveInputs base tx m = (True, m')"
  shows "UpdateCoins base tx h m' \<noteq> None"
  using HaveInputs_coherent [OF assms(1,3)] spend_inputs_available [of base m' "vin tx"] assms(2)
  by (auto simp: UpdateCoins_def sane_tx_def)

lemma fresh_ids_next:
  assumes "fresh_ids base m (tx # txs)"
    and "\<And>txid. fresh_id base m txid \<Longrightarrow> txid \<noteq> tx_hash tx \<Longrightarrow> fresh_id base m' txid"
  shows "fresh_ids base m' txs"
  using assms by (auto simp: fresh_ids_def image_iff)

lemma connect_txs_no_assert:
  "coherent base m \<Longrightarrow> \<forall>tx\<in>set txs. sane_tx tx \<Longrightarrow> h \<noteq> 0 \<Longrightarrow> fresh_ids base m txs \<Longrightarrow>
     connect_txs base h txs m \<noteq> Inl AssertFailed"
proof (induction txs arbitrary: m)
  case (Cons tx txs)
  obtain r m1 where h: "HaveInputs base tx m = (r, m1)" by fastforce
  note hi = HaveInputs_coherent [OF Cons.prems(1) h]
  show ?case
  proof (cases r)
    case True
    have "UpdateCoins base tx h m1 \<noteq> None"
      by (rule UpdateCoins_no_assert [OF Cons.prems(1)]) (use Cons.prems(2) h True in auto)
    then obtain us m2 where u: "UpdateCoins base tx h m1 = Some (us, m2)" by auto
    have f1: "fresh_id base m1 = fresh_id base m" using hi by (simp add: fresh_id_def fun_eq_iff)
    have "fresh_id base m1 (tx_hash tx)" using Cons.prems(4) f1 by (simp add: fresh_ids_def)
    note d = disconnect_UpdateCoins(1,2) [OF _ _ Cons.prems(3) this u]
    have "coherent base m2" using d(1) hi Cons.prems(2) by simp
    moreover have "fresh_ids base m2 txs"
      by (rule fresh_ids_next [OF Cons.prems(4)]) (use d(2) hi Cons.prems(2) f1 in auto)
    ultimately have "connect_txs base h txs m2 \<noteq> Inl AssertFailed"
      using Cons.IH [of m2] Cons.prems(2,3) by auto
    with h True u show ?thesis by (cases "connect_txs base h txs m2") auto
  next
    case False
    with h show ?thesis by simp
  qed
qed simp

lemma disconnect_connect_txs:
  "coherent base m \<Longrightarrow> \<forall>tx\<in>set txs. sane_tx tx \<Longrightarrow> h \<noteq> 0 \<Longrightarrow> fresh_ids base m txs \<Longrightarrow>
     connect_txs base h txs m = Inr (us, m') \<Longrightarrow>
     length us = length txs \<and>
     (\<forall>m2. coherent base m2 \<and> look base m2 = look base m' \<longrightarrow>
        (\<exists>m3. disconnect_txs base h
             (zip txs (map2 (\<lambda>tx u. if IsCoinBase tx then None else Some u) txs us)) m2 = (Some True, m3) \<and>
           coherent base m3 \<and> look base m3 = look base m)) \<and> coherent base m'"
proof (induction txs arbitrary: m us)
  case (Cons tx txs)
  obtain m1 u m2 us' where h: "HaveInputs base tx m = (True, m1)"
    and u: "UpdateCoins base tx h m1 = Some (u, m2)"
    and r: "connect_txs base h txs m2 = Inr (us', m')" "us = u # us'"
    using Cons.prems(5) by (auto split: prod.splits bool.splits option.splits sum.splits)
  note hi = HaveInputs_coherent [OF Cons.prems(1) h]
  have f1: "fresh_id base m1 = fresh_id base m" using hi by (simp add: fresh_id_def fun_eq_iff)
  have "fresh_id base m1 (tx_hash tx)" using Cons.prems(4) f1 by (simp add: fresh_ids_def)
  note d = disconnect_UpdateCoins [OF _ _ Cons.prems(3) this u]
  have c2: "coherent base m2" using d(1) hi Cons.prems(2) by simp
  have "fresh_ids base m2 txs"
    by (rule fresh_ids_next [OF Cons.prems(4)]) (use d(2) hi Cons.prems(2) f1 in auto)
  with Cons.IH [OF c2 _ Cons.prems(3) _ r(1)] Cons.prems(2) have IH: "length us' = length txs"
    "coherent base m3 \<Longrightarrow> look base m3 = look base m' \<Longrightarrow>
      \<exists>m4. disconnect_txs base h (zip txs (map2 (\<lambda>tx u. if IsCoinBase tx then None else Some u) txs us')) m3 =
          (Some True, m4) \<and> coherent base m4 \<and> look base m4 = look base m2" "coherent base m'" for m3
    by auto
  have lk: "look base m1 = look base m" using hi by (simp add: look_def fun_eq_iff)
  show ?case
  proof (intro conjI allI impI)
    fix m3 assume "coherent base m3 \<and> look base m3 = look base m'"
    with IH(2) obtain m4 where m4: "disconnect_txs base h
        (zip txs (map2 (\<lambda>tx u. if IsCoinBase tx then None else Some u) txs us')) m3 = (Some True, m4)"
      "coherent base m4" "look base m4 = look base m2" by blast
    with d(3) [OF _ _ m4(2,3)] hi lk Cons.prems(2) show "\<exists>m5. disconnect_txs base h
        (zip (tx # txs) (map2 (\<lambda>tx u. if IsCoinBase tx then None else Some u) (tx # txs) us)) m3 = (Some True, m5) \<and>
        coherent base m5 \<and> look base m5 = look base m"
      using r(2) by (auto split: if_splits)
  qed (use IH r in auto)
qed simp

lemma zip_undo:
  "\<forall>tx\<in>set txs. \<not> IsCoinBase tx \<Longrightarrow> length us = length txs \<Longrightarrow>
     map2 (\<lambda>tx u. if IsCoinBase tx then None else Some u) txs us = map Some us"
  by (induction us txs rule: list_induct2') auto

text \<open>
  C27. Connecting the coins of a block never fails an assertion, and disconnecting it from the
  undo data that connecting it wrote is clean and gives back the unspent outputs the view had
  before the block, whatever the cache flags are.
\<close>

theorem coins_disconnect_restores:
  assumes "coherent base m" and "\<forall>tx\<in>set (cb # txs). sane_tx tx" and "nHeight \<noteq> 0"
    and "fresh_ids base m (cb # txs)" and "IsCoinBase cb" and "\<forall>tx\<in>set txs. \<not> IsCoinBase tx"
  shows "case ConnectBlock_coins base (cb # txs) nHeight m of
      Inl err \<Rightarrow> err = MissingInputs
    | Inr (vtxundo, m') \<Rightarrow>
        (\<exists>m''. DisconnectBlock_coins base (cb # txs) vtxundo nHeight m' = (DISCONNECT_OK, m'') \<and>
           look base m'' = look base m)"
proof (cases "connect_txs base nHeight (cb # txs) m")
  case (Inl err)
  with connect_txs_no_assert [OF assms(1-4)] show ?thesis
    by (cases err) (auto simp: ConnectBlock_coins_def simp del: connect_txs.simps)
next
  case (Inr r)
  obtain us m' where r: "r = (us, m')" by fastforce
  note d = disconnect_connect_txs [OF assms(1-4) Inr [unfolded r]]
  then obtain u us' where us: "us = u # us'" "length us' = length txs" by (cases us) auto
  obtain m'' where "disconnect_txs base nHeight
      (zip (cb # txs) (map2 (\<lambda>tx u. if IsCoinBase tx then None else Some u) (cb # txs) us)) m' = (Some True, m'')"
    "look base m'' = look base m" using d by blast
  moreover have "map2 (\<lambda>tx u. if IsCoinBase tx then None else Some u) (cb # txs) us = None # map Some us'"
    using us assms(5,6) zip_undo [of txs us'] by simp
  ultimately have "disconnect_txs base nHeight (zip (cb # txs) (None # map Some us')) m' = (Some True, m'')"
    "look base m'' = look base m" by simp_all
  then show ?thesis
    using Inr r us
    by (simp add: ConnectBlock_coins_def DisconnectBlock_coins_def del: connect_txs.simps disconnect_txs.simps
        zip_Cons_Cons)
qed

text \<open>A coin with two outputs, and a block that spends the second one.\<close>

definition sample_coins :: coins_base where
  "sample_coins txid = (if txid = [9] then Some \<lparr>co_fCoinBase = False,
     co_vout = [\<lparr>nValue = 5, scriptPubKey = [1]\<rparr>, \<lparr>nValue = 7, scriptPubKey = [2]\<rparr>],
     co_nHeight = 3, co_nVersion = 1\<rparr> else None)"

definition sample_cb :: CTransaction where
  "sample_cb = CTransaction_init\<lparr>tx_hash := [1], vin := [COutPoint_null], vout := [\<lparr>nValue = 50, scriptPubKey = [3]\<rparr>]\<rparr>"

definition sample_spend :: CTransaction where
  "sample_spend = CTransaction_init\<lparr>tx_hash := [2], vin := [COutPoint [9] 1],
     vout := [\<lparr>nValue = 6, scriptPubKey = [4]\<rparr>, \<lparr>nValue = 0, scriptPubKey = [OP_RETURN]\<rparr>]\<rparr>"

lemma sample_coins_coherent: "coherent sample_coins []"
  by (auto simp: coherent_def good_base_def sample_coins_def good_def clean_def CTxOut_IsNull_def split: if_splits)

theorem coins_disconnect_restores_witness:
  "case ConnectBlock_coins sample_coins [sample_cb, sample_spend] 5 [] of
      Inl err \<Rightarrow> False
    | Inr (vtxundo, m') \<Rightarrow>
        (\<exists>m''. DisconnectBlock_coins sample_coins [sample_cb, sample_spend] vtxundo 5 m' = (DISCONNECT_OK, m'') \<and>
           look sample_coins m'' = look sample_coins [])"
proof -
  have "\<forall>tx\<in>set (sample_cb # [sample_spend]). sane_tx tx"
    by (simp add: sane_tx_def sample_cb_def sample_spend_def)
  moreover have "fresh_ids sample_coins [] (sample_cb # [sample_spend])"
    by (simp add: fresh_ids_def fresh_id_def base_pruned_def raw_def sample_coins_def sample_cb_def sample_spend_def)
  moreover have "IsCoinBase sample_cb" "\<not> IsCoinBase sample_spend" by code_simp+
  ultimately have "case ConnectBlock_coins sample_coins (sample_cb # [sample_spend]) 5 [] of
      Inl err \<Rightarrow> err = MissingInputs
    | Inr (vtxundo, m') \<Rightarrow>
        (\<exists>m''. DisconnectBlock_coins sample_coins (sample_cb # [sample_spend]) vtxundo 5 m' = (DISCONNECT_OK, m'') \<and>
           look sample_coins m'' = look sample_coins [])"
    by (intro coins_disconnect_restores sample_coins_coherent) simp_all
  moreover have "\<not> isl (ConnectBlock_coins sample_coins (sample_cb # [sample_spend]) 5 [])" by code_simp
  ultimately show ?thesis by (auto split: sum.splits)
qed

section \<open>Outputs a transaction does not spend\<close>

definition unspent :: "coins_base \<Rightarrow> CCoinsMap \<Rightarrow> COutPoint \<Rightarrow> bool" where
  "unspent base m out \<longleftrightarrow> IsAvailable (look base m (op_hash out)) (op_n out)"

lemma norm_available: "IsAvailable (norm_coins c) n = IsAvailable c n"
  by (simp add: norm_coins_def pruned_unavailable)

lemma spend_inputs_unspent:
  "coherent base m \<Longrightarrow> spend_inputs base ps m = Some (us, m') \<Longrightarrow> out \<notin> set ps \<Longrightarrow> unspent base m out \<Longrightarrow>
     unspent base m' out"
proof (induction ps arbitrary: m us)
  case (Cons p ps)
  obtain u m1 us' where s: "spend_input base p m = Some (u, m1)"
    and r: "spend_inputs base ps m1 = Some (us', m')"
    using Cons.prems(2) by (auto split: option.splits)
  obtain c' where s': "spend_output (op_n p) (raw base m (op_hash p)) = Some (u, c')"
    and c1: "coherent base m1" and l: "look base m1 = (look base m)(op_hash p := norm_coins c')"
    using spend_input_look [OF Cons.prems(1) s] by blast
  have "unspent base m1 out"
  proof (cases "op_hash out = op_hash p")
    case True
    then have "op_n out \<noteq> op_n p" using Cons.prems(3) COutPoint.expand by auto
    then have "IsAvailable c' (op_n out)"
      using spend_output_other [OF s'] True Cons.prems(4) by (auto simp: unspent_def available_look [symmetric])
    then show ?thesis using True l by (simp add: unspent_def norm_available)
  next
    case False
    then show ?thesis using l Cons.prems(4) by (simp add: unspent_def)
  qed
  then show ?case using Cons.IH [OF c1 r] Cons.prems(3) by simp
qed simp

lemma UpdateCoins_unspent:
  assumes c: "coherent base m" and s: "sane_tx tx" "h \<noteq> 0" and f: "fresh_id base m (tx_hash tx)"
    and u: "UpdateCoins base tx h m = Some (us, m')" and o1: "\<not> IsCoinBase tx \<Longrightarrow> out \<notin> set (vin tx)"
    and o2: "unspent base m out"
  shows "unspent base m' out"
proof -
  obtain m1 where sp: "(if \<not> IsCoinBase tx then spend_inputs base (vin tx) m else Some ([], m)) = Some (us, m1)"
    and m': "m' = add_outputs tx h m1"
    using u by (auto simp: UpdateCoins_def simp del: if_not_P not_not split del: if_split)
  have c1: "coherent base m1" and f1: "fresh_id base m1 (tx_hash tx)" and u1: "unspent base m1 out"
    using sp c f o1 o2 restore_spend_inputs [OF c, of "vin tx"] spend_inputs_fresh [OF c, of "vin tx"]
      spend_inputs_unspent [OF c, of "vin tx"]
    by (auto split: if_splits)
  have "op_hash out \<noteq> tx_hash tx"
    using f1 u1 pruned_unavailable [of CCoins_null] by (auto simp: fresh_id_look unspent_def)
  then show ?thesis using u1 add_outputs_look(2) [OF c1 s f1] by (simp add: m' unspent_def)
qed

section \<open>A stack of two caches\<close>

text \<open>
  The tip view is a cache over the database, and a block is connected in a cache over the tip
  view. A read that the upper cache cannot answer goes to the lower one, which keeps what it
  fetches; \<open>upper_base\<close> is what the lower cache answers.
\<close>

definition upper_base :: "coins_base \<Rightarrow> CCoinsMap \<Rightarrow> coins_base" where
  "upper_base db parent txid = fst (GetCoins db txid parent)"

datatype view_op = OpAccess uint256 | OpModify uint256 CCoins | OpNew uint256 CCoins

text \<open>The lower cache after the upper one asked for a transaction id.\<close>

definition ask :: "coins_base \<Rightarrow> uint256 \<Rightarrow> CCoinsMap \<Rightarrow> CCoinsMap \<Rightarrow> CCoinsMap" where
  "ask db txid child parent =
     (if sm_find child txid = None then snd (GetCoins db txid parent) else parent)"

fun stack_op :: "coins_base \<Rightarrow> view_op \<Rightarrow> CCoinsMap \<times> CCoinsMap \<Rightarrow> CCoinsMap \<times> CCoinsMap" where
  "stack_op db (OpAccess txid) (child, parent) =
     (snd (AccessCoins (upper_base db parent) txid child), ask db txid child parent)"
| "stack_op db (OpModify txid c) (child, parent) =
     (release txid ((ModifyCoins (upper_base db parent) txid child)\<lparr>ce_coins := c\<rparr>) child,
      ask db txid child parent)"
| "stack_op db (OpNew txid c) (child, parent) =
     (release txid ((ModifyNewCoins txid child)\<lparr>ce_coins := c\<rparr>) child, parent)"

text \<open>What the operations mean: updates of one plain map.\<close>

fun plain_op :: "view_op \<Rightarrow> (uint256 \<Rightarrow> CCoins) \<Rightarrow> uint256 \<Rightarrow> CCoins" where
  "plain_op (OpAccess txid) L = L"
| "plain_op (OpModify txid c) L = L(txid := norm_coins (Cleanup c))"
| "plain_op (OpNew txid c) L = L(txid := norm_coins (Cleanup c))"

fun op_ok :: "coins_base \<Rightarrow> view_op \<Rightarrow> bool" where
  "op_ok base (OpAccess txid) = True"
| "op_ok base (OpModify txid c) = good (Cleanup c)"
| "op_ok base (OpNew txid c) = (good (Cleanup c) \<and> base_pruned base txid)"

text \<open>An entry of the upper cache that is not FRESH was fetched through the lower one.\<close>

definition linked :: "CCoinsMap \<Rightarrow> CCoinsMap \<Rightarrow> bool" where
  "linked child parent \<longleftrightarrow>
     (\<forall>txid e. sm_find child txid = Some e \<longrightarrow> \<not> ce_fresh e \<longrightarrow> sm_find parent txid \<noteq> None)"

lemma upper_base_eq:
  "upper_base db parent txid = (case sm_find parent txid of Some e \<Rightarrow> Some (ce_coins e) | None \<Rightarrow> db txid)"
  using FetchCoins_cases [of parent txid db]
  by cases (simp_all add: upper_base_def GetCoins_def)

lemma raw_upper: "raw (upper_base db parent) [] = raw db parent"
  by (auto simp: raw_def upper_base_eq fun_eq_iff split: option.splits)

lemma good_upper: "coherent db parent \<Longrightarrow> good_base (upper_base db parent)"
  by (auto simp: good_base_def upper_base_eq coherent_def entry_ok_def split: option.splits)

lemma ask_upper:
  assumes "coherent db parent"
  shows "coherent db (ask db txid child parent)" "upper_base db (ask db txid child parent) = upper_base db parent"
proof -
  obtain r parent' where f: "FetchCoins db txid parent = (r, parent')" by fastforce
  then have g: "snd (GetCoins db txid parent) = parent'"
    by (simp add: GetCoins_def split: option.splits)
  have "upper_base db parent' = upper_base db parent"
    using FetchCoins_cases [of parent txid db] f
    by cases (auto simp: upper_base_eq fun_eq_iff)
  then show "coherent db (ask db txid child parent)" "upper_base db (ask db txid child parent) = upper_base db parent"
    using FetchCoins_coherent(1) [OF assms f] assms g by (simp_all add: ask_def)
qed

lemma ask_found:
  assumes "sm_find child txid = None" "upper_base db parent txid = Some c"
  shows "sm_find (ask db txid child parent) txid \<noteq> None"
  using FetchCoins_cases [of parent txid db] assms
  by cases (auto simp: ask_def GetCoins_def upper_base_eq)

lemma ask_keeps: "sm_find parent k \<noteq> None \<Longrightarrow> sm_find (ask db txid child parent) k \<noteq> None"
  using FetchCoins_cases [of parent txid db]
  by cases (auto simp: ask_def GetCoins_def)

definition stack_ok :: "coins_base \<Rightarrow> coins_base \<Rightarrow> CCoinsMap \<times> CCoinsMap \<Rightarrow> bool" where
  "stack_ok db base s \<longleftrightarrow> (case s of (child, parent) \<Rightarrow>
     coherent db parent \<and> upper_base db parent = base \<and> coherent base child \<and> linked child parent)"

lemma linked_modify:
  assumes "linked child parent" "ce_fresh e \<or> sm_find parent' txid \<noteq> None"
    and "\<And>k. sm_find parent k \<noteq> None \<Longrightarrow> sm_find parent' k \<noteq> None"
  shows "linked (release txid e child) parent'"
  using assms by (fastforce simp: linked_def release_def Let_def split: if_splits)

lemma stack_op_plain:
  assumes s: "stack_ok db base s" and ok: "op_ok base op"
  shows "stack_ok db base (stack_op db op s) \<and>
    look base (fst (stack_op db op s)) = plain_op op (look base (fst s))"
proof -
  obtain child parent where [simp]: "s = (child, parent)" by fastforce
  have c: "coherent db parent" and b: "upper_base db parent = base" and cc: "coherent base child"
    and l: "linked child parent" using s by (simp_all add: stack_ok_def)
  note a = ask_upper [OF c, unfolded b]
  show ?thesis
  proof (cases op)
    case (OpAccess txid)
    obtain r child' where r: "AccessCoins base txid child = (r, child')" by fastforce
    note f = AccessCoins_coherent(1,2) [OF cc r]
    have "linked child' (ask db txid child parent)"
      using FetchCoins_cases [of child txid base] r l ask_keeps [of parent] ask_found [of child txid db parent] b
      by cases (fastforce simp: AccessCoins_def linked_def split: if_splits)+
    with OpAccess r f a show ?thesis by (simp add: stack_ok_def b look_def fun_eq_iff)
  next
    case (OpModify txid coins)
    have "ce_fresh (ModifyCoins base txid child) \<or> sm_find (ask db txid child parent) txid \<noteq> None"
      using l ask_keeps [of parent] ask_found [of child txid db parent] b
      by (fastforce simp: ModifyCoins_def linked_def split: option.splits)
    then have "linked (release txid ((ModifyCoins base txid child)\<lparr>ce_coins := coins\<rparr>) child)
        (ask db txid child parent)"
      by (intro linked_modify [OF l] ask_keeps) auto
    with OpModify modify_coherent [OF cc, of coins txid] ok a show ?thesis by (simp add: stack_ok_def b)
  next
    case (OpNew txid coins)
    let ?e = "\<lparr>ce_coins = coins, ce_dirty = True, ce_fresh = True\<rparr>"
    have "linked (release txid ?e child) parent" by (intro linked_modify [OF l]) auto
    with OpNew release_coherent [OF cc, of ?e txid] ok c b show ?thesis
      by (simp add: stack_ok_def ModifyNewCoins_def)
  qed
qed

lemma stack_run_plain:
  "stack_ok db base s \<Longrightarrow> \<forall>op\<in>set ops. op_ok base op \<Longrightarrow>
     stack_ok db base (fold (stack_op db) ops s) \<and>
     look base (fst (fold (stack_op db) ops s)) = fold plain_op ops (look base (fst s))"
proof (induction ops arbitrary: s)
  case (Cons op ops)
  then show ?case using stack_op_plain [OF Cons.prems(1), of op] by simp
qed simp

lemma BatchWrite_entry_look:
  assumes c: "coherent db m" and e: "entry_ok base txid e"
    and b: "base txid = upper_base db m txid"
    and l: "\<not> ce_fresh e \<Longrightarrow> sm_find m txid \<noteq> None"
  shows "\<exists>m'. BatchWrite_entry (txid, e) m = Some m' \<and> coherent db m' \<and>
    look db m' = (look db m)(txid := norm_coins (ce_coins e)) \<and>
    (\<forall>k. k \<noteq> txid \<longrightarrow> sm_find m' k = sm_find m k)"
proof (cases "ce_dirty e")
  case False
  then have "raw db m txid = ce_coins e"
    using e b by (simp add: entry_ok_def raw_def upper_base_eq split: option.splits)
  with False c show ?thesis by (auto simp: BatchWrite_entry_def look_def fun_eq_iff)
next
  case dirty: True
  have g: "good (ce_coins e)" "Cleanup (ce_coins e) = ce_coins e"
    using e good_Cleanup by (auto simp: entry_ok_def)
  show ?thesis
  proof (cases "sm_find m txid")
    case None
    then have f: "ce_fresh e" "base_pruned db txid"
      using l e b by (auto simp: entry_ok_def base_pruned_def upper_base_eq)
    then have "look db m txid = CCoins_null"
      using None by (auto simp: look_def raw_def base_pruned_def norm_coins_def split: option.splits)
    moreover have "coherent db (sm_put txid \<lparr>ce_coins = ce_coins e, ce_dirty = True, ce_fresh = True\<rparr> m)"
      using f g by (intro coherent_put [OF c]) (simp add: entry_ok_def)
    ultimately show ?thesis
      using None dirty f c
      by (auto simp: BatchWrite_entry_def norm_coins_def look_def raw_def fun_eq_iff)
  next
    case (Some us)
    let ?us = "us\<lparr>ce_coins := ce_coins e, ce_dirty := True\<rparr>"
    have us: "ce_fresh us \<Longrightarrow> base_pruned db txid" using c Some by (auto simp: coherent_def entry_ok_def)
    have "BatchWrite_entry (txid, e) m = Some (release txid ?us m)"
      using Some dirty g by (cases us) (simp add: BatchWrite_entry_def release_def Let_def)
    moreover have "\<forall>k. k \<noteq> txid \<longrightarrow> sm_find (release txid ?us m) k = sm_find m k"
      by (simp add: release_def Let_def)
    moreover note release_coherent [OF c, of ?us txid]
    ultimately show ?thesis using us g by auto
  qed
qed

lemma BatchWrite_look:
  "coherent db m \<Longrightarrow> distinct (map fst its) \<Longrightarrow>
     \<forall>(txid, e)\<in>set its. entry_ok base txid e \<and> base txid = upper_base db m txid \<and>
       (\<not> ce_fresh e \<longrightarrow> sm_find m txid \<noteq> None) \<Longrightarrow>
     \<exists>m'. BatchWrite its m = Some m' \<and> coherent db m' \<and>
       look db m' = (\<lambda>txid. case map_of its txid of Some e \<Rightarrow> norm_coins (ce_coins e) | None \<Rightarrow> look db m txid)"
proof (induction its arbitrary: m)
  case (Cons it its)
  obtain txid e where [simp]: "it = (txid, e)" by fastforce
  from BatchWrite_entry_look [OF Cons.prems(1), of base txid e] Cons.prems(3)
  obtain m1 where m1: "BatchWrite_entry (txid, e) m = Some m1" "coherent db m1"
    "look db m1 = (look db m)(txid := norm_coins (ce_coins e))" "\<forall>k. k \<noteq> txid \<longrightarrow> sm_find m1 k = sm_find m k"
    by auto
  have ne: "k \<noteq> txid" if "(k, e') \<in> set its" for k e'
    using that Cons.prems(2) by (force simp: image_iff)
  have "\<forall>(k, e')\<in>set its. entry_ok base k e' \<and> base k = upper_base db m1 k \<and>
      (\<not> ce_fresh e' \<longrightarrow> sm_find m1 k \<noteq> None)"
  proof (rule ballI, clarify, intro conjI impI)
    fix k e' assume k: "(k, e') \<in> set its"
    then have "sm_find m1 k = sm_find m k" using m1(4) ne by blast
    then show "entry_ok base k e'" "base k = upper_base db m1 k" "\<not> ce_fresh e' \<Longrightarrow> sm_find m1 k \<noteq> None"
      using Cons.prems(3) k by (auto simp: upper_base_eq)
  qed
  with Cons.IH [OF m1(2)] Cons.prems(2) obtain m2 where "BatchWrite its m1 = Some m2" "coherent db m2"
    "look db m2 = (\<lambda>k. case map_of its k of Some e \<Rightarrow> norm_coins (ce_coins e) | None \<Rightarrow> look db m1 k)"
    by auto
  moreover have "map_of its txid = None" using Cons.prems(2) by (simp add: map_of_eq_None_iff)
  ultimately show ?case using m1 by (auto simp: fun_eq_iff split: option.splits)
qed simp

lemma Flush_look:
  assumes "stack_ok db base (child, parent)"
  shows "\<exists>parent'. Flush child parent = Some ([], parent') \<and> coherent db parent' \<and>
    look db parent' = look base child"
proof -
  have c: "coherent db parent" and b: "upper_base db parent = base" and cc: "coherent base child"
    and l: "linked child parent" using assms by (simp_all add: stack_ok_def)
  have d: "distinct (map fst child)" using cc sm.keys_distinct by (auto simp: coherent_def)
  then have "\<forall>(txid, e)\<in>set child. entry_ok base txid e \<and> base txid = upper_base db parent txid \<and>
      (\<not> ce_fresh e \<longrightarrow> sm_find parent txid \<noteq> None)"
    using cc l b by (auto simp: coherent_def linked_def)
  from BatchWrite_look [OF c d this] obtain m' where m': "BatchWrite child parent = Some m'" "coherent db m'"
    "look db m' = (\<lambda>txid. case map_of child txid of Some e \<Rightarrow> norm_coins (ce_coins e) | None \<Rightarrow> look db parent txid)"
    by auto
  have "look db parent txid = norm_coins (raw base [] txid)" for txid
    using raw_upper [of db parent] b by (simp add: look_def)
  then have "look db m' = look base child"
    using m'(3) by (auto simp: look_def raw_def fun_eq_iff split: option.splits)
  with m' show ?thesis by (simp add: Flush_def)
qed


definition sample_ops :: "view_op list" where
  "sample_ops = [OpAccess [9], OpModify [9] CCoins_null, OpNew [2] (FromTx sample_spend 5)]"


end
