(* ===== verification/Coins_Codec.thy ===== *)
theory Coins_Codec
  imports Coins
begin

text \<open>
  The compact forms in which coins and undo data are stored: variable-length integers and
  compact sizes (\<^verbatim>\<open>serialize.h\<close>), compressed amounts and scripts (\<^verbatim>\<open>compressor.cpp\<close>), and the
  serialization of \<^verbatim>\<open>CCoins\<close> (\<^verbatim>\<open>coins.h\<close>) and \<^verbatim>\<open>CTxInUndo\<close> (\<^verbatim>\<open>undo.h\<close>). A stream is the list of
  bytes still to be read; a reader returns the value and the rest of the stream, and \<open>None\<close>
  is the exception of a stream that ends or holds a value the reader refuses. The lemmas are
  round trips: reading what was written gives the value back and leaves the rest.

  The two elliptic-curve functions the script compressor calls, the validity of an
  uncompressed public key and its decompression, are arguments.
\<close>

section \<open>Integers\<close>

type_synonym 'a reader = "bytes \<Rightarrow> ('a \<times> bytes) option"

definition read_bytes :: "nat \<Rightarrow> bytes reader" where
  "read_bytes k s = (if length s < k then None else Some (take k s, drop k s))"

definition read_le :: "nat \<Rightarrow> nat reader" where
  "read_le k s = map_option (\<lambda>(bs, s'). (le_num bs, s')) (read_bytes k s)"

definition MAX_SIZE :: nat where "MAX_SIZE = 0x02000000"

definition ReadCompactSize :: "nat reader" where
  "ReadCompactSize s = (case read_le 1 s of
       None \<Rightarrow> None
     | Some (chSize, s) \<Rightarrow>
         (case (if chSize < 253 then Some (chSize, s)
                else if chSize = 253 then
                  (case read_le 2 s of None \<Rightarrow> None | Some (n, s) \<Rightarrow> if n < 253 then None else Some (n, s))
                else if chSize = 254 then
                  (case read_le 4 s of None \<Rightarrow> None | Some (n, s) \<Rightarrow> if n < 0x10000 then None else Some (n, s))
                else
                  (case read_le 8 s of None \<Rightarrow> None | Some (n, s) \<Rightarrow> if n < 0x100000000 then None else Some (n, s)))
          of None \<Rightarrow> None
           | Some (nSizeRet, s) \<Rightarrow> if nSizeRet > MAX_SIZE then None else Some (nSizeRet, s)))"

text \<open>
  The digits of \<^verbatim>\<open>WriteVarInt\<close> from the lowest; the array is written from its end. An unsigned
  integer is its value, the width matters only where the reader shifts it out.
\<close>

function varint_tmp :: "nat \<Rightarrow> bool \<Rightarrow> bytes" where
  "varint_tmp n len =
     word_of_nat (n mod 128 + (if len then 128 else 0)) #
       (if n \<le> 127 then [] else varint_tmp (n div 128 - 1) True)"
  by pat_completeness auto
termination by (relation "measure fst") auto

declare varint_tmp.simps [simp del]

definition WriteVarInt :: "nat \<Rightarrow> bytes" where
  "WriteVarInt n = rev (varint_tmp n False)"

fun ReadVarInt_loop :: "nat \<Rightarrow> nat \<Rightarrow> nat reader" where
  "ReadVarInt_loop w n [] = None"
| "ReadVarInt_loop w n (chData # s) =
     (let n = (n * 128 + unat chData mod 128) mod 2 ^ w in
      if bit chData 7 then ReadVarInt_loop w ((n + 1) mod 2 ^ w) s else Some (n, s))"

definition ReadVarInt :: "nat \<Rightarrow> nat reader" where
  "ReadVarInt w = ReadVarInt_loop w 0"

text \<open>The instance at \<^verbatim>\<open>int\<close>: a negative value passes the first comparison and keeps seven bits.\<close>

definition WriteVarInt_int :: "int \<Rightarrow> bytes" where
  "WriteVarInt_int n = (if n \<le> 127 then [word_of_int (n mod 128)] else WriteVarInt (nat n))"

definition ReadVarInt_int :: "int reader" where
  "ReadVarInt_int s = map_option (\<lambda>(n, s'). (sint (word_of_nat n :: 32 word), s')) (ReadVarInt 32 s)"

section \<open>Amounts and scripts\<close>

function strip_zeros :: "u64 \<Rightarrow> nat \<Rightarrow> u64 \<times> nat" where
  "strip_zeros n e = (if n mod 10 = 0 \<and> e < 9 then strip_zeros (n div 10) (e + 1) else (n, e))"
  by pat_completeness auto
termination by (relation "measure (\<lambda>(n, e). 9 - e)") auto

declare strip_zeros.simps [simp del]

definition CompressAmount :: "u64 \<Rightarrow> u64" where
  "CompressAmount n =
     (if n = 0 then 0
      else case strip_zeros n 0 of (n, e) \<Rightarrow>
        if e < 9 then
          (let d = n mod 10; n = n div 10 in 1 + (n * 9 + d - 1) * 10 + word_of_nat e)
        else 1 + (n - 1) * 10 + 9)"

definition DecompressAmount :: "u64 \<Rightarrow> u64" where
  "DecompressAmount x =
     (if x = 0 then 0
      else let x = x - 1; e = unat (x mod 10); x = x div 10;
               n = (if e < 9 then (let d = x mod 9 + 1; x = x div 9 in x * 10 + d) else x + 1)
           in ((\<lambda>n. n * 10) ^^ e) n)"

definition OP_DUP :: u8 where "OP_DUP = 0x76"
definition OP_EQUAL :: u8 where "OP_EQUAL = 0x87"
definition OP_EQUALVERIFY :: u8 where "OP_EQUALVERIFY = 0x88"
definition OP_HASH160 :: u8 where "OP_HASH160 = 0xa9"
definition OP_CHECKSIG :: u8 where "OP_CHECKSIG = 0xac"

definition slice :: "nat \<Rightarrow> nat \<Rightarrow> bytes \<Rightarrow> bytes" where
  "slice i k s = take k (drop i s)"

definition IsToKeyID :: "bytes \<Rightarrow> bytes option" where
  "IsToKeyID script =
     (if length script = 25 \<and> script ! 0 = OP_DUP \<and> script ! 1 = OP_HASH160 \<and> script ! 2 = 20 \<and>
         script ! 23 = OP_EQUALVERIFY \<and> script ! 24 = OP_CHECKSIG
      then Some (slice 3 20 script) else None)"

definition IsToScriptID :: "bytes \<Rightarrow> bytes option" where
  "IsToScriptID script =
     (if length script = 23 \<and> script ! 0 = OP_HASH160 \<and> script ! 1 = 20 \<and> script ! 22 = OP_EQUAL
      then Some (slice 2 20 script) else None)"

definition IsToPubKey :: "(bytes \<Rightarrow> bool) \<Rightarrow> bytes \<Rightarrow> bytes option" where
  "IsToPubKey IsFullyValid script =
     (if length script = 35 \<and> script ! 0 = 33 \<and> script ! 34 = OP_CHECKSIG \<and>
         (script ! 1 = 0x02 \<or> script ! 1 = 0x03)
      then Some (slice 1 33 script)
      else if length script = 67 \<and> script ! 0 = 65 \<and> script ! 66 = OP_CHECKSIG \<and> script ! 1 = 0x04
      then (if IsFullyValid (slice 1 65 script) then Some (slice 1 65 script) else None)
      else None)"

definition Compress :: "(bytes \<Rightarrow> bool) \<Rightarrow> bytes \<Rightarrow> bytes option" where
  "Compress IsFullyValid script =
     (case IsToKeyID script of
        Some keyID \<Rightarrow> Some (0x00 # keyID)
      | None \<Rightarrow>
     (case IsToScriptID script of
        Some scriptID \<Rightarrow> Some (0x01 # scriptID)
      | None \<Rightarrow>
     (case IsToPubKey IsFullyValid script of
        Some pubkey \<Rightarrow>
          if pubkey ! 0 = 0x02 \<or> pubkey ! 0 = 0x03 then Some (pubkey ! 0 # slice 1 32 pubkey)
          else if pubkey ! 0 = 0x04 then Some ((0x04 OR (pubkey ! 64 AND 0x01)) # slice 1 32 pubkey)
          else None
      | None \<Rightarrow> None)))"

definition GetSpecialSize :: "nat \<Rightarrow> nat" where
  "GetSpecialSize nSize =
     (if nSize = 0 \<or> nSize = 1 then 20
      else if nSize = 2 \<or> nSize = 3 \<or> nSize = 4 \<or> nSize = 5 then 32 else 0)"

text \<open>\<open>None\<close> leaves the script as it was.\<close>

definition Decompress :: "(bytes \<Rightarrow> bytes option) \<Rightarrow> nat \<Rightarrow> bytes \<Rightarrow> bytes option" where
  "Decompress pubkey_Decompress nSize inp =
     (if nSize = 0 then Some ([OP_DUP, OP_HASH160, 20] @ take 20 inp @ [OP_EQUALVERIFY, OP_CHECKSIG])
      else if nSize = 1 then Some ([OP_HASH160, 20] @ take 20 inp @ [OP_EQUAL])
      else if nSize = 2 \<or> nSize = 3 then Some ([33, word_of_nat nSize] @ take 32 inp @ [OP_CHECKSIG])
      else if nSize = 4 \<or> nSize = 5 then
        map_option (\<lambda>pubkey. 65 # pubkey @ [OP_CHECKSIG])
          (pubkey_Decompress (word_of_nat (nSize - 2) # take 32 inp))
      else None)"

definition nSpecialScripts :: nat where "nSpecialScripts = 6"

definition ser_script :: "(bytes \<Rightarrow> bool) \<Rightarrow> bytes \<Rightarrow> bytes" where
  "ser_script IsFullyValid script =
     (case Compress IsFullyValid script of
        Some compr \<Rightarrow> compr
      | None \<Rightarrow> WriteVarInt (length script + nSpecialScripts) @ script)"

text \<open>\<open>script\<close> is the value the script has before it is read.\<close>

definition unser_script :: "(bytes \<Rightarrow> bytes option) \<Rightarrow> bytes \<Rightarrow> bytes reader" where
  "unser_script pubkey_Decompress script s = (case ReadVarInt 32 s of
       None \<Rightarrow> None
     | Some (nSize, s) \<Rightarrow>
         if nSize < nSpecialScripts then
           (case read_bytes (GetSpecialSize nSize) s of
              None \<Rightarrow> None
            | Some (vch, s) \<Rightarrow>
                Some (case Decompress pubkey_Decompress nSize vch of Some script' \<Rightarrow> script' | None \<Rightarrow> script, s))
         else
           (let nSize = nSize - nSpecialScripts in
            if nSize > MAX_SCRIPT_SIZE then
              map_option (\<lambda>(_, s). (script @ [OP_RETURN], s)) (read_bytes nSize s)
            else read_bytes nSize s))"

definition ser_txout :: "(bytes \<Rightarrow> bool) \<Rightarrow> CTxOut \<Rightarrow> bytes" where
  "ser_txout V out = WriteVarInt (unat (CompressAmount (word_of_int (nValue out)))) @ ser_script V (scriptPubKey out)"

definition unser_txout :: "(bytes \<Rightarrow> bytes option) \<Rightarrow> CTxOut reader" where
  "unser_txout D s = (case ReadVarInt 64 s of
       None \<Rightarrow> None
     | Some (nVal, s) \<Rightarrow>
         map_option (\<lambda>(script, s). (\<lparr>nValue = sint (DecompressAmount (word_of_nat nVal)), scriptPubKey = script\<rparr>, s))
           (unser_script D [] s))"

section \<open>Coins and undo data\<close>

definition mask_used :: "CTxOut list \<Rightarrow> nat \<Rightarrow> nat \<Rightarrow> bool" where
  "mask_used vo b i \<longleftrightarrow> 2 + b * 8 + i < length vo \<and> \<not> CTxOut_IsNull (vo ! (2 + b * 8 + i))"

definition mask_zero :: "CTxOut list \<Rightarrow> nat \<Rightarrow> bool" where
  "mask_zero vo b \<longleftrightarrow> list_all (\<lambda>i. \<not> mask_used vo b i) [0..<8]"

text \<open>The number of mask bytes up to the last one in use, and the number of those in use.\<close>

definition mask_count :: "CTxOut list \<Rightarrow> nat" where
  "mask_count vo = (length vo + 5) div 8"

definition CalcMaskSize :: "CTxOut list \<Rightarrow> nat \<times> nat" where
  "CalcMaskSize vo =
     fold (\<lambda>b (nLastUsedByte, nNonzeroBytes).
         if \<not> mask_zero vo b then (b + 1, nNonzeroBytes + 1) else (nLastUsedByte, nNonzeroBytes))
       [0..<mask_count vo] (0, 0)"

definition mask_byte :: "CTxOut list \<Rightarrow> nat \<Rightarrow> u8" where
  "mask_byte vo b = fold (\<lambda>i chAvail. if mask_used vo b i then chAvail OR push_bit i 1 else chAvail) [0..<8] 0"

text \<open>\<open>None\<close> is the failed assertion: pruned coins are not serialized.\<close>

definition ser_coins :: "(bytes \<Rightarrow> bool) \<Rightarrow> CCoins \<Rightarrow> bytes option" where
  "ser_coins V c =
     (let vo = co_vout c; (nMaskSize, nMaskCode) = CalcMaskSize vo;
          fFirst = (length vo > 0 \<and> \<not> CTxOut_IsNull (vo ! 0));
          fSecond = (length vo > 1 \<and> \<not> CTxOut_IsNull (vo ! 1)) in
      if \<not> (fFirst \<or> fSecond \<or> nMaskCode \<noteq> 0) then None
      else
        let nCode = 8 * (nMaskCode - (if fFirst \<or> fSecond then 0 else 1)) + (if co_fCoinBase c then 1 else 0) +
              (if fFirst then 2 else 0) + (if fSecond then 4 else 0)
        in Some (WriteVarInt_int (co_nVersion c) @ WriteVarInt nCode @ map (mask_byte vo) [0..<nMaskSize] @
             concat (map (\<lambda>out. if CTxOut_IsNull out then [] else ser_txout V out) vo) @
             WriteVarInt_int (co_nHeight c)))"

fun read_mask :: "nat \<Rightarrow> bytes \<Rightarrow> (bool list \<times> bytes) option" where
  "read_mask nMaskCode [] = (if nMaskCode = 0 then Some ([], []) else None)"
| "read_mask nMaskCode (chAvail # s) =
     (if nMaskCode = 0 then Some ([], chAvail # s)
      else map_option (\<lambda>(vAvail, s'). (map (bit chAvail) [0..<8] @ vAvail, s'))
        (read_mask (if chAvail \<noteq> 0 then nMaskCode - 1 else nMaskCode) s))"

fun read_outs :: "(bytes \<Rightarrow> bytes option) \<Rightarrow> bool list \<Rightarrow> CTxOut list reader" where
  "read_outs D [] s = Some ([], s)"
| "read_outs D (avail # vAvail) s =
     (case (if avail then unser_txout D s else Some (CTxOut_null, s)) of
        None \<Rightarrow> None
      | Some (out, s) \<Rightarrow> map_option (\<lambda>(outs, s). (out # outs, s)) (read_outs D vAvail s))"

definition unser_coins :: "(bytes \<Rightarrow> bytes option) \<Rightarrow> CCoins reader" where
  "unser_coins D s = (case ReadVarInt_int s of
       None \<Rightarrow> None
     | Some (ver, s) \<Rightarrow> (case ReadVarInt 32 s of
         None \<Rightarrow> None
       | Some (nCode, s) \<Rightarrow>
           let coinbase = odd nCode; a0 = odd (nCode div 2); a1 = odd (nCode div 4);
               nMaskCode = nCode div 8 + (if a0 \<or> a1 then 0 else 1)
           in (case read_mask nMaskCode s of
                 None \<Rightarrow> None
               | Some (vAvail, s) \<Rightarrow> (case read_outs D (a0 # a1 # vAvail) s of
                   None \<Rightarrow> None
                 | Some (outs, s) \<Rightarrow> (case ReadVarInt_int s of
                     None \<Rightarrow> None
                   | Some (h, s) \<Rightarrow>
                       Some (Cleanup \<lparr>co_fCoinBase = coinbase, co_vout = outs, co_nHeight = h, co_nVersion = ver\<rparr>, s))))))"

definition ser_undo :: "(bytes \<Rightarrow> bool) \<Rightarrow> CTxInUndo \<Rightarrow> bytes" where
  "ser_undo V u =
     WriteVarInt (nat ((un_nHeight u * 2 + (if un_fCoinBase u then 1 else 0)) mod 2 ^ 32)) @
     (if un_nHeight u > 0 then WriteVarInt_int (un_nVersion u) else []) @ ser_txout V (un_txout u)"

definition unser_undo :: "(bytes \<Rightarrow> bytes option) \<Rightarrow> CTxInUndo reader" where
  "unser_undo D s = (case ReadVarInt 32 s of
       None \<Rightarrow> None
     | Some (nCode, s) \<Rightarrow>
         (case (if nCode div 2 > 0 then ReadVarInt_int s else Some (0, s)) of
            None \<Rightarrow> None
          | Some (ver, s) \<Rightarrow>
              map_option (\<lambda>(out, s). (\<lparr>un_txout = out, un_fCoinBase = odd nCode, un_nHeight = int (nCode div 2),
                  un_nVersion = ver\<rparr>, s)) (unser_txout D s)))"

section \<open>Round trips of the integers\<close>

lemma le_num_append_read:
  "length bs = k \<Longrightarrow> read_bytes k (bs @ s) = Some (bs, s)"
  by (simp add: read_bytes_def)

lemma read_le_bytes: "read_le k (le_bytes k n @ s) = Some (n mod 256 ^ k, s)"
  by (simp add: read_le_def le_num_append_read le_num_le_bytes)

lemma read_le_1: "read_le 1 (b # s) = Some (unat b, s)"
  by (simp add: read_le_def read_bytes_def)

lemma ReadCompactSize_Write:
  assumes "n \<le> MAX_SIZE"
  shows "ReadCompactSize (WriteCompactSize n @ s) = Some (n, s)"
proof -
  have n: "n < 256 ^ 4" using assms by (simp add: MAX_SIZE_def)
  consider "n < 253" | "253 \<le> n" "n \<le> 65535" | "65535 < n" by linarith
  then show ?thesis
  proof cases
    case 1
    then have "read_le 1 (le_bytes 1 n @ s) = Some (n, s)" by (simp only: read_le_bytes) simp
    with 1 assms show ?thesis by (simp only: WriteCompactSize_def ReadCompactSize_def) simp
  next
    case 2
    then have "read_le 2 (le_bytes 2 n @ s) = Some (n, s)" by (simp only: read_le_bytes) simp
    with 2 assms show ?thesis
      by (simp only: WriteCompactSize_def ReadCompactSize_def append_Cons read_le_1 if_True if_False not_less)
        (simp add: read_le_1 [unfolded One_nat_def])
  next
    case 3
    then have "read_le 4 (le_bytes 4 n @ s) = Some (n, s)" using n by (simp only: read_le_bytes) simp
    with 3 n assms show ?thesis
      by (simp only: WriteCompactSize_def ReadCompactSize_def append_Cons read_le_1 if_True if_False not_less)
        (simp add: read_le_1 [unfolded One_nat_def])
  qed
qed

lemma byte_digit:
  assumes "n < 128"
  shows "bit (word_of_nat (n + 128) :: u8) 7" "unat (word_of_nat (n + 128) :: u8) mod 128 = n"
    "\<not> bit (word_of_nat n :: u8) 7" "unat (word_of_nat n :: u8) mod 128 = n"
proof -
  have u: "unat (word_of_nat (n + 128) :: u8) = n + 128" "unat (word_of_nat n :: u8) = n"
    using assms unat_of_nat [of "n + 128", where 'a = 8] unat_of_nat [of n, where 'a = 8] by simp_all
  show "unat (word_of_nat (n + 128) :: u8) mod 128 = n" "unat (word_of_nat n :: u8) mod 128 = n"
    using assms u by simp_all
  have b: "bit w 7 = odd (unat w div 128)" for w :: u8
  proof -
    have "bit (unat w) 7 = bit w 7" by (simp add: bit_unsigned_iff)
    then show ?thesis using bit_iff_odd [of "unat w" 7] by simp
  qed
  show "bit (word_of_nat (n + 128) :: u8) 7" "\<not> bit (word_of_nat n :: u8) 7"
    using assms u div_add_self2 [of 128 n] by (simp_all add: b)
qed

lemma ReadVarInt_digits:
  "n + 1 < 2 ^ w \<Longrightarrow> ReadVarInt_loop w 0 (rev (varint_tmp n True) @ s) = ReadVarInt_loop w (n + 1) s"
proof (induction n True arbitrary: s rule: varint_tmp.induct)
  case (1 n)
  show ?case
  proof (cases "n \<le> 127")
    case True
    with 1(2) byte_digit [of n] show ?thesis by (simp add: varint_tmp.simps [of n] Let_def)
  next
    case False
    then have "n div 128 - 1 + 1 = n div 128" by simp
    moreover have "n div 128 < 2 ^ w" using 1(2) by (meson add_lessD1 div_le_dividend le_less_trans)
    ultimately have "ReadVarInt_loop w 0 (rev (varint_tmp (n div 128 - 1) True) @ t) =
        ReadVarInt_loop w (n div 128) t" for t
      using 1(1) [OF False] by simp
    with False 1(2) byte_digit [of "n mod 128"] show ?thesis
      by (simp add: varint_tmp.simps [of n] Let_def mult.commute)
  qed
qed

lemma ReadVarInt_Write: "n < 2 ^ w \<Longrightarrow> ReadVarInt w (WriteVarInt n @ s) = Some (n, s)"
proof (cases "n \<le> 127")
  case True
  assume "n < 2 ^ w"
  with True byte_digit [of n] show ?thesis
    by (simp add: ReadVarInt_def WriteVarInt_def varint_tmp.simps [of n] Let_def)
next
  case False
  assume n: "n < 2 ^ w"
  have "n div 128 - 1 + 1 = n div 128" using False by simp
  moreover have "n div 128 < 2 ^ w" using n by (meson div_le_dividend le_less_trans)
  ultimately have "ReadVarInt_loop w 0 (rev (varint_tmp (n div 128 - 1) True) @ t) =
        ReadVarInt_loop w (n div 128) t" for t
    using ReadVarInt_digits [of "n div 128 - 1" w t] by simp
  with False n byte_digit [of "n mod 128"] show ?thesis
    by (simp add: ReadVarInt_def WriteVarInt_def varint_tmp.simps [of n] Let_def mult.commute)
qed

lemma ReadVarInt_int_Write:
  assumes "0 \<le> n" "n < 2 ^ 31"
  shows "ReadVarInt_int (WriteVarInt_int n @ s) = Some (n, s)"
proof -
  have w: "WriteVarInt_int n = WriteVarInt (nat n)"
    using assms by (auto simp: WriteVarInt_int_def WriteVarInt_def varint_tmp.simps [of "nat n"] nat_mod_distrib
        simp flip: of_nat_mod)
  have "ReadVarInt 32 (WriteVarInt (nat n) @ s) = Some (nat n, s)"
    using assms by (intro ReadVarInt_Write) auto
  moreover have "sint (word_of_int n :: 32 word) = n"
    using assms by (simp add: signed_of_int signed_take_bit_int_eq_self)
  ultimately show ?thesis using assms by (simp add: ReadVarInt_int_def w)
qed

section \<open>Round trips of amounts and scripts\<close>

lemma strip_zeros_spec:
  "strip_zeros n e = (m, k) \<Longrightarrow> e \<le> 9 \<Longrightarrow>
     e \<le> k \<and> k \<le> 9 \<and> unat n = unat m * 10 ^ (k - e) \<and> (k < 9 \<longrightarrow> unat m mod 10 \<noteq> 0)"
proof (induction n e rule: strip_zeros.induct)
  case (1 n e)
  have u: "unat (n mod 10) = unat n mod 10" "unat (n div 10) = unat n div 10"
    by (simp_all add: unat_mod unat_div)
  show ?case
  proof (cases "n mod 10 = 0 \<and> e < 9")
    case True
    then have "strip_zeros (n div 10) (e + 1) = (m, k)" using 1(2) strip_zeros.simps [of n e] by simp
    with 1(1) [OF True] True u have IH: "e + 1 \<le> k" "k \<le> 9" "unat n div 10 = unat m * 10 ^ (k - (e + 1))"
      "k < 9 \<longrightarrow> unat m mod 10 \<noteq> 0" by auto
    have "unat n mod 10 = 0" using True u by simp
    then have "unat n = unat n div 10 * 10" by presburger
    also have "\<dots> = unat m * 10 ^ Suc (k - (e + 1))" using IH(3) by simp
    also have "Suc (k - (e + 1)) = k - e" using IH(1) by simp
    finally show ?thesis using IH by simp
  next
    case False
    then have "m = n" "k = e" using 1(2) strip_zeros.simps [of n e] by auto
    with False u 1(3) show ?thesis using unat_eq_0 [of "n mod 10"] by auto
  qed
qed

lemma word_of_nat_div: "a < 2 ^ 64 \<Longrightarrow> b < 2 ^ 64 \<Longrightarrow> (word_of_nat a :: u64) div word_of_nat b = word_of_nat (a div b)"
  using le_less_trans [OF div_le_dividend [of a b]] by (simp add: word_unat_eq_iff unat_div unat_of_nat)

lemma word_of_nat_mod: "a < 2 ^ 64 \<Longrightarrow> b < 2 ^ 64 \<Longrightarrow> (word_of_nat a :: u64) mod word_of_nat b = word_of_nat (a mod b)"
  using le_less_trans [OF mod_less_eq_dividend [of a b]] by (simp add: word_unat_eq_iff unat_mod unat_of_nat)

lemma word_of_nat_unat: "word_of_nat (unat w) = w"
  by simp

lemma times_10_pow: "((\<lambda>n :: u64. n * 10) ^^ e) n = n * 10 ^ e"
  by (induction e) simp_all

text \<open>Decompression of the two shapes of a compressed amount.\<close>

lemma DecompressAmount_small:
  assumes "1 \<le> d" "d \<le> 9" "e < 9" "1 + (q * 9 + d - 1) * 10 + e < 2 ^ 64"
  shows "DecompressAmount (word_of_nat (1 + (q * 9 + d - 1) * 10 + e)) = word_of_nat (q * 10 + d) * 10 ^ e"
proof -
  define X where "X = (q * 9 + d - 1) * 10 + e"
  have X: "X + 1 < 2 ^ 64" using assms by (simp add: X_def)
  have x10: "X mod 10 = e" "X div 10 = q * 9 + d - 1" using assms(3) by (simp_all add: X_def)
  have y9: "(q * 9 + (d - 1)) mod 9 = d - 1" "(q * 9 + (d - 1)) div 9 = q"
    using assms(1,2) div_mult_self3 [of 9 q "d - 1"] mod_mult_self3 [of q 9 "d - 1"] by auto
  have eq: "q * 9 + d - 1 = q * 9 + (d - 1)" using assms(1) by simp
  have m: "(word_of_nat X :: u64) mod 10 = word_of_nat e" "(word_of_nat X :: u64) div 10 = word_of_nat (q * 9 + (d - 1))"
    using word_of_nat_mod [of X 10] word_of_nat_div [of X 10] X x10 eq by simp_all
  have "y \<le> y * 10 + e" for y by simp
  then have "q * 9 + (d - 1) \<le> X" unfolding X_def eq .
  then have b: "q * 9 + (d - 1) < 2 ^ 64" using X by linarith
  have n: "(word_of_nat (q * 9 + (d - 1)) :: u64) mod 9 = word_of_nat (d - 1)"
    "(word_of_nat (q * 9 + (d - 1)) :: u64) div 9 = word_of_nat q"
    using word_of_nat_mod [OF b, of 9] word_of_nat_div [OF b, of 9] y9 by simp_all
  have z: "(word_of_nat (X + 1) :: u64) \<noteq> 0"
    using X unat_of_nat [of "X + 1", where 'a = 64] by (auto simp: unat_eq_zero)
  have d: "(word_of_nat (d - 1) :: u64) + 1 = word_of_nat d"
    using assms(1) by (metis of_nat_Suc add.commute Suc_diff_1 less_eq_Suc_le One_nat_def)
  have "unat (word_of_nat e :: u64) = e" using assms(3) by (simp add: unat_of_nat)
  moreover have "(word_of_nat X + 1 :: u64) \<noteq> 0" using z by (simp only: of_nat_add of_nat_1) simp
  ultimately have "DecompressAmount (word_of_nat X + 1) = (word_of_nat q * 10 + word_of_nat d) * 10 ^ e"
    using assms(3) by (simp only: DecompressAmount_def Let_def m n d times_10_pow add_diff_cancel_right' if_True if_False)
  then have "DecompressAmount (word_of_nat X + 1) = word_of_nat (q * 10 + d) * 10 ^ e" by simp
  moreover have "1 + (q * 9 + d - 1) * 10 + e = X + 1" by (simp add: X_def)
  ultimately show ?thesis by (simp only: of_nat_add of_nat_1)
qed

lemma DecompressAmount_big:
  assumes "0 < q" "1 + (q - 1) * 10 + 9 < 2 ^ 64"
  shows "DecompressAmount (word_of_nat (1 + (q - 1) * 10 + 9)) = word_of_nat q * 10 ^ 9"
proof -
  define X where "X = (q - 1) * 10 + 9"
  have X: "X + 1 < 2 ^ 64" using assms by (simp add: X_def)
  have x10: "X mod 10 = 9" "X div 10 = q - 1" by (simp_all add: X_def)
  have m: "(word_of_nat X :: u64) mod 10 = word_of_nat 9" "(word_of_nat X :: u64) div 10 = word_of_nat (q - 1)"
    using word_of_nat_mod [of X 10] word_of_nat_div [of X 10] X x10 by simp_all
  have z: "(word_of_nat (X + 1) :: u64) \<noteq> 0"
    using X unat_of_nat [of "X + 1", where 'a = 64] by (auto simp: unat_eq_zero)
  have d: "(word_of_nat (q - 1) :: u64) + 1 = word_of_nat q"
    using assms(1) by (metis of_nat_Suc add.commute Suc_diff_1)
  have "unat (word_of_nat 9 :: u64) = 9" by simp
  then have "DecompressAmount (word_of_nat X + 1) = word_of_nat q * 10 ^ 9"
    using z d
    by (simp only: DecompressAmount_def Let_def m times_10_pow add_diff_cancel_right' if_False of_nat_add of_nat_1
        less_irrefl)
  moreover have "1 + (q - 1) * 10 + 9 = X + 1" by (simp add: X_def)
  ultimately show ?thesis by (simp only: of_nat_add of_nat_1)
qed

text \<open>Amounts up to \<open>2 * 10 ^ 18\<close>, ten times the range of \<^verbatim>\<open>MoneyRange\<close>, do not overflow.\<close>

lemma Decompress_CompressAmount:
  assumes "unat n \<le> 2 * 10 ^ 18"
  shows "DecompressAmount (CompressAmount n) = n"
proof (cases "n = 0")
  case False
  obtain m e where s: "strip_zeros n 0 = (m, e)" by fastforce
  from strip_zeros_spec [OF s] have e: "e \<le> 9" and n: "unat n = unat m * 10 ^ e"
    and d: "e < 9 \<longrightarrow> unat m mod 10 \<noteq> 0" by auto
  let ?q = "unat m div 10" and ?d = "unat m mod 10"
  have m: "unat m \<le> 2 * 10 ^ 18" using n assms
    by (metis le_trans mult_le_mono2 nat_mult_1_right one_le_numeral one_le_power)
  have m0: "0 < unat m" using False n by (metis gr0I mult_is_0 unat_eq_0)
  have nw: "word_of_nat (unat m) * 10 ^ e = n"
    using n by (metis of_nat_mult of_nat_numeral of_nat_power word_of_nat_unat)
  show ?thesis
  proof (cases "e < 9")
    case True
    have wd: "m mod 10 = word_of_nat ?d" "m div 10 = word_of_nat ?q"
      using word_of_nat_mod [of "unat m" 10] word_of_nat_div [of "unat m" 10] m by simp_all
    have y: "(word_of_nat ?q * 9 + word_of_nat ?d - 1 :: u64) = word_of_nat (?q * 9 + ?d - 1)"
      using d True by (simp add: of_nat_diff)
    have w: "word_of_nat (1 + Y * 10 + e) = (1 + word_of_nat Y * 10 + word_of_nat e :: u64)" for Y by simp
    have c: "CompressAmount n = word_of_nat (1 + (?q * 9 + ?d - 1) * 10 + e)"
      using False True by (simp only: CompressAmount_def s prod.case Let_def wd y w if_True if_False)
    have "unat m = ?q * 10 + ?d" "?d \<le> 9" by simp_all
    moreover have "(q * 9 + d) * 10 \<le> 9 * (q * 10 + d) + 9" if "d \<le> 9" for q d :: nat using that by simp
    ultimately have "(?q * 9 + ?d) * 10 \<le> 9 * unat m + 9" by metis
    then have "(?q * 9 + ?d - 1) * 10 \<le> 18 * 10 ^ 18 + 9" using m by (simp add: diff_mult_distrib)
    then have "1 + (?q * 9 + ?d - 1) * 10 + e < 2 ^ 64" using True by simp
    from DecompressAmount_small [OF _ _ True this] d True have
      "DecompressAmount (CompressAmount n) = word_of_nat (?q * 10 + ?d) * 10 ^ e"
      using c by auto
    then show ?thesis using nw by simp
  next
    case False
    with e have e9: "e = 9" by simp
    have w: "(word_of_nat (unat m) - 1 :: u64) = word_of_nat (unat m - 1)"
      using m0 by (simp add: of_nat_diff)
    have c: "CompressAmount n = word_of_nat (1 + (unat m - 1) * 10 + 9)"
      using \<open>n \<noteq> 0\<close> s e9 w by (simp add: CompressAmount_def)
    have "unat m \<le> 2 * 10 ^ 9" using n assms e9 by simp
    then have "1 + (unat m - 1) * 10 + 9 < 2 ^ 64" by simp
    from DecompressAmount_big [OF m0 this] show ?thesis using c e9 nw by simp
  qed
qed (simp add: CompressAmount_def DecompressAmount_def)

text \<open>
  What the script compressor relies on: a fully valid uncompressed key is the decompression of
  its x coordinate with the parity of its y coordinate.
\<close>

definition keys_decompress :: "(bytes \<Rightarrow> bool) \<Rightarrow> (bytes \<Rightarrow> bytes option) \<Rightarrow> bool" where
  "keys_decompress V D \<longleftrightarrow> (\<forall>k. length k = 65 \<and> k ! 0 = 0x04 \<and> V k \<longrightarrow>
     D ((0x02 OR (k ! 64 AND 0x01)) # slice 1 32 k) = Some k)"

lemma split_slice: "a + k \<le> length s \<Longrightarrow> s = take a s @ slice a k s @ drop (a + k) s"
  by (metis append_take_drop_id drop_drop slice_def add.commute)

lemma length_slice [simp]: "a + k \<le> length s \<Longrightarrow> length (slice a k s) = k"
  by (simp add: slice_def)

lemma takes:
  "1 \<le> length s \<Longrightarrow> take 1 s = [s ! 0]" "2 \<le> length s \<Longrightarrow> take 2 s = [s ! 0, s ! 1]"
  "3 \<le> length s \<Longrightarrow> take 3 s = [s ! 0, s ! 1, s ! 2]"
  by (auto simp: numeral_eq_Suc Suc_le_length_iff)

lemma drops:
  "length s = Suc a \<Longrightarrow> drop a s = [s ! a]" "length s = Suc (Suc a) \<Longrightarrow> drop a s = [s ! a, s ! Suc a]"
  by (simp_all add: Cons_nth_drop_Suc [symmetric])

lemma special_byte:
  assumes "n < 6" "length v = GetSpecialSize n" "Decompress D n v = Some script"
  shows "unser_script D script0 (word_of_nat n # v @ s) = Some (script, s)"
proof -
  have "ReadVarInt 32 (word_of_nat n # v @ s) = Some (n, v @ s)"
    using ReadVarInt_Write [of n 32 "v @ s"] assms(1) by (simp add: WriteVarInt_def varint_tmp.simps [of n])
  then show ?thesis using assms by (simp add: unser_script_def nSpecialScripts_def le_num_append_read)
qed

lemma and_one_cases: "(b :: u8) AND 1 = 0 \<or> b AND 1 = 1"
  by (simp add: and_one_eq) (metis bit_eq_rec not_mod_2_eq_0_eq_1 parity_cases)

lemma Compress_cases:
  assumes "Compress V script = Some compr" "keys_decompress V D"
  obtains n v where "n < 6" "compr = word_of_nat n # v" "length v = GetSpecialSize n" "Decompress D n v = Some script"
proof -
  consider (key) k where "IsToKeyID script = Some k" "compr = 0 # k"
    | (scr) k where "IsToScriptID script = Some k" "compr = 1 # k"
    | (pub) k where "IsToPubKey V script = Some k" "k ! 0 = 2 \<or> k ! 0 = 3" "compr = k ! 0 # slice 1 32 k"
    | (full) k where "IsToPubKey V script = Some k" "k ! 0 = 4" "compr = (4 OR (k ! 64 AND 1)) # slice 1 32 k"
    using assms(1) by (auto simp: Compress_def split: option.splits if_splits)
  then show ?thesis
  proof cases
    case key
    then have "length script = 25" "script = [OP_DUP, OP_HASH160, 20] @ k @ [OP_EQUALVERIFY, OP_CHECKSIG]" "length k = 20"
      using split_slice [of 3 20 script] takes(3) [of script] drops(2) [of script 23]
      by (auto simp: IsToKeyID_def split: if_splits)
    then show ?thesis using key(2) by (intro that [of 0 k]) (auto simp: GetSpecialSize_def Decompress_def)
  next
    case scr
    then have "length script = 23" "script = [OP_HASH160, 20] @ k @ [OP_EQUAL]" "length k = 20"
      using split_slice [of 2 20 script] takes(2) [of script] drops(1) [of script 22]
      by (auto simp: IsToScriptID_def split: if_splits)
    then show ?thesis using scr(2) by (intro that [of 1 k]) (auto simp: GetSpecialSize_def Decompress_def)
  next
    case pub
    have k: "length script = 35" "script ! 0 = 33" "script ! 34 = OP_CHECKSIG" "k = slice 1 33 script" "length k = 33"
      using pub by (auto simp: IsToPubKey_def slice_def split: if_splits)
    have "script = 33 # k @ [OP_CHECKSIG]"
      using k split_slice [of 1 33 script] takes(1) [of script] drops(1) [of script 34] by simp
    moreover have "k = k ! 0 # slice 1 32 k"
      using k(5) split_slice [of 1 32 k] takes(1) [of k] by simp
    ultimately have "script = [33, k ! 0] @ slice 1 32 k @ [OP_CHECKSIG]" "length (slice 1 32 k) = 32"
      using k(5) by auto
    then show ?thesis
      using pub(2,3) that [of 2 "slice 1 32 k"] that [of 3 "slice 1 32 k"]
      by (auto simp: GetSpecialSize_def Decompress_def)
  next
    case full
    have k: "length script = 67" "script ! 0 = 65" "script ! 66 = OP_CHECKSIG" "k = slice 1 65 script" "length k = 65" "V k"
      using full by (auto simp: IsToPubKey_def slice_def split: if_splits)
    have "script = 65 # k @ [OP_CHECKSIG]"
      using k split_slice [of 1 65 script] takes(1) [of script] drops(1) [of script 66] by simp
    moreover have "D ((2 OR (k ! 64 AND 1)) # slice 1 32 k) = Some k"
      using assms(2) k full(2) by (simp add: keys_decompress_def)
    moreover have "length (slice 1 32 k) = 32" using k(5) by simp
    ultimately show ?thesis
      using full(3) and_one_cases [of "k ! 64"] that [of 4 "slice 1 32 k"] that [of 5 "slice 1 32 k"]
      by (auto simp: GetSpecialSize_def Decompress_def)
  qed
qed

lemma unser_ser_script:
  assumes "keys_decompress V D" "length script \<le> MAX_SCRIPT_SIZE"
  shows "unser_script D script0 (ser_script V script @ s) = Some (script, s)"
proof (cases "Compress V script")
  case None
  have "length script + nSpecialScripts < 2 ^ 32" using assms(2) by (simp add: MAX_SCRIPT_SIZE_def nSpecialScripts_def)
  from ReadVarInt_Write [OF this, of "script @ s"] show ?thesis
    using None assms(2) by (simp add: ser_script_def unser_script_def nSpecialScripts_def le_num_append_read)
next
  case (Some compr)
  from Compress_cases [OF Some assms(1)] obtain n v where "n < 6" "compr = word_of_nat n # v"
    "length v = GetSpecialSize n" "Decompress D n v = Some script" .
  then show ?thesis using special_byte Some by (simp add: ser_script_def)
qed

lemma unser_ser_txout:
  assumes "keys_decompress V D" "length (scriptPubKey out) \<le> MAX_SCRIPT_SIZE" "0 \<le> nValue out" "nValue out \<le> 2 * 10 ^ 18"
  shows "unser_txout D (ser_txout V out @ s) = Some (out, s)"
proof -
  let ?w = "word_of_int (nValue out) :: u64"
  have v: "sint ?w = nValue out"
    using assms(3,4) by (simp add: signed_of_int signed_take_bit_int_eq_self)
  have "uint ?w = nValue out" using assms(3,4) by (simp add: unsigned_of_int take_bit_int_eq_self)
  then have "int (unat ?w) \<le> int (2 * 10 ^ 18)" using assms(4) by simp
  then have "unat ?w \<le> 2 * 10 ^ 18" by (simp only: of_nat_le_iff)
  then have "DecompressAmount (CompressAmount ?w) = ?w" by (rule Decompress_CompressAmount)
  moreover have "unat (CompressAmount ?w) < 2 ^ 64" using unsigned_less [of "CompressAmount ?w"] by simp
  ultimately show ?thesis
    using v ReadVarInt_Write [of "unat (CompressAmount ?w)" 64] unser_ser_script [OF assms(1,2)]
    by (cases out) (simp add: unser_txout_def ser_txout_def)
qed

section \<open>Round trips of coins and undo data\<close>

lemma bit_mask_fold:
  assumes "i < 8"
  shows "bit (fold (\<lambda>i chAvail. if mask_used vo b i then chAvail OR push_bit i 1 else chAvail) is (w :: u8)) i =
    (bit w i \<or> (i \<in> set is \<and> mask_used vo b i))"
proof (induction "is" arbitrary: w)
  case (Cons a "is")
  have "bit (push_bit a (1 :: u8)) i = (a = i)"
    using assms by (auto simp: bit_exp_iff possible_bit_def)
  then show ?case using Cons.IH by (cases "mask_used vo b a") (auto simp: bit_or_iff)
qed simp

lemma bit_mask_byte: "i < 8 \<Longrightarrow> bit (mask_byte vo b) i = mask_used vo b i"
  unfolding mask_byte_def by (subst bit_mask_fold) auto

lemma mask_byte_zero: "mask_byte vo b = 0 \<longleftrightarrow> mask_zero vo b"
proof -
  have "mask_byte vo b = 0 \<longleftrightarrow> (\<forall>i<8. \<not> bit (mask_byte vo b) i)"
    by (auto simp: bit_eq_iff possible_bit_def)
  then show ?thesis by (auto simp: bit_mask_byte mask_zero_def list_all_iff)
qed

lemma read_mask_bytes:
  "bs \<noteq> [] \<longrightarrow> last bs \<noteq> 0 \<Longrightarrow>
     read_mask (length (filter (\<lambda>b. b \<noteq> 0) bs)) (bs @ s) = Some (concat (map (\<lambda>b. map (bit b) [0..<8]) bs), s)"
proof (induction bs)
  case Nil
  then show ?case by (cases s) simp_all
next
  case (Cons b bs)
  have l: "bs \<noteq> [] \<longrightarrow> last bs \<noteq> 0" using Cons.prems by auto
  have "filter (\<lambda>b. b \<noteq> 0) (b # bs) \<noteq> []"
    using Cons.prems by (cases "bs = []") (auto simp: filter_empty_conv dest: last_in_set)
  then show ?case using Cons.IH [OF l] by (auto simp del: upt_Suc)
qed

lemma CalcMaskSize_fold:
  "fold (\<lambda>b (nLastUsedByte, nNonzeroBytes).
         if \<not> mask_zero vo b then (b + 1, nNonzeroBytes + 1) else (nLastUsedByte, nNonzeroBytes)) [0..<k] (0, 0) =
     (if list_all (mask_zero vo) [0..<k] then 0
      else Suc (last (filter (\<lambda>b. \<not> mask_zero vo b) [0..<k])), length (filter (\<lambda>b. \<not> mask_zero vo b) [0..<k]))"
  by (induction k) (auto simp: filter_empty_conv list_all_iff)

text \<open>On cleaned outputs the last mask byte is in use.\<close>

lemma last_mask_byte:
  assumes "vo \<noteq> [] \<longrightarrow> \<not> CTxOut_IsNull (last vo)" "mask_count vo = Suc k"
  shows "\<not> mask_zero vo k"
proof -
  have l: "Suc k = (length vo + 5) div 8" using assms(2) by (simp add: mask_count_def)
  define i where "i = length vo - 3 - k * 8"
  have "Suc k * 8 \<le> length vo + 5" "length vo + 5 < 8 + Suc k * 8"
    using dividend_less_div_times [of 8 "length vo + 5"] div_times_less_eq_dividend [of "length vo + 5" 8] l
    by simp_all
  then have i: "length vo = Suc (2 + k * 8 + i)" "i < 8" unfolding i_def by simp_all
  then have "last vo = vo ! (2 + k * 8 + i)" by (metis diff_Suc_1 last_conv_nth length_0_conv nat.distinct(1))
  then have "mask_used vo k i" using assms(1) i by (auto simp: mask_used_def)
  then show ?thesis using i by (auto simp: mask_zero_def list_all_iff)
qed

lemma CalcMaskSize_clean:
  assumes "vo \<noteq> [] \<longrightarrow> \<not> CTxOut_IsNull (last vo)"
  shows "CalcMaskSize vo = (mask_count vo, length (filter (\<lambda>b. b \<noteq> 0) (map (mask_byte vo) [0..<mask_count vo])))"
proof -
  have "length (filter (\<lambda>b. b \<noteq> 0) (map (mask_byte vo) xs)) = length (filter (\<lambda>b. \<not> mask_zero vo b) xs)" for xs
    by (induction xs) (auto simp: mask_byte_zero)
  moreover have "(if list_all (mask_zero vo) [0..<mask_count vo] then 0
      else Suc (last (filter (\<lambda>b. \<not> mask_zero vo b) [0..<mask_count vo]))) = mask_count vo"
  proof (cases "mask_count vo")
    case (Suc k)
    with last_mask_byte [OF assms Suc] show ?thesis by (simp add: list_all_iff)
  qed simp
  ultimately show ?thesis by (simp only: CalcMaskSize_def CalcMaskSize_fold)
qed

text \<open>The flags the reader gets: one per output, and padding up to the end of the mask.\<close>

lemma concat_bits:
  "concat (map (\<lambda>b. map (bit b) [0..<8]) (map (mask_byte vo) [0..<k])) =
     map (\<lambda>j. 2 + j < length vo \<and> \<not> CTxOut_IsNull (vo ! (2 + j))) [0..<8 * k]"
proof (induction k)
  case (Suc k)
  have "map (bit (mask_byte vo k)) [0..<8] = map (mask_used vo k) [0..<8]"
    by (rule map_cong [OF refl]) (simp add: bit_mask_byte)
  also have "\<dots> = map ((\<lambda>j. 2 + j < length vo \<and> \<not> CTxOut_IsNull (vo ! (2 + j))) \<circ> (\<lambda>i. i + 8 * k)) [0..<8]"
    by (rule map_cong [OF refl]) (simp add: mask_used_def add.commute add.left_commute mult.commute)
  also have "\<dots> = map (\<lambda>j. 2 + j < length vo \<and> \<not> CTxOut_IsNull (vo ! (2 + j))) [8 * k..<8 * Suc k]"
    by (simp only: map_map [symmetric] map_add_upt) (simp add: add.commute)
  finally have "map (bit (mask_byte vo k)) [0..<8] =
      map (\<lambda>j. 2 + j < length vo \<and> \<not> CTxOut_IsNull (vo ! (2 + j))) [8 * k..<8 * Suc k]" .
  moreover have "[0..<8 * Suc k] = [0..<8 * k] @ [8 * k..<8 * Suc k]"
    using upt_add_eq_append [of 0 "8 * k" 8, OF le0] by (simp only: mult_Suc_right add.commute [of 8])
  moreover have "concat (map (\<lambda>b. map (bit b) [0..<8]) (map (mask_byte vo) [0..<Suc k])) =
      concat (map (\<lambda>b. map (bit b) [0..<8]) (map (mask_byte vo) [0..<k])) @ map (bit (mask_byte vo k)) [0..<8]"
    by (simp del: upt_rec_numeral)
  ultimately show ?case using Suc.IH by (simp only: map_append)
qed simp

lemma avail_flags:
  "(length vo > 0 \<and> \<not> CTxOut_IsNull (vo ! 0)) # (length vo > 1 \<and> \<not> CTxOut_IsNull (vo ! 1)) #
     map (\<lambda>j. 2 + j < length vo \<and> \<not> CTxOut_IsNull (vo ! (2 + j))) [0..<8 * mask_count vo] =
   map (\<lambda>out. \<not> CTxOut_IsNull out) vo @ replicate (2 + 8 * mask_count vo - length vo) False" (is "?l = ?r")
proof (rule nth_equalityI)
  have len: "length vo \<le> 2 + 8 * mask_count vo"
    using dividend_less_div_times [of 8 "length vo + 5"] by (simp add: mask_count_def)
  then show "length ?l = length ?r" by simp
  fix i assume "i < length ?l"
  then have i: "i < 2 + 8 * mask_count vo" by simp
  have r: "?r ! i = (i < length vo \<and> \<not> CTxOut_IsNull (vo ! i))"
    using i by (auto simp: nth_append)
  show "?l ! i = ?r ! i"
  proof (cases i)
    case (Suc k)
    with r i show ?thesis by (cases k) auto
  qed (use r in simp)
qed

lemma read_outs_padding: "read_outs D (replicate k False) s = Some (replicate k CTxOut_null, s)"
  by (induction k) auto

lemma read_outs_ser:
  assumes "\<And>out s. out \<in> set vo \<Longrightarrow> \<not> CTxOut_IsNull out \<Longrightarrow> unser_txout D (ser_txout V out @ s) = Some (out, s)"
    and "\<And>out. out \<in> set vo \<Longrightarrow> CTxOut_IsNull out \<Longrightarrow> out = CTxOut_null"
  shows "read_outs D (map (\<lambda>out. \<not> CTxOut_IsNull out) vo @ replicate k False)
      (concat (map (\<lambda>out. if CTxOut_IsNull out then [] else ser_txout V out) vo) @ s) =
    Some (vo @ replicate k CTxOut_null, s)"
  using assms
proof (induction vo)
  case (Cons out vo)
  then show ?case using Cons.prems(2) [of out] by (cases "CTxOut_IsNull out") auto
qed (simp add: read_outs_padding)

lemma drop_null_padding:
  "(vo \<noteq> [] \<longrightarrow> \<not> CTxOut_IsNull (last vo)) \<Longrightarrow> drop_null (vo @ replicate k CTxOut_null) = vo"
proof (induction k)
  case (Suc k)
  have "replicate (Suc k) CTxOut_null = replicate k CTxOut_null @ [CTxOut_null]"
    by (simp add: replicate_append_same)
  then show ?case using Suc by (simp del: replicate.simps flip: append_assoc)
qed (simp add: drop_null_id)

text \<open>
  Coins that have a stored form: well-formed and not pruned, amounts within ten times
  \<^verbatim>\<open>MoneyRange\<close>, spendable scripts, no more than \<open>2 ^ 31\<close> outputs.
\<close>

definition storable_out :: "CTxOut \<Rightarrow> bool" where
  "storable_out out \<longleftrightarrow> 0 \<le> nValue out \<and> nValue out \<le> 2 * 10 ^ 18 \<and> length (scriptPubKey out) \<le> MAX_SCRIPT_SIZE"

definition storable :: "CCoins \<Rightarrow> bool" where
  "storable c \<longleftrightarrow> clean c \<and> \<not> IsPruned c \<and> length (co_vout c) < 2 ^ 31 \<and>
     0 \<le> co_nVersion c \<and> co_nVersion c < 2 ^ 31 \<and> 0 \<le> co_nHeight c \<and> co_nHeight c < 2 ^ 31 \<and>
     (\<forall>out\<in>set (co_vout c). CTxOut_IsNull out \<or> storable_out out)"

lemma mask_nonempty:
  assumes "clean c" "\<not> IsPruned c" "CalcMaskSize (co_vout c) = (nBytes, nNonzero)"
  shows "(length (co_vout c) > 0 \<and> \<not> CTxOut_IsNull (co_vout c ! 0)) \<or>
    (length (co_vout c) > 1 \<and> \<not> CTxOut_IsNull (co_vout c ! 1)) \<or> nNonzero \<noteq> 0"
proof -
  let ?vo = "co_vout c"
  have vo: "?vo \<noteq> []" and cl: "?vo \<noteq> [] \<longrightarrow> \<not> CTxOut_IsNull (last ?vo)"
    using assms(1,2) by (auto simp: clean_pruned clean_def)
  show ?thesis
  proof (cases "mask_count ?vo")
    case 0
    then have "length ?vo + 5 < 8" by (simp add: mask_count_def div_eq_0_iff)
    moreover have "0 < length ?vo" using vo by simp
    ultimately consider "length ?vo = 1" | "length ?vo = 2" by linarith
    then show ?thesis
    proof cases
      case 1
      then have "last ?vo = ?vo ! 0" using last_conv_nth [OF vo] by simp
      then show ?thesis using 1 cl vo by simp
    next
      case 2
      then have "last ?vo = ?vo ! 1" using last_conv_nth [OF vo] by simp
      then show ?thesis using 2 cl vo by simp
    qed
  next
    case (Suc k)
    have "mask_byte ?vo k \<noteq> 0" using last_mask_byte [OF cl Suc] by (simp add: mask_byte_zero)
    moreover have "k \<in> set [0..<mask_count ?vo]" using Suc by simp
    ultimately have "filter (\<lambda>b. b \<noteq> 0) (map (mask_byte ?vo) [0..<mask_count ?vo]) \<noteq> []"
      unfolding filter_empty_conv by (metis image_eqI set_map)
    moreover have "nNonzero = length (filter (\<lambda>b. b \<noteq> 0) (map (mask_byte ?vo) [0..<mask_count ?vo]))"
      using CalcMaskSize_clean [OF cl] assms(3) by (metis prod.inject)
    ultimately have "nNonzero \<noteq> 0" by (metis length_0_conv)
    then show ?thesis by blast
  qed
qed

lemma nCode_parts:
  fixes x :: nat and cb f s :: bool
  defines "nCode \<equiv> 8 * x + (if cb then 1 else 0) + (if f then 2 else 0) + (if s then 4 else 0)"
  shows "odd nCode = cb" "odd (nCode div 2) = f" "odd (nCode div 4) = s" "nCode div 8 = x" "nCode \<le> 8 * x + 7"
proof -
  have "nCode = 8 * x + (of_bool cb + 2 * of_bool f + 4 * of_bool s)" by (simp add: nCode_def)
  moreover have "(of_bool cb + 2 * of_bool f + 4 * of_bool s :: nat) \<le> 7" by simp
  ultimately show "nCode \<le> 8 * x + 7" by linarith
  have d: "(8 * x + r) div 2 = 4 * x + r div 2" "(8 * x + r) div 4 = 2 * x + r div 4" "(8 * x + r) div 8 = x + r div 8" for r
    by presburger+
  have "nCode = 8 * x + ((if cb then 1 else 0) + (if f then 2 else 0) + (if s then 4 else 0))" by (simp add: nCode_def)
  then show "odd nCode = cb" "odd (nCode div 2) = f" "odd (nCode div 4) = s" "nCode div 8 = x"
    by (simp_all only: d) (cases cb; cases f; cases s; simp)+
qed

text \<open>
  C29. The stored form of coins is read back exactly: for every unpruned record of unspent
  outputs, serialization succeeds and deserialization returns the same record and leaves the
  rest of the stream. The elliptic-curve functions only have to decompress the keys they call
  valid.
\<close>

theorem coins_codec_roundtrip:
  assumes "keys_decompress V D" and "storable c"
  shows "\<exists>bs. ser_coins V c = Some bs \<and> (\<forall>s. unser_coins D (bs @ s) = Some (c, s))"
proof -
  let ?vo = "co_vout c"
  have cl: "?vo \<noteq> [] \<longrightarrow> \<not> CTxOut_IsNull (last ?vo)" and nul: "\<And>out. out \<in> set ?vo \<Longrightarrow> CTxOut_IsNull out \<Longrightarrow> out = CTxOut_null"
    using assms(2) by (auto simp: storable_def clean_def)
  define N where "N = length (filter (\<lambda>b. b \<noteq> 0) (map (mask_byte ?vo) [0..<mask_count ?vo]))"
  define f where "f \<longleftrightarrow> length ?vo > 0 \<and> \<not> CTxOut_IsNull (?vo ! 0)"
  define g where "g \<longleftrightarrow> length ?vo > 1 \<and> \<not> CTxOut_IsNull (?vo ! 1)"
  define x where "x = N - (if f \<or> g then 0 else 1)"
  define nCode where "nCode = 8 * x + (if co_fCoinBase c then 1 else 0) + (if f then 2 else 0) + (if g then 4 else 0)"
  have m: "CalcMaskSize ?vo = (mask_count ?vo, N)" unfolding N_def by (rule CalcMaskSize_clean [OF cl])
  have ne: "f \<or> g \<or> N \<noteq> 0" using mask_nonempty [OF _ _ m] assms(2) by (auto simp: storable_def f_def g_def)
  note parts = nCode_parts [of x "co_fCoinBase c" f g, folded nCode_def]
  have xN: "x + (if f \<or> g then 0 else 1) = N" using ne by (auto simp: x_def)
  have "N \<le> mask_count ?vo" unfolding N_def using length_filter_le [of _ "map (mask_byte ?vo) [0..<mask_count ?vo]"] by simp
  moreover have "8 * mask_count ?vo \<le> length ?vo + 5" by (simp add: mask_count_def)
  moreover have "x \<le> N" by (simp add: x_def)
  ultimately have "nCode < 2 ^ 32" using parts(5) assms(2) by (simp add: storable_def)
  note code = ReadVarInt_Write [OF this]
  let ?bs = "map (mask_byte ?vo) [0..<mask_count ?vo]"
  have "?bs \<noteq> [] \<longrightarrow> last ?bs \<noteq> 0"
    using last_mask_byte [OF cl] by (cases "mask_count ?vo") (auto simp: mask_byte_zero)
  note mask = read_mask_bytes [OF this, folded N_def, unfolded concat_bits]
  have outs: "read_outs D (f # g # map (\<lambda>j. 2 + j < length ?vo \<and> \<not> CTxOut_IsNull (?vo ! (2 + j))) [0..<8 * mask_count ?vo])
      (concat (map (\<lambda>out. if CTxOut_IsNull out then [] else ser_txout V out) ?vo) @ s) =
    Some (?vo @ replicate (2 + 8 * mask_count ?vo - length ?vo) CTxOut_null, s)" for s
    unfolding f_def g_def avail_flags
    using assms nul by (intro read_outs_ser unser_ser_txout) (auto simp: storable_def storable_out_def)
  have ver: "ReadVarInt_int (WriteVarInt_int (co_nVersion c) @ s) = Some (co_nVersion c, s)"
    and hgt: "ReadVarInt_int (WriteVarInt_int (co_nHeight c) @ s) = Some (co_nHeight c, s)" for s
    using assms(2) by (auto intro!: ReadVarInt_int_Write simp: storable_def)
  have "ser_coins V c = Some (WriteVarInt_int (co_nVersion c) @ WriteVarInt nCode @ ?bs @
      concat (map (\<lambda>out. if CTxOut_IsNull out then [] else ser_txout V out) ?vo) @ WriteVarInt_int (co_nHeight c))"
    using ne unfolding ser_coins_def Let_def m prod.case f_def [symmetric] g_def [symmetric] x_def [symmetric]
      nCode_def [symmetric] by simp
  moreover have "unser_coins D ((WriteVarInt_int (co_nVersion c) @ WriteVarInt nCode @ ?bs @
      concat (map (\<lambda>out. if CTxOut_IsNull out then [] else ser_txout V out) ?vo) @ WriteVarInt_int (co_nHeight c)) @ s) =
    Some (c, s)" for s
    using drop_null_padding [OF cl]
    by (simp only: unser_coins_def append_assoc ver hgt code mask outs parts xN option.case prod.case Let_def)
      (simp add: Cleanup_def)
  ultimately show ?thesis by blast
qed

text \<open>A curve whose y coordinates are 0 and 1, and a coin whose first output is spent.\<close>

definition sample_valid :: "bytes \<Rightarrow> bool" where
  "sample_valid k \<longleftrightarrow> k = 4 # slice 1 32 k @ replicate 31 0 @ [k ! 64] \<and> (k ! 64 = 0 \<or> k ! 64 = 1)"

definition sample_decompress :: "bytes \<Rightarrow> bytes option" where
  "sample_decompress bs = (case bs of [] \<Rightarrow> None | p # x \<Rightarrow> Some (4 # x @ replicate 31 0 @ [p AND 1]))"

lemma sample_keys: "keys_decompress sample_valid sample_decompress"
proof -
  have "sample_decompress ((2 OR (k ! 64 AND 1)) # slice 1 32 k) = Some k" if "sample_valid k" for k
  proof -
    have "(2 OR (k ! 64 AND 1)) AND 1 = k ! 64" using that by (auto simp: sample_valid_def)
    then show ?thesis using that by (simp only: sample_decompress_def sample_valid_def list.case)
  qed
  then show ?thesis by (simp add: keys_decompress_def)
qed

definition sample_stored :: CCoins where
  "sample_stored = \<lparr>co_fCoinBase = True, co_vout = [CTxOut_null, \<lparr>nValue = 700000000, scriptPubKey = [0x51]\<rparr>],
     co_nHeight = 3, co_nVersion = 1\<rparr>"

theorem coins_codec_roundtrip_witness:
  "\<exists>bs. ser_coins sample_valid sample_stored = Some bs \<and> (\<forall>s. unser_coins sample_decompress (bs @ s) = Some (sample_stored, s))"
proof -
  have "storable sample_stored"
    by (simp add: storable_def sample_stored_def clean_def IsPruned_def CTxOut_IsNull_def CTxOut_null_def
        storable_out_def MAX_SCRIPT_SIZE_def)
  then show ?thesis by (rule coins_codec_roundtrip [OF sample_keys])
qed

text \<open>Undo data of a spend: the metadata is stored for the last output only.\<close>

lemma unser_ser_undo:
  assumes "keys_decompress V D" "storable_out (un_txout u)" "0 \<le> un_nHeight u" "un_nHeight u < 2 ^ 31"
    and "0 \<le> un_nVersion u" "un_nVersion u < 2 ^ 31" "un_nHeight u = 0 \<Longrightarrow> un_nVersion u = 0"
  shows "unser_undo D (ser_undo V u @ s) = Some (u, s)"
proof -
  define nCode where "nCode = nat (un_nHeight u * 2 + (if un_fCoinBase u then 1 else 0))"
  have "nat ((un_nHeight u * 2 + (if un_fCoinBase u then 1 else 0)) mod 2 ^ 32) = nCode"
    using assms(3,4) by (simp add: nCode_def)
  moreover have "nCode < 2 ^ 32" unfolding nCode_def using assms(3,4) by (auto simp: nat_less_iff)
  moreover have "nCode = 2 * nat (un_nHeight u) + (if un_fCoinBase u then 1 else 0)"
    using assms(3) by (simp add: nCode_def nat_add_distrib nat_mult_distrib)
  then have "nCode div 2 = nat (un_nHeight u)" "odd nCode = un_fCoinBase u" by simp_all
  moreover have "unser_txout D (ser_txout V (un_txout u) @ s) = Some (un_txout u, s)"
    using assms(1,2) by (intro unser_ser_txout) (auto simp: storable_out_def)
  ultimately show ?thesis
    using assms ReadVarInt_Write [of nCode 32] ReadVarInt_int_Write [of "un_nVersion u"]
    by (cases "un_nHeight u = 0"; cases u) (auto simp: ser_undo_def unser_undo_def split del: if_split)
qed

end
