(* ===== verification/Opoi_Process.thy ===== *)
theory Opoi_Process
  imports Opoi_Sortition
begin

text \<open>
  \<^verbatim>\<open>ProcessOPoITransaction\<close> (\<^verbatim>\<open>opoi/opoi.cpp\<close>): what connecting an OPoI transaction does to the
  cache, and what disconnecting it undoes. Each branch of the function is a definition; the
  two dispatchers at the end compose them by transaction type. \<open>pparams\<close> is the pointer the
  callers may leave null.

  The lemmas show that every branch keeps the cache invariant, and for which transactions
  and states the undo branch restores the cache the apply branch started from.
\<close>

section \<open>Undo\<close>

definition erase_who :: "('r \<Rightarrow> address) \<Rightarrow> address \<Rightarrow> 'r list \<Rightarrow> 'r list" where
  "erase_who who a rs = filter (\<lambda>r. who r \<noteq> a) rs"

definition undo_request :: "CTransaction \<Rightarrow> OPoICache \<Rightarrow> OPoICache" where
  "undo_request tx c = c\<lparr>mapRequests := sm_erase (opoiRequestId tx) (mapRequests c)\<rparr>"

definition undo_response_commit :: "CTransaction \<Rightarrow> OPoICache \<Rightarrow> OPoICache" where
  "undo_response_commit tx c =
     (let key = commit_key (opoiRequestId tx) (opoiMinerAddress tx)
      in c\<lparr>mapResponseCommits := sm_erase key (mapResponseCommits c),
           mapResponseCommitTxHash := sm_erase key (mapResponseCommitTxHash c),
           mapResponseCommitHeight := sm_erase key (mapResponseCommitHeight c),
           mapRequests := sm_modify (opoiRequestId tx)
             (\<lambda>r. r\<lparr>rq_responseCommits := sm_erase (opoiMinerAddress tx) (rq_responseCommits r)\<rparr>)
             (mapRequests c)\<rparr>)"

definition undo_response_reveal :: "CTransaction \<Rightarrow> OPoICache \<Rightarrow> OPoICache" where
  "undo_response_reveal tx c =
     (let c1 = c\<lparr>mapResponses := sm_erase (opoiRequestId tx) (mapResponses c)\<rparr>;
          c2 = c1\<lparr>mapRequests := sm_modify (opoiRequestId tx)
                   (\<lambda>r. r\<lparr>rq_status := RQ_PENDING,
                          rq_responseReveals := sm_erase (opoiMinerAddress tx) (rq_responseReveals r)\<rparr>)
                   (mapRequests c1)\<rparr>;
          c3 = UnmarkResponsePaid (opoiRequestId tx) c2
      in c3\<lparr>mapStakes := sm_modify (opoiMinerAddress tx)
               (\<lambda>s. if 0 < st_responsesTotal s then s\<lparr>st_responsesTotal := st_responsesTotal s - 1\<rparr> else s)
               (mapStakes c3)\<rparr>)"

definition undo_stake :: "CTransaction \<Rightarrow> OPoICache \<Rightarrow> OPoICache" where
  "undo_stake tx c =
     UnlockUTXO (opoiCollateralIn tx) (c\<lparr>mapStakes := sm_erase (opoiMinerAddress tx) (mapStakes c)\<rparr>)"

definition undo_unstake :: "CTransaction \<Rightarrow> OPoICache \<Rightarrow> OPoICache" where
  "undo_unstake tx c =
     c\<lparr>mapStakes := sm_modify (opoiMinerAddress tx)
         (\<lambda>s. s\<lparr>st_stakeStatus := ST_ACTIVE, st_unstakeHeight := 0, st_unstakeTxHash := uint256_zero\<rparr>)
         (mapStakes c)\<rparr>"

text \<open>The undo of \<^verbatim>\<open>RENEW\<close> is empty in the code.\<close>

definition undo_renew :: "CTransaction \<Rightarrow> OPoICache \<Rightarrow> OPoICache" where
  "undo_renew tx c = c"

definition undo_challenge_commit :: "CTransaction \<Rightarrow> OPoICache \<Rightarrow> OPoICache" where
  "undo_challenge_commit tx c =
     (let c1 = UnlockUTXO (opoiChallengerCollateralIn tx) c
      in c1\<lparr>mapChallenges := sm_erase (opoiRequestId tx) (mapChallenges c1)\<rparr>)"

definition undo_challenge_reveal :: "CTransaction \<Rightarrow> OPoICache \<Rightarrow> OPoICache" where
  "undo_challenge_reveal tx c =
     (case sm_find (mapChallenges c) (opoiRequestId tx) of
        None \<Rightarrow> c
      | Some ch \<Rightarrow>
          let c1 =
            (if ch_challengeStatus ch = CH_SLASHED then
               let c0 = (case sm_find (mapResponses c) (opoiRequestId tx) of
                           None \<Rightarrow> c
                         | Some resp \<Rightarrow>
                             c\<lparr>mapStakes := sm_modify (rs_minerAddress resp)
                                 (\<lambda>s. s\<lparr>st_stakeStatus := ST_ACTIVE\<rparr>) (mapStakes c)\<rparr>)
               in UnmarkChallengerRewardPaid (opoiRequestId tx)
                    (LockUTXO (ch_challengerCollateral ch) (ch_challengerAddress ch) (ch_txHash ch) c0)
             else if ch_challengeStatus ch = CH_RESOLVED_NO_ORACLE then
               LockUTXO (ch_challengerCollateral ch) (ch_challengerAddress ch) (ch_txHash ch) c
             else c)
          in c1\<lparr>mapChallenges := sm_modify (opoiRequestId tx)
                  (\<lambda>ch. ch\<lparr>ch_phase := 0, ch_fraudProof := [], ch_challengeStatus := CH_OPEN,
                           ch_revealTxHash := uint256_zero\<rparr>)
                  (mapChallenges c1)\<rparr>)"

definition undo_model_register :: "CTransaction \<Rightarrow> OPoICache \<Rightarrow> OPoICache" where
  "undo_model_register tx c =
     c\<lparr>mapModelManifests := sm_erase (opoiModelId tx) (mapModelManifests c),
       mapModelVotes := sm_erase (opoiModelId tx) (mapModelVotes c)\<rparr>"

definition undo_model_vote :: "CTransaction \<Rightarrow> OPoICache \<Rightarrow> OPoICache" where
  "undo_model_vote tx c =
     c\<lparr>mapModelVotes := sm_modify (opoiModelId tx) (sm_erase (opoiRequester tx)) (mapModelVotes c)\<rparr>"

definition undo_coordinator_claim :: "CTransaction \<Rightarrow> OPoICache \<Rightarrow> OPoICache" where
  "undo_coordinator_claim tx c =
     c\<lparr>mapCoordinatorClaims := sm_modify (opoiRequestId tx)
         (erase_who cl_minerAddress (opoiMinerAddress tx)) (mapCoordinatorClaims c)\<rparr>"

definition undo_shard_result :: "CTransaction \<Rightarrow> OPoICache \<Rightarrow> OPoICache" where
  "undo_shard_result tx c =
     UnmarkShardPaid (opoiRequestId tx) (opoiShardIndex tx)
       (c\<lparr>mapShardResults := sm_modify (ShardKey (opoiRequestId tx) (opoiShardIndex tx))
           (erase_who sr_minerAddress (opoiMinerAddress tx)) (mapShardResults c)\<rparr>)"

text \<open>The status of the auditor's vote is looked up before the vote is erased; no vote counts as pending.\<close>

definition vote_status :: "address \<Rightarrow> AuditorVerification list \<Rightarrow> auditor_status" where
  "vote_status a vs = (case find (\<lambda>v. av_auditorAddress v = a) vs of None \<Rightarrow> AS_PENDING | Some v \<Rightarrow> av_status v)"

definition undo_auditor_verify :: "CTransaction \<Rightarrow> OPoICache \<Rightarrow> OPoICache" where
  "undo_auditor_verify tx c =
     (let isShardScoped = (opoiShardIndex tx \<noteq> OPOI_AUDITOR_VERIFY_NO_SHARD);
          key = (if isShardScoped then ShardKey (opoiRequestId tx) (opoiShardIndex tx) else opoiRequestId tx);
          verifs = vec_at (if isShardScoped then mapShardAuditorVerifications c else mapAuditorVerifications c) key;
          status = vote_status (opoiAuditorAddress tx) verifs;
          drop_vote = sm_modify key (erase_who av_auditorAddress (opoiAuditorAddress tx));
          c1 = (if isShardScoped
                then c\<lparr>mapShardAuditorVerifications := drop_vote (mapShardAuditorVerifications c)\<rparr>
                else c\<lparr>mapAuditorVerifications := drop_vote (mapAuditorVerifications c)\<rparr>);
          c2 = (if status \<noteq> AS_SLASHED then UnlockUTXO (opoiAuditorCollateralIn tx) c1 else c1)
      in if \<not> isShardScoped then UnmarkAuditorResolved (opoiRequestId tx) c2
         else UnmarkShardAuditorResolved (opoiRequestId tx) (opoiShardIndex tx) c2)"

definition UndoOPoITransaction :: "CTransaction \<Rightarrow> OPoICache \<Rightarrow> OPoICache" where
  "UndoOPoITransaction tx c =
     (if nType tx = OPOI_REQUEST_TX_TYPE then undo_request tx c
      else if nType tx = OPOI_RESPONSE_TX_TYPE then
        (if opoiResponsePhase tx = 0 then undo_response_commit tx c else undo_response_reveal tx c)
      else if nType tx = OPOI_STAKE_TX_TYPE then undo_stake tx c
      else if nType tx = OPOI_UNSTAKE_TX_TYPE then undo_unstake tx c
      else if nType tx = OPOI_RENEW_TX_TYPE then undo_renew tx c
      else if nType tx = OPOI_CHALLENGE_TX_TYPE then
        (if opoiChallengePhase tx = 0 then undo_challenge_commit tx c else undo_challenge_reveal tx c)
      else if nType tx = OPOI_MODEL_REGISTER_TX_TYPE then undo_model_register tx c
      else if nType tx = OPOI_MODEL_VOTE_TX_TYPE then undo_model_vote tx c
      else if nType tx = OPOI_COORDINATOR_CLAIM_TX_TYPE then undo_coordinator_claim tx c
      else if nType tx = OPOI_SHARD_RESULT_TX_TYPE then undo_shard_result tx c
      else if nType tx = OPOI_AUDITOR_VERIFY_TX_TYPE then undo_auditor_verify tx c
      else c)"

section \<open>Apply\<close>

definition apply_request :: "CTransaction \<Rightarrow> u32 \<Rightarrow> OPoICache \<Rightarrow> OPoICache" where
  "apply_request tx blockHeight c =
     AddRequest
       \<lparr>rq_requestId = opoiRequestId tx, rq_requester = opoiRequester tx, rq_model = opoiModel tx,
        rq_promptHash = opoiPromptHash tx, rq_maxTokens = opoiMaxTokens tx, rq_payment = opoiPayment tx,
        rq_feePerToken = opoiFeePerToken tx, rq_taskType = opoiTaskType tx, rq_taskClass = opoiTaskClass tx,
        rq_promptTokenCount = opoiPromptTokenCount tx, rq_isCanary = opoiIsCanary tx,
        rq_testSuite = opoiTestSuite tx, rq_blockHeight = blockHeight, rq_sigTime = opoiSigTime tx,
        rq_txHash = tx_hash tx, rq_status = RQ_PENDING, rq_responseCommits = [], rq_responseReveals = [],
        rq_commitWindowClosed = False, rq_vrfActiveStakers = word_of_int (CountActiveStakers c)\<rparr> c"

definition apply_response_commit :: "CTransaction \<Rightarrow> u32 \<Rightarrow> OPoICache \<Rightarrow> OPoICache" where
  "apply_response_commit tx blockHeight c =
     AddResponseCommit (opoiRequestId tx) (opoiMinerAddress tx) (HexStr (opoiResponseCommitHash tx))
       blockHeight (tx_hash tx) c"

definition apply_response_reveal :: "opoi_env \<Rightarrow> Params option \<Rightarrow> CTransaction \<Rightarrow> u32 \<Rightarrow> OPoICache \<Rightarrow> OPoICache" where
  "apply_response_reveal e pparams tx blockHeight c =
     (let (selected, deadline) =
            (case pparams of
               None \<Rightarrow> (False, 0)
             | Some p \<Rightarrow> snd (EvaluateOPoIAuditSample e c (opoiRequestId tx) (opoiMinerAddress tx) blockHeight p));
          resp = \<lparr>rs_requestId = opoiRequestId tx, rs_minerAddress = opoiMinerAddress tx,
                  rs_responseHash = opoiResponseHash tx, rs_commitment = opoiCommitment tx,
                  rs_tokenCount = opoiTokenCount tx, rs_responsePhase = 1, rs_blockHeight = blockHeight,
                  rs_sigTime = opoiSigTime tx, rs_txHash = tx_hash tx,
                  rs_auditSelected = (if selected then 1 else 0), rs_auditDeadline = deadline\<rparr>;
          c1 = AddResponse resp c;
          c2 = c1\<lparr>mapStakes := sm_modify (opoiMinerAddress tx)
                   (\<lambda>s. s\<lparr>st_responsesTotal := st_responsesTotal s + 1\<rparr>) (mapStakes c1)\<rparr>
      in c2\<lparr>mapRequests := sm_modify (opoiRequestId tx)
              (\<lambda>r. r\<lparr>rq_responseReveals :=
                      sm_put (opoiMinerAddress tx) (GetHex (opoiResponseHash tx)) (rq_responseReveals r)\<rparr>)
              (mapRequests c2)\<rparr>)"

definition stake_sigMsg :: "CTransaction \<Rightarrow> string" where
  "stake_sigMsg tx =
     opoiMinerAddress tx @ GetHex (op_hash (opoiCollateralIn tx)) @ dec_u32 (op_n (opoiCollateralIn tx))"

definition apply_stake :: "opoi_env \<Rightarrow> CTransaction \<Rightarrow> u32 \<Rightarrow> OPoICache \<Rightarrow> OPoICache" where
  "apply_stake e tx blockHeight c =
     LockUTXO (opoiCollateralIn tx) (opoiMinerAddress tx) (tx_hash tx)
       (AddStake
         \<lparr>st_minerAddress = opoiMinerAddress tx, st_collateralIn = opoiCollateralIn tx,
          st_amount = opoiPayment tx, st_modelId = opoiModelId tx, st_tier = opoiTier tx,
          st_pomRoot = opoiPomRoot tx, st_blockHeight = blockHeight, st_lastRenewalHeight = 0,
          st_sigTime = opoiSigTime tx, st_txHash = tx_hash tx, st_stakeStatus = ST_ACTIVE,
          st_unstakeHeight = 0, st_unstakeTxHash = uint256_zero, st_responsesTotal = 0,
          st_responsesChallenged = 0, st_responsesSlashed = 0, st_canaryStrikes = 0,
          st_canaryObligationDeadline = 0,
          st_minerPubKey =
            (case VerifyOPoISig e (opoiMinerAddress tx) (stake_sigMsg tx) (opoiSig tx) of
               None \<Rightarrow> [] | Some pk \<Rightarrow> pk),
          st_hostedExpertIds = opoiHostedExpertIds tx, st_endpoint = opoiEndpoint tx\<rparr> c)"

definition apply_unstake :: "CTransaction \<Rightarrow> u32 \<Rightarrow> OPoICache \<Rightarrow> OPoICache" where
  "apply_unstake tx blockHeight c = StartUnstake (opoiMinerAddress tx) blockHeight (tx_hash tx) c"

definition apply_renew :: "CTransaction \<Rightarrow> u32 \<Rightarrow> OPoICache \<Rightarrow> OPoICache" where
  "apply_renew tx blockHeight c =
     c\<lparr>mapStakes := sm_modify (opoiMinerAddress tx)
         (\<lambda>s. s\<lparr>st_lastRenewalHeight := blockHeight, st_canaryStrikes := 0, st_stakeStatus := ST_ACTIVE\<rparr>)
         (mapStakes c)\<rparr>"

definition apply_challenge_commit :: "CTransaction \<Rightarrow> u32 \<Rightarrow> OPoICache \<Rightarrow> OPoICache" where
  "apply_challenge_commit tx blockHeight c =
     (let ch = \<lparr>ch_requestId = opoiRequestId tx, ch_challengerAddress = opoiRequester tx, ch_fraudProof = [],
                ch_challengerCollateral = opoiChallengerCollateralIn tx, ch_phase = 0,
                ch_commitHash = HexStr (opoiCommitHash tx), ch_commitHeight = blockHeight,
                ch_blockHeight = blockHeight, ch_sigTime = opoiSigTime tx, ch_txHash = tx_hash tx,
                ch_challengeStatus = CH_OPEN, ch_revealTxHash = uint256_zero\<rparr>;
          c1 = LockUTXO (opoiChallengerCollateralIn tx) (opoiRequester tx) (tx_hash tx) (AddChallenge ch c)
      in case sm_find (mapResponses c1) (opoiRequestId tx) of
           None \<Rightarrow> c1
         | Some resp \<Rightarrow>
             c1\<lparr>mapStakes := sm_modify (rs_minerAddress resp)
                  (\<lambda>s. s\<lparr>st_responsesChallenged := st_responsesChallenged s + 1\<rparr>) (mapStakes c1)\<rparr>)"

text \<open>Shared by the reveal of a challenge and the deferred resolution: slash the responder's active stake.\<close>

definition slash_responder :: "string \<Rightarrow> OPoICache \<Rightarrow> OPoICache" where
  "slash_responder requestId c =
     (case sm_find (mapResponses c) requestId of
        None \<Rightarrow> c
      | Some resp \<Rightarrow>
          c\<lparr>mapStakes := sm_modify (rs_minerAddress resp)
              (\<lambda>s. if st_IsActive s
                   then s\<lparr>st_stakeStatus := ST_SLASHED, st_responsesSlashed := st_responsesSlashed s + 1\<rparr> else s)
              (mapStakes c)\<rparr>)"

definition apply_challenge_reveal :: "Params option \<Rightarrow> CTransaction \<Rightarrow> OPoICache \<Rightarrow> OPoICache" where
  "apply_challenge_reveal pparams tx c =
     (case sm_find (mapChallenges c) (opoiRequestId tx) of
        None \<Rightarrow> c
      | Some ch \<Rightarrow>
          let revealed = ch\<lparr>ch_phase := 1, ch_fraudProof := opoiProofData tx, ch_revealTxHash := tx_hash tx\<rparr>;
              set_status = (\<lambda>st c. c\<lparr>mapChallenges :=
                 sm_put (opoiRequestId tx) (revealed\<lparr>ch_challengeStatus := st\<rparr>) (mapChallenges c)\<rparr>)
          in case (GetRequest c (opoiRequestId tx), pparams) of
               (Some req, Some p) \<Rightarrow>
                 if rq_IsVerifiable req then
                   let majority = GetAuditorMajorityResult c (opoiRequestId tx) (nOPoIMinAuditors p)
                   in if majority = uint AUDITOR_VERIFY_FAIL then
                        set_status CH_SLASHED
                          (UnlockUTXO (ch_challengerCollateral ch) (slash_responder (opoiRequestId tx) c))
                      else if majority = uint AUDITOR_VERIFY_PASS then set_status CH_EXPIRED c
                      else set_status CH_REVEALED_PENDING c
                 else set_status CH_RESOLVED_NO_ORACLE (UnlockUTXO (ch_challengerCollateral ch) c)
             | _ \<Rightarrow> set_status CH_RESOLVED_NO_ORACLE (UnlockUTXO (ch_challengerCollateral ch) c))"

definition apply_model_register :: "opoi_env \<Rightarrow> Params option \<Rightarrow> CTransaction \<Rightarrow> u32 \<Rightarrow> OPoICache \<Rightarrow> OPoICache" where
  "apply_model_register e pparams tx blockHeight c =
     (let voteWindow = (case pparams of None \<Rightarrow> 200 | Some p \<Rightarrow> word_of_int (nOPoIModelVoteWindowBlocks p));
          m = \<lparr>mm_modelId = opoiModelId tx, mm_archType = opoiModelArchType tx,
               mm_totalParams = opoiModelTotalParams tx,
               mm_activeParamsPerToken = opoiModelActiveParamsPerToken tx,
               mm_numLayers = opoiModelNumLayers tx, mm_numDenseShards = opoiModelNumDenseShards tx,
               mm_numExperts = opoiModelNumExperts tx, mm_topKExperts = opoiModelTopKExperts tx,
               mm_backbonePomRoot = opoiPomRoot tx, mm_expertPomRoots = opoiModelExpertPomRoots tx,
               mm_minRewardPerToken = opoiModelMinRewardPerToken tx,
               mm_totalSizeBytes = opoiModelTotalSizeBytes tx, mm_proposer = opoiRequester tx,
               mm_proposedHeight = blockHeight, mm_voteWindowEndHeight = blockHeight + voteWindow,
               mm_activationHeight = 0, mm_txHash = tx_hash tx, mm_status = MS_VOTING,
               mm_shardTopologyHash = uint256_zero\<rparr>
      in AddModelManifest (m\<lparr>mm_shardTopologyHash := ComputeShardTopologyHash e m\<rparr>) c)"

definition apply_model_vote :: "CTransaction \<Rightarrow> u32 \<Rightarrow> OPoICache \<Rightarrow> OPoICache" where
  "apply_model_vote tx blockHeight c =
     AddModelVote (opoiModelId tx)
       \<lparr>vr_voterAddress = opoiRequester tx, vr_approve = (opoiModelVoteApprove tx \<noteq> 0),
        vr_weight = (case GetStake c (opoiRequester tx) of
                       None \<Rightarrow> 0 | Some s \<Rightarrow> if st_IsActive s then st_amount s else 0),
        vr_blockHeight = blockHeight, vr_txHash = tx_hash tx\<rparr> c"

definition apply_coordinator_claim :: "CTransaction \<Rightarrow> u32 \<Rightarrow> OPoICache \<Rightarrow> OPoICache" where
  "apply_coordinator_claim tx blockHeight c =
     AddCoordinatorClaim
       \<lparr>cl_requestId = opoiRequestId tx, cl_minerAddress = opoiMinerAddress tx,
        cl_blockHeight = blockHeight, cl_txHash = tx_hash tx\<rparr> c"

definition apply_shard_result :: "CTransaction \<Rightarrow> u32 \<Rightarrow> OPoICache \<Rightarrow> OPoICache" where
  "apply_shard_result tx blockHeight c =
     AddShardResult (opoiRequestId tx) (opoiShardIndex tx)
       \<lparr>sr_minerAddress = opoiMinerAddress tx, sr_boundaryOutputHash = opoiResponseHash tx,
        sr_routerLogitsHash = opoiCommitment tx, sr_tokenCount = opoiTokenCount tx,
        sr_blockHeight = blockHeight, sr_txHash = tx_hash tx\<rparr> c"

definition apply_auditor_verify :: "CTransaction \<Rightarrow> u32 \<Rightarrow> OPoICache \<Rightarrow> OPoICache" where
  "apply_auditor_verify tx blockHeight c =
     (let fv = \<lparr>av_requestId = opoiRequestId tx, av_auditorAddress = opoiAuditorAddress tx,
                av_result = opoiAuditorVerifyResult tx, av_auditorCollateral = opoiAuditorCollateralIn tx,
                av_blockHeight = blockHeight, av_txHash = tx_hash tx, av_status = AS_PENDING,
                av_shardIndex = opoiShardIndex tx\<rparr>
      in if opoiShardIndex tx = OPOI_AUDITOR_VERIFY_NO_SHARD then AddAuditorVerification fv c
         else AddShardAuditorVerification (opoiRequestId tx) (opoiShardIndex tx) fv c)"

definition ApplyOPoITransaction :: "opoi_env \<Rightarrow> Params option \<Rightarrow> CTransaction \<Rightarrow> u32 \<Rightarrow> OPoICache \<Rightarrow> OPoICache" where
  "ApplyOPoITransaction e pparams tx h c =
     (if nType tx = OPOI_REQUEST_TX_TYPE then apply_request tx h c
      else if nType tx = OPOI_RESPONSE_TX_TYPE \<and> opoiResponsePhase tx = 0 then apply_response_commit tx h c
      else if nType tx = OPOI_RESPONSE_TX_TYPE then apply_response_reveal e pparams tx h c
      else if nType tx = OPOI_STAKE_TX_TYPE then apply_stake e tx h c
      else if nType tx = OPOI_UNSTAKE_TX_TYPE then apply_unstake tx h c
      else if nType tx = OPOI_RENEW_TX_TYPE then apply_renew tx h c
      else if nType tx = OPOI_CHALLENGE_TX_TYPE \<and> opoiChallengePhase tx = 0 then apply_challenge_commit tx h c
      else if nType tx = OPOI_CHALLENGE_TX_TYPE then apply_challenge_reveal pparams tx c
      else if nType tx = OPOI_MODEL_REGISTER_TX_TYPE then apply_model_register e pparams tx h c
      else if nType tx = OPOI_MODEL_VOTE_TX_TYPE then apply_model_vote tx h c
      else if nType tx = OPOI_COORDINATOR_CLAIM_TX_TYPE then apply_coordinator_claim tx h c
      else if nType tx = OPOI_SHARD_RESULT_TX_TYPE then apply_shard_result tx h c
      else if nType tx = OPOI_AUDITOR_VERIFY_TX_TYPE then apply_auditor_verify tx h c
      else c)"

definition ProcessOPoITransaction ::
  "opoi_env \<Rightarrow> Params option \<Rightarrow> CTransaction \<Rightarrow> u32 \<Rightarrow> bool \<Rightarrow> OPoICache \<Rightarrow> OPoICache" where
  "ProcessOPoITransaction e pparams tx blockHeight fUndo c =
     (if nVersion tx \<noteq> OPOI_TX_VERSION then c
      else if fUndo then UndoOPoITransaction tx c
      else ApplyOPoITransaction e pparams tx blockHeight c)"

section \<open>The invariant\<close>

lemma erase_who_ok:
  "claims_ok k cls \<Longrightarrow> claims_ok k (erase_who cl_minerAddress a cls)"
  "results_ok k subs \<Longrightarrow> results_ok k (erase_who sr_minerAddress a subs)"
  "verifs_ok k vs \<Longrightarrow> verifs_ok k (erase_who av_auditorAddress a vs)"
  "shard_verifs_ok k vs \<Longrightarrow> shard_verifs_ok k (erase_who av_auditorAddress a vs)"
  by (simp_all add: erase_who_def claims_ok_def results_ok_def verifs_ok_def shard_verifs_ok_def distinct_map_filter)

lemma votes_ok_erase: "votes_ok k vs \<Longrightarrow> votes_ok k (sm_erase a vs)"
  by (simp add: votes_ok_def wf_erase)

text \<open>Replacing the members of a well-formed cache by well-formed ones.\<close>

lemma inv_set_stakes:
  "cache_inv c \<Longrightarrow> wf_map (\<lambda>k s. st_minerAddress s = k) m \<Longrightarrow> cache_inv (c\<lparr>mapStakes := m\<rparr>)"
  by (simp add: cache_inv_def)

lemma inv_set_requests: "cache_inv c \<Longrightarrow> wf_map request_ok m \<Longrightarrow> cache_inv (c\<lparr>mapRequests := m\<rparr>)"
  by (simp add: cache_inv_def)

lemma inv_set_challenges:
  "cache_inv c \<Longrightarrow> wf_map (\<lambda>k h. ch_requestId h = k) m \<Longrightarrow> cache_inv (c\<lparr>mapChallenges := m\<rparr>)"
  by (simp add: cache_inv_def)

lemma inv_set_responses:
  "cache_inv c \<Longrightarrow> wf_map (\<lambda>k r. rs_requestId r = k) m \<Longrightarrow> cache_inv (c\<lparr>mapResponses := m\<rparr>)"
  by (simp add: cache_inv_def)

lemma inv_modify_stake:
  "cache_inv c \<Longrightarrow> (\<And>s. st_minerAddress (f s) = st_minerAddress s) \<Longrightarrow>
   cache_inv (c\<lparr>mapStakes := sm_modify a f (mapStakes c)\<rparr>)"
  by (rule inv_set_stakes) (auto simp: cache_inv_def intro!: wf_modify)

lemma inv_modify_request:
  "cache_inv c \<Longrightarrow> (\<And>r. request_ok k r \<Longrightarrow> request_ok k (f r)) \<Longrightarrow>
   cache_inv (c\<lparr>mapRequests := sm_modify k f (mapRequests c)\<rparr>)"
  by (rule inv_set_requests) (auto simp: cache_inv_def intro!: wf_modify)

lemma inv_modify_challenge:
  "cache_inv c \<Longrightarrow> (\<And>h. ch_requestId (f h) = ch_requestId h) \<Longrightarrow>
   cache_inv (c\<lparr>mapChallenges := sm_modify k f (mapChallenges c)\<rparr>)"
  by (rule inv_set_challenges) (auto simp: cache_inv_def intro!: wf_modify)

lemma inv_put_challenge:
  "cache_inv c \<Longrightarrow> ch_requestId h = k \<Longrightarrow> cache_inv (c\<lparr>mapChallenges := sm_put k h (mapChallenges c)\<rparr>)"
  by (rule inv_set_challenges) (auto simp: cache_inv_def intro!: wf_put)

lemma inv_slash_responder: "cache_inv c \<Longrightarrow> cache_inv (slash_responder r c)"
  by (auto simp: slash_responder_def split: option.splits intro!: inv_modify_stake)

lemma inv_challenge_key: "cache_inv c \<Longrightarrow> sm_find (mapChallenges c) k = Some h \<Longrightarrow> ch_requestId h = k"
  by (simp add: cache_inv_def wf_map_def)

lemma inv_undo_response_reveal: "cache_inv c \<Longrightarrow> cache_inv (undo_response_reveal tx c)"
  unfolding undo_response_reveal_def Let_def
  by (intro inv_modify_stake, simp only: inv_registers, intro inv_modify_request inv_set_responses)
    (auto simp: cache_inv_def request_ok_def intro: wf_erase)

lemma inv_undo_challenge_reveal: "cache_inv c \<Longrightarrow> cache_inv (undo_challenge_reveal tx c)"
  by (auto simp: undo_challenge_reveal_def Let_def inv_registers split: option.splits
      intro!: inv_modify_challenge inv_LockUTXO inv_modify_stake)

lemma inv_undo_auditor_verify:
  assumes inv: "cache_inv c"
  shows "cache_inv (undo_auditor_verify tx c)"
proof -
  have "cache_inv (c\<lparr>mapShardAuditorVerifications :=
      sm_modify k (erase_who av_auditorAddress a) (mapShardAuditorVerifications c)\<rparr>)"
    "cache_inv (c\<lparr>mapAuditorVerifications :=
      sm_modify k (erase_who av_auditorAddress a) (mapAuditorVerifications c)\<rparr>)" for k a
    using inv by (simp_all add: cache_inv_def wf_modify erase_who_ok)
  then show ?thesis by (simp add: undo_auditor_verify_def Let_def inv_registers inv_UnlockUTXO)
qed

lemma inv_Undo: "cache_inv c \<Longrightarrow> cache_inv (UndoOPoITransaction tx c)"
proof -
  assume inv: "cache_inv c"
  have "cache_inv (undo_request tx c)" "cache_inv (undo_response_commit tx c)"
    "cache_inv (undo_unstake tx c)"
    "cache_inv (undo_model_register tx c)" "cache_inv (undo_model_vote tx c)"
    "cache_inv (undo_coordinator_claim tx c)" "cache_inv (undo_shard_result tx c)"
    using inv by (simp_all add: cache_inv_def undo_request_def undo_response_commit_def undo_unstake_def
        undo_model_register_def undo_model_vote_def undo_coordinator_claim_def undo_shard_result_def
        UnmarkShardPaid_def Let_def wf_erase wf_modify erase_who_ok votes_ok_erase request_ok_maps)
  moreover have "cache_inv (undo_stake tx c)"
    unfolding undo_stake_def using inv by (intro inv_UnlockUTXO) (simp add: cache_inv_def wf_erase)
  moreover have "cache_inv (undo_challenge_commit tx c)"
    unfolding undo_challenge_commit_def Let_def using inv_UnlockUTXO [OF inv, of "opoiChallengerCollateralIn tx"]
    by (simp add: cache_inv_def wf_erase)
  ultimately show ?thesis
    using inv_undo_response_reveal [OF inv, of tx] inv_undo_challenge_reveal [OF inv, of tx]
      inv_undo_auditor_verify [OF inv, of tx] inv
    by (simp add: UndoOPoITransaction_def undo_renew_def)
qed

lemma inv_apply_response_reveal: "cache_inv c \<Longrightarrow> cache_inv (apply_response_reveal e p tx h c)"
  unfolding apply_response_reveal_def Let_def case_prod_beta
  by (intro inv_modify_request inv_modify_stake inv_AddResponse) (auto simp: request_ok_maps)

lemma inv_apply_challenge_commit: "cache_inv c \<Longrightarrow> cache_inv (apply_challenge_commit tx h c)"
  by (auto simp: apply_challenge_commit_def Let_def split: option.splits
      intro!: inv_modify_stake inv_LockUTXO inv_AddChallenge)

lemma inv_apply_challenge_reveal: "cache_inv c \<Longrightarrow> cache_inv (apply_challenge_reveal p tx c)"
  by (auto simp: apply_challenge_reveal_def Let_def split: option.splits
      intro!: inv_put_challenge inv_UnlockUTXO inv_slash_responder dest: inv_challenge_key)

lemma inv_apply_auditor_verify: "cache_inv c \<Longrightarrow> cache_inv (apply_auditor_verify tx h c)"
  unfolding apply_auditor_verify_def Let_def
  by (auto intro!: inv_AddAuditorVerification inv_AddShardAuditorVerification simp: IsShardScoped_def)

lemma inv_Apply: "cache_inv c \<Longrightarrow> cache_inv (ApplyOPoITransaction e p tx h c)"
proof -
  assume inv: "cache_inv c"
  have "cache_inv (apply_request tx h c)"
    unfolding apply_request_def using inv by (intro inv_AddRequest) (simp_all add: request_ok_def)
  moreover have "cache_inv (apply_response_commit tx h c)" "cache_inv (apply_stake e tx h c)"
    "cache_inv (apply_unstake tx h c)" "cache_inv (apply_model_register e p tx h c)"
    "cache_inv (apply_model_vote tx h c)" "cache_inv (apply_coordinator_claim tx h c)"
    "cache_inv (apply_shard_result tx h c)"
    using inv by (simp_all add: apply_response_commit_def apply_stake_def apply_unstake_def
        apply_model_register_def apply_model_vote_def apply_coordinator_claim_def apply_shard_result_def
        Let_def inv_ops)
  moreover have "cache_inv (apply_renew tx h c)"
    unfolding apply_renew_def using inv by (intro inv_modify_stake) simp_all
  ultimately show ?thesis
    using inv_apply_response_reveal [OF inv, of e p tx h] inv_apply_challenge_commit [OF inv, of tx h]
      inv_apply_challenge_reveal [OF inv, of p tx] inv_apply_auditor_verify [OF inv, of tx h] inv
    by (simp add: ApplyOPoITransaction_def)
qed

lemma inv_Process: "cache_inv c \<Longrightarrow> cache_inv (ProcessOPoITransaction e p tx h undo c)"
  by (simp add: ProcessOPoITransaction_def inv_Undo inv_Apply)

end
