(* ===== verification/Opoi_Undo.thy ===== *)
theory Opoi_Undo
  imports Opoi_Process
begin

text \<open>
  Taking transactions back. \<open>ready_tx\<close> is the condition under which the undo branch of
  \<^verbatim>\<open>ProcessOPoITransaction\<close> is the inverse of the apply branch. What the undo restores is the
  cache up to \<open>canon\<close>: the two reputation counters that no undo branch decrements
  (\<^verbatim>\<open>responsesChallenged\<close>, \<^verbatim>\<open>responsesSlashed\<close>) are left out, and a key that is left with an
  empty vector counts as absent. The contract \<open>undoable\<close> then gives the same for whole blocks.
\<close>

section \<open>What the undo restores\<close>

definition canon_stake :: "OPoIStake \<Rightarrow> OPoIStake" where
  "canon_stake s = s\<lparr>st_responsesChallenged := 0, st_responsesSlashed := 0\<rparr>"

definition drop_empty :: "('k, 'v list) smap \<Rightarrow> ('k, 'v list) smap" where
  "drop_empty m = filter (\<lambda>kv. snd kv \<noteq> []) m"

definition canon :: "OPoICache \<Rightarrow> OPoICache" where
  "canon c = c\<lparr>mapStakes := sm_update_all canon_stake (mapStakes c),
     mapAuditorVerifications := drop_empty (mapAuditorVerifications c),
     mapShardAuditorVerifications := drop_empty (mapShardAuditorVerifications c),
     mapModelVotes := drop_empty (mapModelVotes c),
     mapCoordinatorClaims := drop_empty (mapCoordinatorClaims c),
     mapShardResults := drop_empty (mapShardResults c)\<rparr>"

section \<open>When a transaction can be taken back\<close>

definition ready_request :: "CTransaction \<Rightarrow> OPoICache \<Rightarrow> bool" where
  "ready_request tx c \<longleftrightarrow> sm_find (mapRequests c) (opoiRequestId tx) = None"

definition ready_response_commit :: "CTransaction \<Rightarrow> OPoICache \<Rightarrow> bool" where
  "ready_response_commit tx c =
     (let key = commit_key (opoiRequestId tx) (opoiMinerAddress tx)
      in sm_find (mapResponseCommits c) key = None \<and> sm_find (mapResponseCommitTxHash c) key = None \<and>
         sm_find (mapResponseCommitHeight c) key = None \<and>
         (case sm_find (mapRequests c) (opoiRequestId tx) of
            None \<Rightarrow> True | Some r \<Rightarrow> sm_find (rq_responseCommits r) (opoiMinerAddress tx) = None))"

definition ready_response_reveal :: "CTransaction \<Rightarrow> OPoICache \<Rightarrow> bool" where
  "ready_response_reveal tx c \<longleftrightarrow>
     sm_find (mapResponses c) (opoiRequestId tx) = None \<and> \<not> IsResponsePaid c (opoiRequestId tx) \<and>
     (case sm_find (mapRequests c) (opoiRequestId tx) of
        None \<Rightarrow> True
      | Some r \<Rightarrow> rq_status r = RQ_PENDING \<and> sm_find (rq_responseReveals r) (opoiMinerAddress tx) = None) \<and>
     (case sm_find (mapStakes c) (opoiMinerAddress tx) of None \<Rightarrow> True | Some s \<Rightarrow> st_responsesTotal s \<noteq> -1)"

definition free_collateral :: "COutPoint \<Rightarrow> OPoICache \<Rightarrow> bool" where
  "free_collateral out c \<longleftrightarrow> sm_find (mapLockedUTXOs c) out = None \<and> sm_find (mapLockingTxHash c) out = None"

definition ready_stake :: "CTransaction \<Rightarrow> OPoICache \<Rightarrow> bool" where
  "ready_stake tx c \<longleftrightarrow>
     sm_find (mapStakes c) (opoiMinerAddress tx) = None \<and> free_collateral (opoiCollateralIn tx) c"

definition ready_unstake :: "CTransaction \<Rightarrow> OPoICache \<Rightarrow> bool" where
  "ready_unstake tx c =
     (case sm_find (mapStakes c) (opoiMinerAddress tx) of
        None \<Rightarrow> True
      | Some s \<Rightarrow> st_stakeStatus s = ST_ACTIVE \<and> st_unstakeHeight s = 0 \<and> st_unstakeTxHash s = uint256_zero)"

definition ready_challenge_commit :: "CTransaction \<Rightarrow> OPoICache \<Rightarrow> bool" where
  "ready_challenge_commit tx c \<longleftrightarrow>
     sm_find (mapChallenges c) (opoiRequestId tx) = None \<and> free_collateral (opoiChallengerCollateralIn tx) c"

definition ready_challenge_reveal :: "Params option \<Rightarrow> CTransaction \<Rightarrow> OPoICache \<Rightarrow> bool" where
  "ready_challenge_reveal pparams tx c =
     (case sm_find (mapChallenges c) (opoiRequestId tx) of
        None \<Rightarrow> True
      | Some ch \<Rightarrow>
          ch_challengeStatus ch = CH_OPEN \<and> ch_phase ch = 0 \<and> ch_fraudProof ch = [] \<and>
          ch_revealTxHash ch = uint256_zero \<and>
          sm_find (mapLockedUTXOs c) (ch_challengerCollateral ch) = Some (ch_challengerAddress ch) \<and>
          sm_find (mapLockingTxHash c) (ch_challengerCollateral ch) = Some (ch_txHash ch) \<and>
          \<not> IsChallengerRewardPaid c (opoiRequestId tx) \<and>
          (case sm_find (mapResponses c) (opoiRequestId tx) of
             None \<Rightarrow> True
           | Some resp \<Rightarrow> (case sm_find (mapStakes c) (rs_minerAddress resp) of
                              None \<Rightarrow> True | Some s \<Rightarrow> st_IsActive s)))"

definition ready_model_register :: "CTransaction \<Rightarrow> OPoICache \<Rightarrow> bool" where
  "ready_model_register tx c \<longleftrightarrow>
     sm_find (mapModelManifests c) (opoiModelId tx) = None \<and> sm_find (mapModelVotes c) (opoiModelId tx) = None"

definition ready_model_vote :: "CTransaction \<Rightarrow> OPoICache \<Rightarrow> bool" where
  "ready_model_vote tx c \<longleftrightarrow> sm_find (vec_at (mapModelVotes c) (opoiModelId tx)) (opoiRequester tx) = None"

definition ready_coordinator_claim :: "CTransaction \<Rightarrow> OPoICache \<Rightarrow> bool" where
  "ready_coordinator_claim tx c \<longleftrightarrow>
     opoiMinerAddress tx \<notin> cl_minerAddress ` set (vec_at (mapCoordinatorClaims c) (opoiRequestId tx))"

definition ready_shard_result :: "CTransaction \<Rightarrow> OPoICache \<Rightarrow> bool" where
  "ready_shard_result tx c \<longleftrightarrow>
     \<not> IsShardPaid c (opoiRequestId tx) (opoiShardIndex tx) \<and>
     opoiMinerAddress tx \<notin> sr_minerAddress ` set (ListShardResults c (opoiRequestId tx) (opoiShardIndex tx))"

definition ready_auditor_verify :: "CTransaction \<Rightarrow> OPoICache \<Rightarrow> bool" where
  "ready_auditor_verify tx c \<longleftrightarrow>
     free_collateral (opoiAuditorCollateralIn tx) c \<and>
     (if opoiShardIndex tx = OPOI_AUDITOR_VERIFY_NO_SHARD
      then \<not> IsAuditorResolved c (opoiRequestId tx) \<and>
        opoiAuditorAddress tx \<notin> av_auditorAddress ` set (GetAuditorVerifications c (opoiRequestId tx))
      else \<not> IsShardAuditorResolved c (opoiRequestId tx) (opoiShardIndex tx) \<and>
        opoiAuditorAddress tx \<notin>
          av_auditorAddress ` set (GetShardAuditorVerifications c (opoiRequestId tx) (opoiShardIndex tx)))"

text \<open>The undo of \<^verbatim>\<open>RENEW\<close> does nothing, so it is an inverse only where the apply did nothing.\<close>

definition ready_renew :: "CTransaction \<Rightarrow> OPoICache \<Rightarrow> bool" where
  "ready_renew tx c \<longleftrightarrow> sm_find (mapStakes c) (opoiMinerAddress tx) = None"

definition ready_tx :: "Params option \<Rightarrow> CTransaction \<Rightarrow> OPoICache \<Rightarrow> bool" where
  "ready_tx pparams tx c =
     (if nVersion tx \<noteq> OPOI_TX_VERSION then True
      else if nType tx = OPOI_REQUEST_TX_TYPE then ready_request tx c
      else if nType tx = OPOI_RESPONSE_TX_TYPE then
        (if opoiResponsePhase tx = 0 then ready_response_commit tx c else ready_response_reveal tx c)
      else if nType tx = OPOI_STAKE_TX_TYPE then ready_stake tx c
      else if nType tx = OPOI_UNSTAKE_TX_TYPE then ready_unstake tx c
      else if nType tx = OPOI_RENEW_TX_TYPE then ready_renew tx c
      else if nType tx = OPOI_CHALLENGE_TX_TYPE then
        (if opoiChallengePhase tx = 0 then ready_challenge_commit tx c else ready_challenge_reveal pparams tx c)
      else if nType tx = OPOI_MODEL_REGISTER_TX_TYPE then ready_model_register tx c
      else if nType tx = OPOI_MODEL_VOTE_TX_TYPE then ready_model_vote tx c
      else if nType tx = OPOI_COORDINATOR_CLAIM_TX_TYPE then ready_coordinator_claim tx c
      else if nType tx = OPOI_SHARD_RESULT_TX_TYPE then ready_shard_result tx c
      else if nType tx = OPOI_AUDITOR_VERIFY_TX_TYPE then ready_auditor_verify tx c
      else True)"

section \<open>Maps\<close>

lemma drop_empty_modify: "f [] = [] \<Longrightarrow> drop_empty (sm_modify k f (drop_empty m)) = drop_empty (sm_modify k f m)"
  by (induction m) (auto simp: drop_empty_def sm_modify_def)

lemma drop_empty_erase: "drop_empty (sm_erase k (drop_empty m)) = drop_empty (sm_erase k m)"
  by (induction m) (auto simp: drop_empty_def sm_erase_def)

lemma drop_empty_idem [simp]: "drop_empty (drop_empty m) = drop_empty m"
  by (simp add: drop_empty_def)

lemma drop_empty_put_Nil: "sm_find m k = None \<Longrightarrow> drop_empty (sm_put k [] m) = drop_empty m"
  by (induction m) (auto simp: drop_empty_def split: if_splits)

lemma drop_empty_put_vec: "sm_ok m \<Longrightarrow> drop_empty (sm_put k (vec_at m k) m) = drop_empty m"
  by (cases "sm_find m k") (simp_all add: vec_at_def drop_empty_put_Nil sm.put_same)

lemma sm_find_filter: "sm_ok m \<Longrightarrow> sm_find (filter P m) k =
    (case sm_find m k of None \<Rightarrow> None | Some v \<Rightarrow> if P (k, v) then Some v else None)"
proof (induction m)
  case (Cons kv m)
  obtain k' v where kv: "kv = (k', v)" by (cases kv)
  with Cons.prems have "\<forall>x\<in>set (map fst m). k' < x" "sm_ok m" by (auto simp: sm_ok_Cons)
  then have "sm_find m k' = None" by (intro sm_find_below)
  with Cons.IH \<open>sm_ok m\<close> kv show ?case by (auto split: option.splits)
qed simp

lemma vec_at_drop_empty: "sm_ok m \<Longrightarrow> vec_at (drop_empty m) k = vec_at m k"
  by (simp add: vec_at_def drop_empty_def sm_find_filter split: option.splits)

lemma canon_stake_idem [simp]: "canon_stake (canon_stake s) = canon_stake s"
  by (simp add: canon_stake_def)

lemma update_all_idem [simp]: "sm_update_all canon_stake (sm_update_all canon_stake m) = sm_update_all canon_stake m"
  by (auto simp: sm_update_all_def)

lemma update_all_erase: "sm_update_all g (sm_erase k m) = sm_erase k (sm_update_all g m)"
  by (induction m) (auto simp: sm_update_all_def sm_erase_def)

lemma update_all_modify:
  "(\<And>v. g (f (g v)) = g (f v)) \<Longrightarrow> (\<And>v. g (g v) = g v) \<Longrightarrow>
   sm_update_all g (sm_modify k f (sm_update_all g m)) = sm_update_all g (sm_modify k f m)"
  by (induction m) (auto simp: sm_update_all_def sm_modify_def)

lemma update_all_modify_id:
  "(\<And>v. g (f v) = g v) \<Longrightarrow> sm_update_all g (sm_modify k f m) = sm_update_all g m"
  by (induction m) (auto simp: sm_update_all_def sm_modify_def)

lemma modify_put_same: "sm_ok m \<Longrightarrow> sm_modify k f (sm_put k v m) = sm_put k (f v) m"
  by (rule sm.find_ext) auto

lemma put_erase_same: "sm_ok m \<Longrightarrow> sm_put k v (sm_erase k m) = sm_put k v m"
  by (rule sm.find_ext) auto

lemma modify_twice: "sm_modify k f (sm_modify k g m) = sm_modify k (\<lambda>v. f (g v)) m"
  by (auto simp: sm_modify_def)

lemma modify_ident: "(\<And>v. sm_find m k = Some v \<Longrightarrow> f v = v) \<Longrightarrow> sm_ok m \<Longrightarrow> sm_modify k f m = m"
  by (rule sm.modify_id)

lemma erase_who_Nil [simp]: "erase_who who a [] = []"
  by (simp add: erase_who_def)

lemma erase_push: "who r \<notin> who ` set rs \<Longrightarrow> erase_who who (who r) (push_once who rs r) = rs"
proof -
  assume n: "who r \<notin> who ` set rs"
  then have "filter (\<lambda>x. who x \<noteq> who r) rs = rs" by (metis (mono_tags, lifting) filter_True image_eqI)
  with n show ?thesis by (simp add: push_once_def list_ex_who erase_who_def)
qed

lemma vec_box_inverse:
  assumes "sm_ok m" "who r \<notin> who ` set (vec_at m k)"
  shows "drop_empty (sm_modify k (erase_who who (who r)) (sm_put k (push_once who (vec_at m k) r) m)) = drop_empty m"
  using assms by (simp add: modify_put_same erase_push drop_empty_put_vec)


lemma erase_Nil [simp]: "sm_erase k [] = []"
  by (simp add: sm_erase_def)

lemma erase_absent: "sm_ok m \<Longrightarrow> sm_find m k = None \<Longrightarrow> sm_erase k m = m"
  by (rule sm.find_ext) auto

lemma inv_sm_ok:
  assumes "cache_inv c"
  shows "sm_ok (mapRequests c)" "sm_ok (mapResponses c)" "sm_ok (mapResponseCommits c)"
    "sm_ok (mapResponseCommitTxHash c)" "sm_ok (mapResponseCommitHeight c)" "sm_ok (mapStakes c)"
    "sm_ok (mapChallenges c)" "sm_ok (mapLockedUTXOs c)" "sm_ok (mapLockingTxHash c)"
    "sm_ok (mapAuditorVerifications c)" "sm_ok (mapShardAuditorVerifications c)"
    "sm_ok (mapModelManifests c)" "sm_ok (mapModelVotes c)" "sm_ok (mapCoordinatorClaims c)"
    "sm_ok (mapShardResults c)"
  using assms by (simp_all add: cache_inv_def wf_map_def)

section \<open>The undo respects \<open>canon\<close>\<close>

lemma canon_simps [simp]:
  "mapRequests (canon c) = mapRequests c" "mapResponses (canon c) = mapResponses c"
  "mapResponseCommits (canon c) = mapResponseCommits c"
  "mapResponseCommitTxHash (canon c) = mapResponseCommitTxHash c"
  "mapResponseCommitHeight (canon c) = mapResponseCommitHeight c"
  "mapStakes (canon c) = sm_update_all canon_stake (mapStakes c)"
  "mapChallenges (canon c) = mapChallenges c"
  "mapLockedUTXOs (canon c) = mapLockedUTXOs c" "mapLockingTxHash (canon c) = mapLockingTxHash c"
  "mapAuditorVerifications (canon c) = drop_empty (mapAuditorVerifications c)"
  "mapShardAuditorVerifications (canon c) = drop_empty (mapShardAuditorVerifications c)"
  "mapModelManifests (canon c) = mapModelManifests c"
  "mapModelVotes (canon c) = drop_empty (mapModelVotes c)"
  "mapCoordinatorClaims (canon c) = drop_empty (mapCoordinatorClaims c)"
  "mapShardResults (canon c) = drop_empty (mapShardResults c)"
  "setPaidShards (canon c) = setPaidShards c"
  "setResolvedAuditorVerifications (canon c) = setResolvedAuditorVerifications c"
  "setResolvedShardAuditorVerifications (canon c) = setResolvedShardAuditorVerifications c"
  "setPaidResponses (canon c) = setPaidResponses c"
  "setPaidChallengerRewards (canon c) = setPaidChallengerRewards c"
  by (simp_all add: canon_def)

lemma canon_update:
  "canon (c\<lparr>mapRequests := a1\<rparr>) = (canon c)\<lparr>mapRequests := a1\<rparr>"
  "canon (c\<lparr>mapResponses := a2\<rparr>) = (canon c)\<lparr>mapResponses := a2\<rparr>"
  "canon (c\<lparr>mapResponseCommits := a3\<rparr>) = (canon c)\<lparr>mapResponseCommits := a3\<rparr>"
  "canon (c\<lparr>mapResponseCommitTxHash := a4\<rparr>) = (canon c)\<lparr>mapResponseCommitTxHash := a4\<rparr>"
  "canon (c\<lparr>mapResponseCommitHeight := a5\<rparr>) = (canon c)\<lparr>mapResponseCommitHeight := a5\<rparr>"
  "canon (c\<lparr>mapStakes := a6\<rparr>) = (canon c)\<lparr>mapStakes := sm_update_all canon_stake a6\<rparr>"
  "canon (c\<lparr>mapChallenges := a7\<rparr>) = (canon c)\<lparr>mapChallenges := a7\<rparr>"
  "canon (c\<lparr>mapLockedUTXOs := a8\<rparr>) = (canon c)\<lparr>mapLockedUTXOs := a8\<rparr>"
  "canon (c\<lparr>mapLockingTxHash := a9\<rparr>) = (canon c)\<lparr>mapLockingTxHash := a9\<rparr>"
  "canon (c\<lparr>mapAuditorVerifications := b1\<rparr>) = (canon c)\<lparr>mapAuditorVerifications := drop_empty b1\<rparr>"
  "canon (c\<lparr>mapShardAuditorVerifications := b2\<rparr>) = (canon c)\<lparr>mapShardAuditorVerifications := drop_empty b2\<rparr>"
  "canon (c\<lparr>mapModelManifests := b3\<rparr>) = (canon c)\<lparr>mapModelManifests := b3\<rparr>"
  "canon (c\<lparr>mapModelVotes := b4\<rparr>) = (canon c)\<lparr>mapModelVotes := drop_empty b4\<rparr>"
  "canon (c\<lparr>mapCoordinatorClaims := b5\<rparr>) = (canon c)\<lparr>mapCoordinatorClaims := drop_empty b5\<rparr>"
  "canon (c\<lparr>mapShardResults := b6\<rparr>) = (canon c)\<lparr>mapShardResults := drop_empty b6\<rparr>"
  "canon (c\<lparr>setPaidShards := b7\<rparr>) = (canon c)\<lparr>setPaidShards := b7\<rparr>"
  "canon (c\<lparr>setResolvedAuditorVerifications := b8\<rparr>) = (canon c)\<lparr>setResolvedAuditorVerifications := b8\<rparr>"
  "canon (c\<lparr>setResolvedShardAuditorVerifications := b9\<rparr>) =
     (canon c)\<lparr>setResolvedShardAuditorVerifications := b9\<rparr>"
  "canon (c\<lparr>setPaidResponses := c1\<rparr>) = (canon c)\<lparr>setPaidResponses := c1\<rparr>"
  "canon (c\<lparr>setPaidChallengerRewards := c2\<rparr>) = (canon c)\<lparr>setPaidChallengerRewards := c2\<rparr>"
  by (simp_all add: canon_def)

lemma canon_idem [simp]: "canon (canon c) = canon c"
  by (simp add: canon_def)

lemmas undo_defs = undo_request_def undo_response_commit_def undo_response_reveal_def undo_stake_def
  undo_unstake_def undo_renew_def undo_challenge_commit_def undo_model_register_def undo_model_vote_def
  undo_coordinator_claim_def undo_shard_result_def

lemma canon_modify_stakes [simp]:
  "(\<And>s. canon_stake (f (canon_stake s)) = canon_stake (f s)) \<Longrightarrow>
   sm_update_all canon_stake (sm_modify k f (sm_update_all canon_stake m)) = sm_update_all canon_stake (sm_modify k f m)"
  by (rule update_all_modify) simp_all

lemma canon_undo_simple:
  "canon (undo_request tx (canon c)) = canon (undo_request tx c)"
  "canon (undo_response_commit tx (canon c)) = canon (undo_response_commit tx c)"
  "canon (undo_unstake tx (canon c)) = canon (undo_unstake tx c)"
  "canon (undo_challenge_commit tx (canon c)) = canon (undo_challenge_commit tx c)"
  "canon (undo_model_register tx (canon c)) = canon (undo_model_register tx c)"
  "canon (undo_model_vote tx (canon c)) = canon (undo_model_vote tx c)"
  "canon (undo_coordinator_claim tx (canon c)) = canon (undo_coordinator_claim tx c)"
  "canon (undo_shard_result tx (canon c)) = canon (undo_shard_result tx c)"
  "canon (undo_response_reveal tx (canon c)) = canon (undo_response_reveal tx c)"
  "canon (undo_stake tx (canon c)) = canon (undo_stake tx c)"
  by (simp_all add: undo_defs canon_update cache_defs Let_def drop_empty_erase drop_empty_modify canon_stake_def
      update_all_erase)


lemma canon_undo_challenge_reveal: "canon (undo_challenge_reveal tx (canon c)) = canon (undo_challenge_reveal tx c)"
  by (simp add: undo_challenge_reveal_def canon_update cache_defs Let_def canon_stake_def split: option.splits)

lemma canon_undo_auditor_verify:
  "cache_inv c \<Longrightarrow> canon (undo_auditor_verify tx (canon c)) = canon (undo_auditor_verify tx c)"
  by (simp add: undo_auditor_verify_def canon_update cache_defs Let_def drop_empty_modify
      vec_at_drop_empty inv_sm_ok)

lemma canon_Undo: "cache_inv c \<Longrightarrow> canon (UndoOPoITransaction tx (canon c)) = canon (UndoOPoITransaction tx c)"
  by (simp add: UndoOPoITransaction_def canon_undo_simple canon_undo_challenge_reveal canon_undo_auditor_verify
      undo_renew_def)

section \<open>The undo is an inverse\<close>

lemma request_inverse:
  "cache_inv c \<Longrightarrow> ready_request tx c \<Longrightarrow> undo_request tx (apply_request tx h c) = c"
  by (simp add: undo_request_def apply_request_def ready_request_def cache_defs sm.erase_put_fresh inv_sm_ok)

lemma request_maps:
  assumes "cache_inv c" "sm_find (mapRequests c) k = Some r"
  shows "sm_ok (rq_responseCommits r)" "sm_ok (rq_responseReveals r)"
  using assms by (simp_all add: cache_inv_def wf_map_def request_ok_def)

lemma response_commit_inverse:
  assumes "cache_inv c" "ready_response_commit tx c"
  shows "undo_response_commit tx (apply_response_commit tx h c) = c"
proof -
  have "sm_modify (opoiRequestId tx)
      (\<lambda>r. r\<lparr>rq_responseCommits := sm_erase (opoiMinerAddress tx)
         (sm_put (opoiMinerAddress tx) x (rq_responseCommits r))\<rparr>) (mapRequests c) = mapRequests c" for x
    using assms by (intro sm.modify_id)
      (auto simp: ready_response_commit_def Let_def sm.erase_put_fresh request_maps inv_sm_ok)
  with assms show ?thesis
    by (simp add: undo_response_commit_def apply_response_commit_def ready_response_commit_def cache_defs Let_def
        sm.erase_put_fresh inv_sm_ok modify_twice)
qed

lemma succ_positive: "(w :: u32) \<noteq> -1 \<Longrightarrow> 0 < w + 1"
  by (metis word_gt_0 add.commute add_eq_0_iff)

lemma response_reveal_inverse:
  assumes "cache_inv c" "ready_response_reveal tx c"
  shows "undo_response_reveal tx (apply_response_reveal e p tx h c) = c"
proof -
  have "sm_modify (opoiRequestId tx)
      (\<lambda>r. r\<lparr>rq_status := RQ_PENDING,
             rq_responseReveals := sm_erase (opoiMinerAddress tx)
               (sm_put (opoiMinerAddress tx) x (rq_responseReveals r))\<rparr>) (mapRequests c) = mapRequests c" for x
    using assms by (intro sm.modify_id)
      (auto simp: ready_response_reveal_def sm.erase_put_fresh request_maps inv_sm_ok)
  moreover have "sm_modify (opoiMinerAddress tx)
      (\<lambda>s. if 0 < st_responsesTotal s + 1 then s else s\<lparr>st_responsesTotal := st_responsesTotal s + 1\<rparr>)
      (mapStakes c) = mapStakes c"
    using assms by (intro sm.modify_id) (auto simp: ready_response_reveal_def succ_positive inv_sm_ok)
  ultimately show ?thesis
    using assms
    by (simp add: undo_response_reveal_def apply_response_reveal_def ready_response_reveal_def cache_defs Let_def
        split_beta rs_IsRevealed_def sm.erase_put_fresh inv_sm_ok modify_twice IsResponsePaid_def cong: if_cong)
qed

lemma stake_inverse: "cache_inv c \<Longrightarrow> ready_stake tx c \<Longrightarrow> undo_stake tx (apply_stake e tx h c) = c"
  by (simp add: undo_stake_def apply_stake_def ready_stake_def free_collateral_def cache_defs
      sm.erase_put_fresh inv_sm_ok)

lemma unstake_inverse:
  assumes "cache_inv c" "ready_unstake tx c"
  shows "undo_unstake tx (apply_unstake tx h c) = c"
proof -
  have "sm_modify (opoiMinerAddress tx)
      (\<lambda>s. s\<lparr>st_stakeStatus := ST_ACTIVE, st_unstakeHeight := 0, st_unstakeTxHash := uint256_zero\<rparr>)
      (mapStakes c) = mapStakes c"
    using assms by (intro sm.modify_id) (auto simp: ready_unstake_def inv_sm_ok)
  then show ?thesis
    by (simp add: undo_unstake_def apply_unstake_def cache_defs modify_twice)
qed


lemma challenge_commit_inverse:
  assumes "cache_inv c" "ready_challenge_commit tx c"
  shows "canon (undo_challenge_commit tx (apply_challenge_commit tx h c)) = canon c"
proof -
  have "sm_update_all canon_stake (sm_modify a (\<lambda>s. s\<lparr>st_responsesChallenged := st_responsesChallenged s + 1\<rparr>) m)
      = sm_update_all canon_stake m" for a and m :: "(address, OPoIStake) smap"
    by (rule update_all_modify_id) (simp add: canon_stake_def)
  with assms show ?thesis
    by (auto simp: undo_challenge_commit_def apply_challenge_commit_def ready_challenge_commit_def
        free_collateral_def cache_defs Let_def sm.erase_put_fresh inv_sm_ok canon_update canon_def
        split: option.splits)
qed

lemma model_register_inverse:
  "cache_inv c \<Longrightarrow> ready_model_register tx c \<Longrightarrow> undo_model_register tx (apply_model_register e p tx h c) = c"
  by (simp add: undo_model_register_def apply_model_register_def ready_model_register_def cache_defs Let_def
      sm.erase_put_fresh erase_absent inv_sm_ok)

lemma inv_votes: "cache_inv c \<Longrightarrow> sm_ok (vec_at (mapModelVotes c) k)"
  by (auto simp: cache_inv_def wf_map_def votes_ok_def vec_at_def split: option.splits)

lemma model_vote_inverse:
  assumes inv: "cache_inv c" and ready: "ready_model_vote tx c"
  shows "canon (undo_model_vote tx (apply_model_vote tx h c)) = canon c"
proof (cases "sm_find (mapModelManifests c) (opoiModelId tx)")
  case None
  have "sm_modify (opoiModelId tx) (sm_erase (opoiRequester tx)) (mapModelVotes c) = mapModelVotes c"
  proof (rule sm.modify_id)
    fix vs assume "sm_find (mapModelVotes c) (opoiModelId tx) = Some vs"
    then have "vec_at (mapModelVotes c) (opoiModelId tx) = vs" by (simp add: vec_at_def)
    with ready inv_votes [OF inv, of "opoiModelId tx"] show "sm_erase (opoiRequester tx) vs = vs"
      by (simp add: ready_model_vote_def erase_absent)
  qed (simp add: inv inv_sm_ok)
  with None show ?thesis by (simp add: undo_model_vote_def apply_model_vote_def cache_defs)
next
  case (Some m)
  with inv ready show ?thesis
    by (simp add: undo_model_vote_def apply_model_vote_def ready_model_vote_def cache_defs canon_update
        modify_put_same inv_sm_ok sm.erase_put_fresh inv_votes drop_empty_put_vec
        flip: vec_at_def)
qed

lemma coordinator_claim_inverse:
  assumes "cache_inv c" "ready_coordinator_claim tx c"
  shows "canon (undo_coordinator_claim tx (apply_coordinator_claim tx h c)) = canon c"
  using assms vec_box_inverse [of "mapCoordinatorClaims c" cl_minerAddress
      "\<lparr>cl_requestId = opoiRequestId tx, cl_minerAddress = opoiMinerAddress tx,
        cl_blockHeight = h, cl_txHash = tx_hash tx\<rparr>" "opoiRequestId tx"]
  by (simp add: undo_coordinator_claim_def apply_coordinator_claim_def ready_coordinator_claim_def cache_defs
      canon_update inv_sm_ok)

lemma shard_result_inverse:
  assumes "cache_inv c" "ready_shard_result tx c"
  shows "canon (undo_shard_result tx (apply_shard_result tx h c)) = canon c"
  using assms vec_box_inverse [of "mapShardResults c" sr_minerAddress
      "\<lparr>sr_minerAddress = opoiMinerAddress tx, sr_boundaryOutputHash = opoiResponseHash tx,
        sr_routerLogitsHash = opoiCommitment tx, sr_tokenCount = opoiTokenCount tx,
        sr_blockHeight = h, sr_txHash = tx_hash tx\<rparr>" "ShardKey (opoiRequestId tx) (opoiShardIndex tx)"]
  by (simp add: undo_shard_result_def apply_shard_result_def ready_shard_result_def cache_defs
      canon_update inv_sm_ok IsShardPaid_def ListShardResults_def)


lemma vote_status_fresh:
  assumes "av_auditorAddress v \<notin> av_auditorAddress ` set vs"
  shows "vote_status (av_auditorAddress v) (push_once av_auditorAddress vs v) = av_status v"
proof -
  have "find (\<lambda>x. av_auditorAddress x = av_auditorAddress v) vs = None"
    using assms by (simp add: find_None_iff) (metis imageI)
  then have "find (\<lambda>x. av_auditorAddress x = av_auditorAddress v) (vs @ [v]) = Some v"
    by (induction vs) (auto split: if_splits)
  with assms show ?thesis by (simp add: vote_status_def push_once_def list_ex_who)
qed

lemma auditor_verify_inverse:
  assumes "cache_inv c" "ready_auditor_verify tx c"
  shows "canon (undo_auditor_verify tx (apply_auditor_verify tx h c)) = canon c"
proof -
  define v where "v = \<lparr>av_requestId = opoiRequestId tx, av_auditorAddress = opoiAuditorAddress tx,
                av_result = opoiAuditorVerifyResult tx, av_auditorCollateral = opoiAuditorCollateralIn tx,
                av_blockHeight = h, av_txHash = tx_hash tx, av_status = AS_PENDING,
                av_shardIndex = opoiShardIndex tx\<rparr>"
  have v: "av_requestId v = opoiRequestId tx" "av_auditorAddress v = opoiAuditorAddress tx"
    "av_auditorCollateral v = opoiAuditorCollateralIn tx" "av_status v = AS_PENDING"
    by (simp_all add: v_def)
  have ap: "apply_auditor_verify tx h c =
      (if opoiShardIndex tx = OPOI_AUDITOR_VERIFY_NO_SHARD then AddAuditorVerification v c
       else AddShardAuditorVerification (opoiRequestId tx) (opoiShardIndex tx) v c)"
    by (simp add: apply_auditor_verify_def v_def)
  have upd: "vec_at (sm_put k x m) k = x" if "sm_ok m" for k x and m :: "(string, AuditorVerification list) smap"
    using that by (simp add: vec_at_def)
  show ?thesis
  proof (cases "opoiShardIndex tx = OPOI_AUDITOR_VERIFY_NO_SHARD")
    case True
    with assms vec_box_inverse [of "mapAuditorVerifications c" av_auditorAddress v "opoiRequestId tx"]
      vote_status_fresh [of v "vec_at (mapAuditorVerifications c) (opoiRequestId tx)"]
    show ?thesis
      by (simp add: undo_auditor_verify_def ap ready_auditor_verify_def cache_defs Let_def
          free_collateral_def v upd list_ex_who inv_sm_ok canon_update sm.erase_put_fresh erase_absent
          IsAuditorResolved_def GetAuditorVerifications_def)
  next
    case False
    with assms vec_box_inverse [of "mapShardAuditorVerifications c" av_auditorAddress v
        "ShardKey (opoiRequestId tx) (opoiShardIndex tx)"]
      vote_status_fresh [of v "vec_at (mapShardAuditorVerifications c) (ShardKey (opoiRequestId tx) (opoiShardIndex tx))"]
    show ?thesis
      by (simp add: undo_auditor_verify_def ap ready_auditor_verify_def cache_defs Let_def
          free_collateral_def v upd list_ex_who inv_sm_ok canon_update sm.erase_put_fresh erase_absent
          IsShardAuditorResolved_def GetShardAuditorVerifications_def)
  qed
qed


text \<open>The reveal of a challenge, by the status it leaves the challenge in.\<close>

definition reveal_status :: "Params option \<Rightarrow> string \<Rightarrow> OPoICache \<Rightarrow> challenge_status" where
  "reveal_status pparams rid c =
     (case (GetRequest c rid, pparams) of
        (Some req, Some p) \<Rightarrow>
          if rq_IsVerifiable req then
            let majority = GetAuditorMajorityResult c rid (nOPoIMinAuditors p)
            in if majority = uint AUDITOR_VERIFY_FAIL then CH_SLASHED
               else if majority = uint AUDITOR_VERIFY_PASS then CH_EXPIRED else CH_REVEALED_PENDING
          else CH_RESOLVED_NO_ORACLE
      | _ \<Rightarrow> CH_RESOLVED_NO_ORACLE)"

lemma apply_challenge_reveal_eq:
  assumes "sm_find (mapChallenges c) (opoiRequestId tx) = Some ch"
  shows "apply_challenge_reveal p tx c =
    (let st = reveal_status p (opoiRequestId tx) c;
         c1 = (if st = CH_SLASHED
               then UnlockUTXO (ch_challengerCollateral ch) (slash_responder (opoiRequestId tx) c)
               else if st = CH_RESOLVED_NO_ORACLE then UnlockUTXO (ch_challengerCollateral ch) c else c)
     in c1\<lparr>mapChallenges := sm_put (opoiRequestId tx)
            (ch\<lparr>ch_phase := 1, ch_fraudProof := opoiProofData tx, ch_revealTxHash := tx_hash tx,
                ch_challengeStatus := st\<rparr>) (mapChallenges c1)\<rparr>)"
  using assms by (simp add: apply_challenge_reveal_def reveal_status_def Let_def split: option.splits)

lemma reactivate_slashed:
  assumes "cache_inv c" "ready_challenge_reveal p tx c" "sm_find (mapChallenges c) (opoiRequestId tx) = Some ch"
    and "sm_find (mapResponses c) (opoiRequestId tx) = Some resp"
  shows "sm_update_all canon_stake (sm_modify (rs_minerAddress resp)
      (\<lambda>s. (if st_IsActive s
            then s\<lparr>st_stakeStatus := ST_SLASHED, st_responsesSlashed := st_responsesSlashed s + 1\<rparr>
            else s)\<lparr>st_stakeStatus := ST_ACTIVE\<rparr>) (mapStakes c)) = sm_update_all canon_stake (mapStakes c)"
    (is "sm_update_all canon_stake ?m = _")
proof -
  have "canon_stake (s\<lparr>st_responsesSlashed := x, st_stakeStatus := ST_ACTIVE\<rparr>) = canon_stake s"
    if "sm_find (mapStakes c) (rs_minerAddress resp) = Some s" for s x
    using assms that by (simp add: ready_challenge_reveal_def st_IsActive_def canon_stake_def)
  with assms have "sm_find (sm_update_all canon_stake ?m) k = sm_find (sm_update_all canon_stake (mapStakes c)) k" for k
    by (auto simp: ready_challenge_reveal_def inv_sm_ok split: option.splits)
  with assms(1) show ?thesis by (intro sm.find_ext ext) (simp_all add: inv_sm_ok)
qed


lemma challenge_reset:
  assumes "cache_inv c" "ready_challenge_reveal p tx c" "sm_find (mapChallenges c) (opoiRequestId tx) = Some ch"
  shows "sm_put (opoiRequestId tx) (ch\<lparr>ch_phase := 0, ch_fraudProof := [], ch_challengeStatus := CH_OPEN,
           ch_revealTxHash := uint256_zero\<rparr>) (mapChallenges c) = mapChallenges c"
proof -
  have "ch\<lparr>ch_phase := 0, ch_fraudProof := [], ch_challengeStatus := CH_OPEN, ch_revealTxHash := uint256_zero\<rparr> = ch"
    using assms by (simp add: ready_challenge_reveal_def)
  with assms show ?thesis by (simp add: sm.put_same inv_sm_ok)
qed

lemma relock:
  assumes "cache_inv c" "ready_challenge_reveal p tx c" "sm_find (mapChallenges c) (opoiRequestId tx) = Some ch"
  shows "sm_put (ch_challengerCollateral ch) (ch_challengerAddress ch)
           (sm_erase (ch_challengerCollateral ch) (mapLockedUTXOs c)) = mapLockedUTXOs c"
    and "sm_put (ch_challengerCollateral ch) (ch_txHash ch)
           (sm_erase (ch_challengerCollateral ch) (mapLockingTxHash c)) = mapLockingTxHash c"
  using assms by (simp_all add: ready_challenge_reveal_def put_erase_same sm.put_same inv_sm_ok)

lemma challenge_reveal_inverse:
  assumes "cache_inv c" "ready_challenge_reveal p tx c"
  shows "canon (undo_challenge_reveal tx (apply_challenge_reveal p tx c)) = canon c"
proof (cases "sm_find (mapChallenges c) (opoiRequestId tx)")
  case None
  then show ?thesis by (simp add: undo_challenge_reveal_def apply_challenge_reveal_def)
next
  case (Some ch)
  note facts = challenge_reset [OF assms Some] relock [OF assms Some] inv_sm_ok [OF assms(1)]
  from assms(2) Some have paid: "opoiRequestId tx \<notin> setPaidChallengerRewards c"
    by (simp add: ready_challenge_reveal_def IsChallengerRewardPaid_def)
  show ?thesis
  proof (cases "sm_find (mapResponses c) (opoiRequestId tx)")
    case None
    with Some facts paid show ?thesis
      by (simp add: undo_challenge_reveal_def apply_challenge_reveal_eq slash_responder_def Let_def cache_defs
          modify_put_same canon_update)
  next
    case resp: (Some resp)
    with Some facts paid reactivate_slashed [OF assms Some resp] show ?thesis
      by (simp add: undo_challenge_reveal_def apply_challenge_reveal_eq slash_responder_def Let_def cache_defs
          modify_put_same modify_twice canon_update)
  qed
qed

lemma Undo_Apply:
  assumes "cache_inv c" "ready_tx p tx c" "nVersion tx = OPOI_TX_VERSION"
  shows "canon (UndoOPoITransaction tx (ApplyOPoITransaction e p tx h c)) = canon c"
proof -
  have "canon (undo_renew tx (apply_renew tx h c)) = canon c" if "ready_renew tx c"
  proof -
    from that have "apply_renew tx h c = c"
      unfolding apply_renew_def by (subst modify_ident) (simp_all add: ready_renew_def assms(1) inv_sm_ok)
    then show ?thesis by (simp add: undo_renew_def)
  qed
  note inverses = this request_inverse response_commit_inverse response_reveal_inverse stake_inverse
    unstake_inverse challenge_commit_inverse challenge_reveal_inverse model_register_inverse model_vote_inverse
    coordinator_claim_inverse shard_result_inverse auditor_verify_inverse
  from assms(2) show ?thesis
    unfolding ready_tx_def assms(3)
    by (simp only: simp_thms if_False split: if_split_asm)
      (simp_all add: UndoOPoITransaction_def ApplyOPoITransaction_def assms(1) inverses)
qed

interpretation opoi_undo: undoable
  "\<lambda>tx. ProcessOPoITransaction e p tx h False" "\<lambda>tx. ProcessOPoITransaction e p tx h True"
  "ready_tx p" canon cache_inv for e p h
proof unfold_locales
  fix c c' :: OPoICache and tx
  show "cache_inv c \<Longrightarrow> cache_inv (ProcessOPoITransaction e p tx h False c)"
    "cache_inv c \<Longrightarrow> cache_inv (ProcessOPoITransaction e p tx h True c)"
    by (rule inv_Process, assumption)+
  show "canon (ProcessOPoITransaction e p tx h True (ProcessOPoITransaction e p tx h False c)) = canon c"
    if "cache_inv c" "ready_tx p tx c"
    using that by (simp add: ProcessOPoITransaction_def Undo_Apply)
  show "canon (ProcessOPoITransaction e p tx h True c) = canon (ProcessOPoITransaction e p tx h True c')"
    if "cache_inv c" "cache_inv c'" "canon c = canon c'"
    using that canon_Undo [of c tx] canon_Undo [of c' tx] by (simp add: ProcessOPoITransaction_def)
qed

section \<open>Whole blocks\<close>

definition IsOPoITx :: "CTransaction \<Rightarrow> bool" where
  "IsOPoITx tx \<longleftrightarrow> nVersion tx = OPOI_TX_VERSION"

text \<open>
  The destructor of \<^verbatim>\<open>OPoIConnectGuard\<close>: when \<^verbatim>\<open>ConnectBlock\<close> fails, the transactions already
  applied are undone, last first. \<open>DisconnectBlock_opoi\<close> is the part of \<^verbatim>\<open>DisconnectBlock\<close> that
  touches the cache.
\<close>

definition OPoIConnectGuard :: "opoi_env \<Rightarrow> CTransaction list \<Rightarrow> bool \<Rightarrow> u32 \<Rightarrow> OPoICache \<Rightarrow> OPoICache" where
  "OPoIConnectGuard e v fCommitted nHeight c =
     (if fCommitted then c else fold (\<lambda>tx. ProcessOPoITransaction e None tx nHeight True) (rev v) c)"

definition DisconnectBlock_opoi :: "opoi_env \<Rightarrow> CTransaction list \<Rightarrow> u32 \<Rightarrow> OPoICache \<Rightarrow> OPoICache" where
  "DisconnectBlock_opoi e vtx nHeight c =
     fold (\<lambda>tx c. if IsOPoITx tx \<and> \<not> fIsVerifying e then ProcessOPoITransaction e None tx nHeight True c else c)
       (rev vtx) c"

fun ready_block :: "opoi_env \<Rightarrow> Params option \<Rightarrow> u32 \<Rightarrow> CTransaction list \<Rightarrow> OPoICache \<Rightarrow> bool" where
  "ready_block e p h [] c = True"
| "ready_block e p h (tx # txs) c =
     (ready_tx p tx c \<and> ready_block e p h txs (ProcessOPoITransaction e p tx h False c))"

lemma ready_block_run: "ready_block e p h txs c = undoable.ready_run (\<lambda>tx. ProcessOPoITransaction e p tx h False) (ready_tx p) txs c"
  by (induction txs arbitrary: c) simp_all

lemma undo_params: "ProcessOPoITransaction e p tx h True = ProcessOPoITransaction e None tx h True"
  by (rule ext) (simp add: ProcessOPoITransaction_def)


definition sample_block :: "CTransaction list" where
  "sample_block =
     [CTransaction_init\<lparr>nVersion := 8, nType := 3, tx_hash := [1], opoiMinerAddress := ''m'',
        opoiCollateralIn := COutPoint [7] 0, opoiPayment := 100000000\<rparr>,
      CTransaction_init\<lparr>nVersion := 8, nType := 1, tx_hash := [2], opoiRequestId := ''r'', opoiRequester := ''u'',
        opoiPayment := 500\<rparr>,
      CTransaction_init\<lparr>nVersion := 8, nType := 2, tx_hash := [3], opoiRequestId := ''r'', opoiMinerAddress := ''m'',
        opoiResponseCommitHash := [5]\<rparr>,
      CTransaction_init\<lparr>nVersion := 8, nType := 2, tx_hash := [4], opoiRequestId := ''r'', opoiMinerAddress := ''m'',
        opoiResponsePhase := 1\<rparr>,
      CTransaction_init\<lparr>nVersion := 8, nType := 5, tx_hash := [5], opoiRequestId := ''r'', opoiRequester := ''c'',
        opoiChallengerCollateralIn := COutPoint [8] 1\<rparr>]"


text \<open>
  A shard result that repeats a miner's earlier one changes nothing when its block connects,
  but disconnecting that block erases the miner's earlier result, which is still on the chain.
\<close>

theorem duplicate_result_undo_erases:
  assumes "nVersion tx = OPOI_TX_VERSION" "nType tx = OPOI_SHARD_RESULT_TX_TYPE" "cache_inv c"
    and "opoiMinerAddress tx \<in> sr_minerAddress ` set (ListShardResults c (opoiRequestId tx) (opoiShardIndex tx))"
  shows "ProcessOPoITransaction e p tx h False c = c \<and>
    ListShardResults (ProcessOPoITransaction e p tx h True c) (opoiRequestId tx) (opoiShardIndex tx) =
      filter (\<lambda>r. sr_minerAddress r \<noteq> opoiMinerAddress tx) (ListShardResults c (opoiRequestId tx) (opoiShardIndex tx)) \<and>
    length (ListShardResults (ProcessOPoITransaction e p tx h True c) (opoiRequestId tx) (opoiShardIndex tx)) <
      length (ListShardResults c (opoiRequestId tx) (opoiShardIndex tx))"
proof -
  let ?k = "ShardKey (opoiRequestId tx) (opoiShardIndex tx)"
  let ?v = "vec_at (mapShardResults c) ?k"
  have types: "OPOI_SHARD_RESULT_TX_TYPE \<noteq> OPOI_REQUEST_TX_TYPE" "OPOI_SHARD_RESULT_TX_TYPE \<noteq> OPOI_RESPONSE_TX_TYPE"
    "OPOI_SHARD_RESULT_TX_TYPE \<noteq> OPOI_STAKE_TX_TYPE" "OPOI_SHARD_RESULT_TX_TYPE \<noteq> OPOI_UNSTAKE_TX_TYPE"
    "OPOI_SHARD_RESULT_TX_TYPE \<noteq> OPOI_RENEW_TX_TYPE" "OPOI_SHARD_RESULT_TX_TYPE \<noteq> OPOI_CHALLENGE_TX_TYPE"
    "OPOI_SHARD_RESULT_TX_TYPE \<noteq> OPOI_MODEL_REGISTER_TX_TYPE" "OPOI_SHARD_RESULT_TX_TYPE \<noteq> OPOI_MODEL_VOTE_TX_TYPE"
    "OPOI_SHARD_RESULT_TX_TYPE \<noteq> OPOI_COORDINATOR_CLAIM_TX_TYPE"
    by (simp_all add: opoi_types)
  from assms(4) have "?v \<noteq> []" and mem: "opoiMinerAddress tx \<in> sr_minerAddress ` set ?v"
    by (auto simp: ListShardResults_def)
  then have found: "sm_find (mapShardResults c) ?k = Some ?v" by (simp add: vec_at_def split: option.splits)
  have "push_once sr_minerAddress ?v r = ?v" if "sr_minerAddress r = opoiMinerAddress tx" for r
    using mem that by (auto simp: push_once_def list_ex_iff)
  then have app: "ProcessOPoITransaction e p tx h False c = c"
    using assms(1-3) found types
    by (simp add: ProcessOPoITransaction_def ApplyOPoITransaction_def apply_shard_result_def AddShardResult_def
        sm.put_same inv_sm_ok)
  have und: "ListShardResults (ProcessOPoITransaction e p tx h True c) (opoiRequestId tx) (opoiShardIndex tx) =
      erase_who sr_minerAddress (opoiMinerAddress tx) ?v"
    using assms(1-3) found types
    by (simp add: ProcessOPoITransaction_def UndoOPoITransaction_def undo_shard_result_def UnmarkShardPaid_def
        ListShardResults_def vec_at_def inv_sm_ok split: option.splits)
  have "length (filter (\<lambda>r. sr_minerAddress r \<noteq> opoiMinerAddress tx) ?v) < length ?v"
    using mem by (auto intro: length_filter_less)
  with app und show ?thesis by (simp add: ListShardResults_def erase_who_def)
qed

theorem duplicate_result_undo_erases_witness:
  "\<exists>c. ListShardResults c ''r'' 0 = [sample_sub ''m'' 1 7] \<and>
     ListShardResults (ProcessOPoITransaction sample_env None
       (CTransaction_init\<lparr>nVersion := 8, nType := 10, opoiRequestId := ''r'', opoiMinerAddress := ''m''\<rparr>) 300 True c) ''r'' 0 = []"
proof -
  let ?tx = "CTransaction_init\<lparr>nVersion := 8, nType := 10, opoiRequestId := ''r'', opoiMinerAddress := ''m''\<rparr>"
  let ?c = "AddShardResult ''r'' 0 (sample_sub ''m'' 1 7) OPoICache_init"
  have inv: "cache_inv ?c" by (rule inv_AddShardResult [OF cache_inv_init])
  have list: "ListShardResults ?c ''r'' 0 = [sample_sub ''m'' 1 7]" by code_simp
  have f: "nVersion ?tx = OPOI_TX_VERSION" "nType ?tx = OPOI_SHARD_RESULT_TX_TYPE" "opoiMinerAddress ?tx = ''m''"
    "opoiRequestId ?tx = ''r''" "opoiShardIndex ?tx = 0" by code_simp+
  have "opoiMinerAddress ?tx \<in> sr_minerAddress ` set (ListShardResults ?c (opoiRequestId ?tx) (opoiShardIndex ?tx))"
    unfolding f list by (simp add: sample_sub_def)
  from duplicate_result_undo_erases [OF f(1,2) inv this, of sample_env None 300] list
  show ?thesis unfolding f by (intro exI [of _ ?c]) (simp add: sample_sub_def)
qed

end
