(* ===== verification/Opoi_Blocks.thy ===== *)
theory Opoi_Blocks
  imports Opoi_Undo
begin

text \<open>
  The state transitions that run once per block, in \<^verbatim>\<open>ConnectBlock\<close> and in the replay at
  start-up (\<^verbatim>\<open>opoi/opoi.cpp\<close>): open challenges and the unstake cool-down, expiry of requests,
  the commit window of responses, stake renewal, canary obligations and model voting.

  A loop that only rewrites the entry it visits is a map over the entries; a loop that also
  touches other members is a fold over the keys, in key order.

  The lemmas show what each transition does to one entry, that all of them keep the cache
  invariant, and when a model is approved although the code compares in floating point.
\<close>

section \<open>Challenges and the unstake cool-down\<close>

definition expire_challenge :: "u32 \<Rightarrow> Params \<Rightarrow> string \<Rightarrow> OPoICache \<Rightarrow> OPoICache" where
  "expire_challenge blockHeight params key c =
     (case sm_find (mapChallenges c) key of
        None \<Rightarrow> c
      | Some ch \<Rightarrow>
          let set_status = (\<lambda>st c. c\<lparr>mapChallenges :=
                sm_modify key (\<lambda>ch. ch\<lparr>ch_challengeStatus := st\<rparr>) (mapChallenges c)\<rparr>)
          in if ch_IsOpen ch then
               (if sint (blockHeight - ch_commitHeight ch) < nOPoIChallengeCommitRevealBlocks params then c
                else set_status CH_EXPIRED c)
             else if ch_IsPendingResolution ch then
               (let majority = GetAuditorMajorityResult c (ch_requestId ch) (nOPoIMinAuditors params)
                in if majority = uint AUDITOR_VERIFY_FAIL then
                     set_status CH_SLASHED
                       (UnlockUTXO (ch_challengerCollateral ch) (slash_responder (ch_requestId ch) c))
                   else if majority = uint AUDITOR_VERIFY_PASS then set_status CH_EXPIRED c
                   else c)
             else c)"

definition release_stake :: "u32 \<Rightarrow> Params \<Rightarrow> address \<Rightarrow> OPoICache \<Rightarrow> OPoICache" where
  "release_stake blockHeight params key c =
     (case sm_find (mapStakes c) key of
        None \<Rightarrow> c
      | Some s \<Rightarrow>
          if st_IsUnstaking s \<and> nOPoIUnstakeCooldownBlocks params \<le> sint (blockHeight - st_unstakeHeight s)
          then c\<lparr>mapStakes := sm_modify key (\<lambda>s. s\<lparr>st_stakeStatus := ST_RELEASED\<rparr>) (mapStakes c),
                 mapLockedUTXOs := sm_erase (st_collateralIn s) (mapLockedUTXOs c)\<rparr>
          else c)"

definition ProcessExpiredChallenges :: "u32 \<Rightarrow> Params \<Rightarrow> OPoICache \<Rightarrow> OPoICache" where
  "ProcessExpiredChallenges blockHeight params c =
     (let c1 = fold (expire_challenge blockHeight params) (sm_keys (mapChallenges c)) c
      in fold (release_stake blockHeight params) (sm_keys (mapStakes c1)) c1)"

section \<open>Requests\<close>

definition expire_request :: "u32 \<Rightarrow> Params \<Rightarrow> OPoIRequest \<Rightarrow> OPoIRequest" where
  "expire_request blockHeight params req =
     (if \<not> rq_IsPending req then req
      else if sint (blockHeight - rq_blockHeight req) < nOPoIRequestExpiryBlocks params then req
      else req\<lparr>rq_status := RQ_EXPIRED\<rparr>)"

definition ProcessExpiredRequests :: "u32 \<Rightarrow> Params \<Rightarrow> OPoICache \<Rightarrow> OPoICache" where
  "ProcessExpiredRequests blockHeight params c =
     (if nOPoIRequestExpiryBlocks params \<le> 0 then c
      else c\<lparr>mapRequests := sm_update_all (expire_request blockHeight params) (mapRequests c)\<rparr>)"

definition close_window :: "u32 \<Rightarrow> Params \<Rightarrow> OPoIRequest \<Rightarrow> OPoIRequest" where
  "close_window blockHeight params req =
     (if rq_commitWindowClosed req then req
      else if blockHeight - rq_blockHeight req < word_of_int (nOPoIResponseCommitWindowBlocks params) then req
      else req\<lparr>rq_commitWindowClosed := True\<rparr>)"

definition ProcessResponseCommitWindows :: "u32 \<Rightarrow> Params \<Rightarrow> OPoICache \<Rightarrow> OPoICache" where
  "ProcessResponseCommitWindows blockHeight params c =
     (if nOPoIResponseCommitWindowBlocks params \<le> 0 then c
      else c\<lparr>mapRequests := sm_update_all (close_window blockHeight params) (mapRequests c)\<rparr>)"

section \<open>Stake renewal\<close>

definition suspend_overdue :: "u32 \<Rightarrow> Params \<Rightarrow> OPoIStake \<Rightarrow> OPoIStake" where
  "suspend_overdue blockHeight params s =
     (if \<not> st_IsActive s then s
      else if blockHeight - max (st_blockHeight s) (st_lastRenewalHeight s)
                < word_of_int (nOPoIStakeRenewalBlocks params) then s
      else s\<lparr>st_stakeStatus := ST_SUSPENDED\<rparr>)"

definition ProcessStakeRenewals :: "u32 \<Rightarrow> Params \<Rightarrow> OPoICache \<Rightarrow> OPoICache" where
  "ProcessStakeRenewals blockHeight params c =
     (if nOPoIStakeRenewalBlocks params \<le> 0 then c
      else c\<lparr>mapStakes := sm_update_all (suspend_overdue blockHeight params) (mapStakes c)\<rparr>)"

section \<open>Canary obligations\<close>

definition strike_missed :: "u32 \<Rightarrow> OPoIStake \<Rightarrow> OPoIStake" where
  "strike_missed blockHeight s =
     (if st_canaryObligationDeadline s = 0 then s
      else if blockHeight \<le> st_canaryObligationDeadline s then s
      else let s1 = s\<lparr>st_canaryObligationDeadline := 0, st_canaryStrikes := st_canaryStrikes s + 1\<rparr>
           in if OPOI_MAX_CANARY_STRIKES \<le> st_canaryStrikes s1 \<and> st_IsActive s1
              then s1\<lparr>st_stakeStatus := ST_SUSPENDED\<rparr> else s1)"

definition activeAddrs :: "OPoICache \<Rightarrow> address list" where
  "activeAddrs c = map fst (filter (\<lambda>(_, s). st_IsActive s) (mapStakes c))"

definition canary_pick :: "u32 \<Rightarrow> u32 \<Rightarrow> address list \<Rightarrow> address" where
  "canary_pick blockHeight freq active = active ! (unat (blockHeight div freq) mod length active)"

definition ProcessCanaryAudits :: "u32 \<Rightarrow> Params \<Rightarrow> OPoICache \<Rightarrow> OPoICache" where
  "ProcessCanaryAudits blockHeight params c =
     (if nOPoICanaryAuditFrequency params \<le> 0 then c
      else let c1 = c\<lparr>mapStakes := sm_update_all (strike_missed blockHeight) (mapStakes c)\<rparr>;
               freq = word_of_int (nOPoICanaryAuditFrequency params);
               active = activeAddrs c1
           in if blockHeight mod freq \<noteq> 0 then c1
              else if active = [] then c1
              else c1\<lparr>mapStakes :=
                     sm_modify (canary_pick blockHeight freq active)
                       (\<lambda>s. s\<lparr>st_canaryObligationDeadline :=
                              blockHeight + word_of_int (max 1 (nOPoICanaryResponseWindow params))\<rparr>)
                       (mapStakes c1)\<rparr>)"

section \<open>Model voting\<close>

text \<open>\<^verbatim>\<open>(double)yesWeight * 100.0 >= (double)totalActiveStake * (double)pct\<close>.\<close>

definition model_approved :: "int \<Rightarrow> int \<Rightarrow> int \<Rightarrow> bool" where
  "model_approved yesWeight totalActiveStake pct \<longleftrightarrow>
     0 < totalActiveStake \<and> round53 (round53 totalActiveStake * pct) \<le> round53 (round53 yesWeight * 100)"

definition tally_manifest :: "u32 \<Rightarrow> Params \<Rightarrow> ModelManifest \<Rightarrow> OPoICache \<Rightarrow> OPoICache" where
  "tally_manifest blockHeight params m c =
     (let (yesWeight, noWeight) = TallyModelVotes c (mm_modelId m);
          totalActiveStake = TotalActiveStake c
      in if model_approved yesWeight totalActiveStake (nOPoIModelApprovalPct params)
         then SetModelManifestStatus (mm_modelId m) MS_APPROVED
                (blockHeight + word_of_int (nOPoIModelActivationDelayBlocks params)) c
         else SetModelManifestStatus (mm_modelId m) MS_REJECTED 0 c)"

definition activate_manifest :: "u32 \<Rightarrow> ModelManifest \<Rightarrow> OPoICache \<Rightarrow> OPoICache" where
  "activate_manifest blockHeight m c =
     (if 0 < mm_activationHeight m \<and> mm_activationHeight m \<le> blockHeight
      then SetModelManifestStatus (mm_modelId m) MS_ACTIVE 0 c else c)"

definition ProcessModelVotingWindows :: "u32 \<Rightarrow> Params \<Rightarrow> OPoICache \<Rightarrow> OPoICache" where
  "ProcessModelVotingWindows blockHeight params c =
     (let c1 = fold (tally_manifest blockHeight params) (ListManifestsDueForTally c blockHeight) c
      in fold (activate_manifest blockHeight) (ListModelManifests c1 (Some MS_APPROVED)) c1)"

section \<open>The invariant\<close>

lemma inv_set_locked:
  "cache_inv c \<Longrightarrow> cache_inv (c\<lparr>mapLockedUTXOs := sm_erase out (mapLockedUTXOs c)\<rparr>)"
  by (simp add: cache_inv_def wf_erase locks.accounted_def IsLockedUTXO_def GetLockingTxHash_def wf_map_def)

lemma inv_update_requests:
  "cache_inv c \<Longrightarrow> (\<And>k r. request_ok k r \<Longrightarrow> request_ok k (f r)) \<Longrightarrow>
   cache_inv (c\<lparr>mapRequests := sm_update_all f (mapRequests c)\<rparr>)"
  by (rule inv_set_requests) (auto simp: cache_inv_def intro!: wf_update_all)

lemma inv_update_stakes:
  "cache_inv c \<Longrightarrow> (\<And>s. st_minerAddress (f s) = st_minerAddress s) \<Longrightarrow>
   cache_inv (c\<lparr>mapStakes := sm_update_all f (mapStakes c)\<rparr>)"
  by (rule inv_set_stakes) (auto simp: cache_inv_def intro!: wf_update_all)

lemma inv_expire_challenge: "cache_inv c \<Longrightarrow> cache_inv (expire_challenge h params k c)"
  by (auto simp: expire_challenge_def Let_def split: option.splits
      intro!: inv_modify_challenge inv_UnlockUTXO inv_slash_responder)

lemma inv_release_stake: "cache_inv c \<Longrightarrow> cache_inv (release_stake h params k c)"
proof -
  assume "cache_inv c"
  then have "cache_inv ((c\<lparr>mapStakes := sm_modify k (\<lambda>s. s\<lparr>st_stakeStatus := ST_RELEASED\<rparr>) (mapStakes c)\<rparr>)
      \<lparr>mapLockedUTXOs := sm_erase out (mapLockedUTXOs (c\<lparr>mapStakes := sm_modify k (\<lambda>s. s\<lparr>st_stakeStatus := ST_RELEASED\<rparr>) (mapStakes c)\<rparr>))\<rparr>)" for out
    by (intro inv_set_locked inv_modify_stake) auto
  with \<open>cache_inv c\<close> show ?thesis by (simp add: release_stake_def split: option.splits)
qed

lemma inv_ProcessExpiredChallenges: "cache_inv c \<Longrightarrow> cache_inv (ProcessExpiredChallenges h params c)"
  unfolding ProcessExpiredChallenges_def Let_def
  by (intro fold_invariant [where P = cache_inv] inv_release_stake inv_expire_challenge)

lemma inv_ProcessExpiredRequests: "cache_inv c \<Longrightarrow> cache_inv (ProcessExpiredRequests h params c)"
  by (auto simp: ProcessExpiredRequests_def expire_request_def request_ok_def intro!: inv_update_requests)

lemma inv_ProcessResponseCommitWindows: "cache_inv c \<Longrightarrow> cache_inv (ProcessResponseCommitWindows h params c)"
  by (auto simp: ProcessResponseCommitWindows_def close_window_def request_ok_def intro!: inv_update_requests)

lemma inv_ProcessStakeRenewals: "cache_inv c \<Longrightarrow> cache_inv (ProcessStakeRenewals h params c)"
  by (auto simp: ProcessStakeRenewals_def suspend_overdue_def intro!: inv_update_stakes)

lemma inv_ProcessCanaryAudits: "cache_inv c \<Longrightarrow> cache_inv (ProcessCanaryAudits h params c)"
proof -
  assume "cache_inv c"
  then have "cache_inv (c\<lparr>mapStakes := sm_update_all (strike_missed h) (mapStakes c)\<rparr>)"
    by (rule inv_update_stakes) (simp add: strike_missed_def Let_def)
  from inv_modify_stake [OF this] this \<open>cache_inv c\<close> show ?thesis
    by (simp add: ProcessCanaryAudits_def Let_def)
qed

lemma inv_tally: "cache_inv c \<Longrightarrow> cache_inv (tally_manifest h params m c)"
  by (simp add: tally_manifest_def split_beta Let_def inv_SetModelManifestStatus)

lemma inv_activate: "cache_inv c \<Longrightarrow> cache_inv (activate_manifest h m c)"
  by (simp add: activate_manifest_def inv_SetModelManifestStatus)

lemma inv_ProcessModelVotingWindows: "cache_inv c \<Longrightarrow> cache_inv (ProcessModelVotingWindows h params c)"
  unfolding ProcessModelVotingWindows_def Let_def
  by (intro fold_invariant [where P = cache_inv] inv_tally inv_activate)

lemmas inv_blocks = inv_ProcessExpiredChallenges inv_ProcessExpiredRequests inv_ProcessResponseCommitWindows
  inv_ProcessStakeRenewals inv_ProcessCanaryAudits inv_ProcessModelVotingWindows

section \<open>Loops over the entries of a map\<close>

lemma fold_modify_keys:
  assumes "sm_ok m"
  shows "fold (\<lambda>k. sm_modify k (f k)) (sm_keys m) m = map (\<lambda>(k, v). (k, f k v)) m"
proof -
  have nth: "fold (\<lambda>k. sm_modify k (f k)) ks m =
      map (\<lambda>(k, v). (k, if k \<in> set ks then f k v else v)) m" if "distinct ks" for ks
    using that
  proof (induction ks rule: rev_induct)
    case (snoc k ks)
    then have "fold (\<lambda>k. sm_modify k (f k)) (ks @ [k]) m =
        sm_modify k (f k) (map (\<lambda>(k, v). (k, if k \<in> set ks then f k v else v)) m)" by simp
    also have "\<dots> = map (\<lambda>(k', v). (k', if k' \<in> set (ks @ [k]) then f k' v else v)) m"
      using snoc.prems by (auto simp: sm_modify_def)
    finally show ?case .
  qed (simp add: split_beta)
  have "distinct (sm_keys m)" using assms by (simp add: sm_ok_def strict_sorted_iff)
  from nth [OF this] show ?thesis by (auto simp: rev_image_eqI)
qed

lemma fold_local:
  assumes "\<And>k s. k \<in> set ks \<Longrightarrow> Q s \<Longrightarrow> g (step k s) = sm_modify k (f k) (g s) \<and> Q (step k s)" "Q s"
  shows "g (fold step ks s) = fold (\<lambda>k. sm_modify k (f k)) ks (g s)"
  using assms
proof (induction ks arbitrary: s)
  case (Cons k ks)
  then have "g (step k s) = sm_modify k (f k) (g s)" "Q (step k s)" by simp_all
  with Cons.IH [of "step k s"] Cons.prems(1) show ?case by simp
qed simp

section \<open>Resolution of challenges\<close>

definition resolved_status :: "u32 \<Rightarrow> Params \<Rightarrow> OPoICache \<Rightarrow> OPoIChallenge \<Rightarrow> challenge_status" where
  "resolved_status h params c ch =
     (if ch_IsOpen ch then
        (if sint (h - ch_commitHeight ch) < nOPoIChallengeCommitRevealBlocks params then CH_OPEN else CH_EXPIRED)
      else if ch_IsPendingResolution ch then
        (let majority = GetAuditorMajorityResult c (ch_requestId ch) (nOPoIMinAuditors params)
         in if majority = uint AUDITOR_VERIFY_FAIL then CH_SLASHED
            else if majority = uint AUDITOR_VERIFY_PASS then CH_EXPIRED else CH_REVEALED_PENDING)
      else ch_challengeStatus ch)"

lemma slash_frame [simp]:
  "mapChallenges (slash_responder r c) = mapChallenges c"
  "mapAuditorVerifications (slash_responder r c) = mapAuditorVerifications c"
  "mapResponses (slash_responder r c) = mapResponses c"
  "mapLockedUTXOs (slash_responder r c) = mapLockedUTXOs c"
  "mapRequests (slash_responder r c) = mapRequests c"
  by (simp_all add: slash_responder_def split: option.splits)

lemma expire_frame [simp]:
  "mapAuditorVerifications (expire_challenge h params k c) = mapAuditorVerifications c"
  "mapResponses (expire_challenge h params k c) = mapResponses c"
  "mapRequests (expire_challenge h params k c) = mapRequests c"
  by (simp_all add: expire_challenge_def Let_def UnlockUTXO_def split: option.splits)

lemma release_frame [simp]:
  "mapChallenges (release_stake h params k c) = mapChallenges c"
  "mapResponses (release_stake h params k c) = mapResponses c"
  "mapRequests (release_stake h params k c) = mapRequests c"
  "mapAuditorVerifications (release_stake h params k c) = mapAuditorVerifications c"
  by (simp_all add: release_stake_def split: option.splits)

lemma expire_challenge_local:
  assumes "sm_ok (mapChallenges s)" "mapAuditorVerifications s = mapAuditorVerifications c"
  shows "mapChallenges (expire_challenge h params k s) =
    sm_modify k (\<lambda>ch. ch\<lparr>ch_challengeStatus := resolved_status h params c ch\<rparr>) (mapChallenges s)"
proof (cases "sm_find (mapChallenges s) k")
  case None
  then have "sm_modify k f (mapChallenges s) = mapChallenges s" for f using assms by (intro sm.modify_id) auto
  with None show ?thesis by (simp add: expire_challenge_def)
next
  case (Some ch)
  have same: "sm_modify k f (mapChallenges s) = mapChallenges s" if "f ch = ch" for f
    using that assms Some by (intro sm.modify_id) auto
  have cong: "sm_modify k f (mapChallenges s) = sm_modify k g (mapChallenges s)" if "f ch = g ch" for f g
    using that assms Some by (intro sm.find_ext) auto
  have maj: "GetAuditorMajorityResult s r n = GetAuditorMajorityResult c r n" for r n
    by (simp add: GetAuditorMajorityResult_def assms)
  show ?thesis
  proof (cases "resolved_status h params c ch = ch_challengeStatus ch")
    case True
    with Some show ?thesis
      by (subst same)
        (auto simp: expire_challenge_def resolved_status_def Let_def maj ch_IsOpen_def ch_IsPendingResolution_def
          UnlockUTXO_def split: if_splits)
  next
    case False
    with Some show ?thesis
      by (subst cong [where g = "\<lambda>ch'. ch'\<lparr>ch_challengeStatus := resolved_status h params c ch\<rparr>"])
        (auto simp: expire_challenge_def resolved_status_def Let_def maj ch_IsOpen_def ch_IsPendingResolution_def
          UnlockUTXO_def split: if_splits)
  qed
qed

lemma fold_release_frame [simp]: "mapChallenges (fold (release_stake h params) ks c) = mapChallenges c"
  by (rule fold_unchanged) simp

lemma challenges_after:
  assumes "cache_inv c"
  shows "mapChallenges (ProcessExpiredChallenges h params c) =
    sm_update_all (\<lambda>ch. ch\<lparr>ch_challengeStatus := resolved_status h params c ch\<rparr>) (mapChallenges c)"
proof -
  let ?f = "\<lambda>ch. ch\<lparr>ch_challengeStatus := resolved_status h params c ch\<rparr>"
  have "mapChallenges (fold (expire_challenge h params) (sm_keys (mapChallenges c)) c) =
      fold (\<lambda>k. sm_modify k ?f) (sm_keys (mapChallenges c)) (mapChallenges c)"
    by (rule fold_local [where Q = "\<lambda>s. sm_ok (mapChallenges s) \<and> mapAuditorVerifications s = mapAuditorVerifications c"])
      (auto simp: expire_challenge_local assms inv_sm_ok)
  also have "\<dots> = sm_update_all ?f (mapChallenges c)"
    unfolding sm_update_all_def by (rule fold_modify_keys) (simp add: assms inv_sm_ok)
  finally show ?thesis by (simp add: ProcessExpiredChallenges_def Let_def)
qed

definition stake_in :: "stake_status set \<Rightarrow> address \<Rightarrow> OPoICache \<Rightarrow> bool" where
  "stake_in S a c = (case sm_find (mapStakes c) a of None \<Rightarrow> False | Some s \<Rightarrow> st_stakeStatus s \<in> S)"

lemma expire_challenge_stakes:
  "mapStakes (expire_challenge h params k c) = mapStakes c \<or>
   (\<exists>r. mapStakes (expire_challenge h params k c) = mapStakes (slash_responder r c))"
  by (auto simp: expire_challenge_def Let_def UnlockUTXO_def split: option.splits)

lemma stake_in_slash:
  "sm_ok (mapStakes c) \<Longrightarrow> ST_SLASHED \<in> S \<Longrightarrow> stake_in S a c \<Longrightarrow> stake_in S a (slash_responder r c)"
  by (auto simp: stake_in_def slash_responder_def split: option.splits)

lemma stake_in_expire:
  "sm_ok (mapStakes c) \<Longrightarrow> ST_SLASHED \<in> S \<Longrightarrow> stake_in S a c \<Longrightarrow> stake_in S a (expire_challenge h params k c)"
  using expire_challenge_stakes [of h params k c] stake_in_slash [of c S a]
  by (auto simp: stake_in_def)

lemma slashed_release:
  "sm_ok (mapStakes c) \<Longrightarrow> stake_in {ST_SLASHED} a c \<Longrightarrow> stake_in {ST_SLASHED} a (release_stake h params k c)"
  by (auto simp: stake_in_def release_stake_def st_IsUnstaking_def split: option.splits)

lemma slash_makes_slashed:
  "sm_ok (mapStakes c) \<Longrightarrow> sm_find (mapResponses c) r = Some resp \<Longrightarrow>
   stake_in {ST_ACTIVE, ST_SLASHED} (rs_minerAddress resp) c \<Longrightarrow>
   stake_in {ST_SLASHED} (rs_minerAddress resp) (slash_responder r c)"
  by (auto simp: stake_in_def slash_responder_def st_IsActive_def split: option.splits)

lemma unlocked_expire: "\<not> IsLockedUTXO c out \<Longrightarrow> \<not> IsLockedUTXO (expire_challenge h params k c) out"
  by (auto simp: IsLockedUTXO_def expire_challenge_def Let_def UnlockUTXO_def 
      split: option.splits)


lemma unlocked_release: "\<not> IsLockedUTXO c out \<Longrightarrow> \<not> IsLockedUTXO (release_stake h params k c) out"
  by (auto simp: IsLockedUTXO_def release_stake_def split: option.splits)

text \<open>What the loop over the challenges has when it reaches one of them.\<close>

definition reached :: "string \<Rightarrow> OPoIChallenge \<Rightarrow> OPoICache \<Rightarrow> OPoICache \<Rightarrow> bool" where
  "reached k ch c s \<longleftrightarrow> cache_inv s \<and> sm_find (mapChallenges s) k = Some ch \<and>
     mapAuditorVerifications s = mapAuditorVerifications c \<and> mapResponses s = mapResponses c"

lemma reached_expire: "reached k ch c s \<Longrightarrow> j \<noteq> k \<Longrightarrow> reached k ch c (expire_challenge h params j s)"
  by (simp add: reached_def inv_expire_challenge expire_challenge_local inv_sm_ok)

lemma inv_settled:
  assumes "P s" "cache_inv s" "\<And>k s. cache_inv s \<Longrightarrow> P s \<Longrightarrow> P (f k s)" "\<And>k s. cache_inv s \<Longrightarrow> cache_inv (f k s)"
  shows "P (fold f ks s) \<and> cache_inv (fold f ks s)"
  by (rule fold_invariant) (simp_all add: assms)

lemma slashing_settled:
  assumes "cache_inv c" "sm_find (mapChallenges c) k = Some ch" "ch_IsPendingResolution ch"
    "GetAuditorMajorityResult c (ch_requestId ch) (nOPoIMinAuditors params) = uint AUDITOR_VERIFY_FAIL"
  shows "\<not> IsLockedUTXO (ProcessExpiredChallenges h params c) (ch_challengerCollateral ch)"
    and "sm_find (mapResponses c) (ch_requestId ch) = Some resp \<Longrightarrow> stake_in {ST_ACTIVE, ST_SLASHED} (rs_minerAddress resp) c \<Longrightarrow>
      stake_in {ST_SLASHED} (rs_minerAddress resp) (ProcessExpiredChallenges h params c)"
proof -
  let ?f = "expire_challenge h params" and ?g = "release_stake h params" and ?a = "rs_minerAddress resp"
  have "k \<in> set (sm_keys (mapChallenges c))" and dist: "distinct (sm_keys (mapChallenges c))"
    using assms inv_sm_ok(7) [OF assms(1)] by (force dest: map_of_SomeD, simp add: sm_ok_def strict_sorted_iff)
  then obtain xs ys where ks: "sm_keys (mapChallenges c) = xs @ k # ys" by (meson split_list)
  with dist have "k \<notin> set xs" by auto
  let ?s = "fold ?f xs c"
  have r: "reached k ch c ?s"
  proof (rule fold_invariant)
    show "reached k ch c c" using assms by (simp add: reached_def)
    show "reached k ch c (?f j s)" if "j \<in> set xs" "reached k ch c s" for j s
      using that \<open>k \<notin> set xs\<close> by (intro reached_expire) auto
  qed
  then have inv: "cache_inv ?s" by (simp add: reached_def)
  have step: "?f k ?s = (let c1 = UnlockUTXO (ch_challengerCollateral ch) (slash_responder (ch_requestId ch) ?s)
      in c1\<lparr>mapChallenges := sm_modify k (\<lambda>ch. ch\<lparr>ch_challengeStatus := CH_SLASHED\<rparr>) (mapChallenges c1)\<rparr>)"
    using r assms(3,4)
    by (simp add: reached_def expire_challenge_def ch_IsOpen_def ch_IsPendingResolution_def
        GetAuditorMajorityResult_def Let_def)
  have P: "ProcessExpiredChallenges h params c =
      fold ?g (sm_keys (mapStakes (fold ?f ys (?f k ?s)))) (fold ?f ys (?f k ?s))"
    by (simp add: ProcessExpiredChallenges_def Let_def ks)
  let ?L = "\<lambda>s. \<not> IsLockedUTXO s (ch_challengerCollateral ch)"
  let ?S = "\<lambda>s. stake_in {ST_SLASHED} ?a s"
  have inv': "cache_inv (?f k ?s)" by (rule inv_expire_challenge [OF inv])
  show "?L (ProcessExpiredChallenges h params c)"
  proof -
    have "?L (?f k ?s)" by (simp add: step Let_def IsLockedUTXO_def UnlockUTXO_def)
    from inv_settled [where P = ?L and f = ?f and ks = ys, OF this inv' unlocked_expire inv_expire_challenge]
    have *: "?L (fold ?f ys (?f k ?s))" "cache_inv (fold ?f ys (?f k ?s))" by simp_all
    show ?thesis unfolding P
      using inv_settled [where P = ?L and f = ?g, OF * unlocked_release inv_release_stake] by simp
  qed
  show "?S (ProcessExpiredChallenges h params c)"
    if resp: "sm_find (mapResponses c) (ch_requestId ch) = Some resp" "stake_in {ST_ACTIVE, ST_SLASHED} ?a c"
  proof -
    have keep: "stake_in S ?a (?f j s)" if "ST_SLASHED \<in> S" "cache_inv s" "stake_in S ?a s" for S j s
      using that by (simp add: stake_in_expire inv_sm_ok)
    have "stake_in {ST_ACTIVE, ST_SLASHED} ?a ?s"
      using inv_settled [where P = "stake_in {ST_ACTIVE, ST_SLASHED} ?a" and f = ?f and ks = xs, OF resp(2) assms(1)]
      by (simp add: keep inv_expire_challenge)
    with r resp have "?S (slash_responder (ch_requestId ch) ?s)"
      by (intro slash_makes_slashed) (simp_all add: reached_def inv_sm_ok)
    then have "?S (?f k ?s)" by (simp add: step Let_def stake_in_def UnlockUTXO_def)
    from inv_settled [where P = ?S and f = ?f and ks = ys, OF this inv']
    have *: "?S (fold ?f ys (?f k ?s))" "cache_inv (fold ?f ys (?f k ?s))"
      by (simp_all add: keep inv_expire_challenge)
    show ?thesis unfolding P
      using inv_settled [where P = ?S and f = ?g, OF *] by (simp add: slashed_release inv_sm_ok inv_release_stake)
  qed
qed


definition sample_stake :: "address \<Rightarrow> OPoIStake" where
  "sample_stake a = \<lparr>st_minerAddress = a, st_collateralIn = COutPoint [7] 0, st_amount = 1000, st_modelId = ''m'',
     st_tier = 0, st_pomRoot = uint256_zero, st_blockHeight = 100, st_lastRenewalHeight = 0, st_sigTime = 0,
     st_txHash = [1], st_stakeStatus = ST_ACTIVE, st_unstakeHeight = 0, st_unstakeTxHash = uint256_zero,
     st_responsesTotal = 1, st_responsesChallenged = 1, st_responsesSlashed = 0, st_canaryStrikes = 0,
     st_canaryObligationDeadline = 0, st_minerPubKey = [], st_hostedExpertIds = [], st_endpoint = []\<rparr>"

definition sample_response :: "address \<Rightarrow> OPoIResponse" where
  "sample_response a = \<lparr>rs_requestId = ''r'', rs_minerAddress = a, rs_responseHash = [4], rs_commitment = [5],
     rs_tokenCount = 7, rs_responsePhase = 1, rs_blockHeight = 204, rs_sigTime = 0, rs_txHash = [6],
     rs_auditSelected = 0, rs_auditDeadline = 0\<rparr>"

definition sample_challenge :: "challenge_status \<Rightarrow> OPoIChallenge" where
  "sample_challenge st = \<lparr>ch_requestId = ''r'', ch_challengerAddress = ''c'', ch_fraudProof = [1],
     ch_challengerCollateral = COutPoint [8] 1, ch_phase = 1, ch_commitHash = [], ch_commitHeight = 206,
     ch_blockHeight = 206, ch_sigTime = 0, ch_txHash = [5], ch_challengeStatus = st, ch_revealTxHash = [9]\<rparr>"

text \<open>A request answered by \<open>m\<close>, challenged and revealed, with one auditor's verdict FAIL.\<close>

definition sample_disputed :: "challenge_status \<Rightarrow> OPoICache" where
  "sample_disputed st = OPoICache_init\<lparr>mapRequests := [(''r'', sample_request\<lparr>rq_taskType := OPOI_TASK_VERIFIABLE\<rparr>)],
     mapStakes := [(''m'', sample_stake ''m'')], mapResponses := [(''r'', sample_response ''m'')],
     mapChallenges := [(''r'', sample_challenge st)], mapAuditorVerifications := [(''r'', [sample_vote ''a'' 1])],
     mapLockedUTXOs := [(COutPoint [8] 1, ''c'')], mapLockingTxHash := [(COutPoint [8] 1, [5])]\<rparr>"

lemma sample_disputed_inv: "cache_inv (sample_disputed st)"
  by (simp add: sample_disputed_def cache_inv_def OPoICache_init_def wf_map_def request_ok_def sm_ok_def
      sample_request_def sample_stake_def sample_response_def sample_challenge_def sample_vote_def verifs_ok_def
      IsShardScoped_def locks.accounted_def IsLockedUTXO_def GetLockingTxHash_def split: if_splits)


section \<open>Model voting\<close>

lemma sm_modify_id: "sm_modify k (\<lambda>v. v) m = m"
  by (simp add: sm_modify_def case_prod_unfold)

text \<open>A loop over a copy of the values that updates each value's own entry is a map.\<close>

lemma fold_modify_values:
  assumes ok: "sm_ok m" and key: "\<And>k v. (k, v) \<in> set m \<Longrightarrow> key v = k"
  shows "fold (\<lambda>v. sm_modify (key v) (f v)) (filter P (map snd m)) m =
    map (\<lambda>(k, v). (k, if P v then f v v else v)) m"
proof -
  define g where "g k v = (if P v then f (the (sm_find m k)) v else v)" for k v
  have find: "sm_find m k = Some v" if "(k, v) \<in> set m" for k v
    using that ok by (simp add: sm_ok_def strict_sorted_iff)
  let ?G = "\<lambda>k. if P (the (sm_find m k)) then sm_modify k (f (the (sm_find m k))) else id"
  have "fold (\<lambda>v. sm_modify (key v) (f v)) (filter P (map snd m)) m =
      fold (\<lambda>kv. if P (snd kv) then sm_modify (key (snd kv)) (f (snd kv)) else id) m m"
    by (simp add: fold_filter fold_map comp_def)
  also have "\<dots> = fold (\<lambda>kv. sm_modify (fst kv) (if P (the (sm_find m (fst kv))) then f (the (sm_find m (fst kv))) else (\<lambda>v. v))) m m"
    by (rule fold_cong) (auto simp: find key sm_modify_id fun_eq_iff)
  also have "\<dots> = fold (\<lambda>k. sm_modify k (if P (the (sm_find m k)) then f (the (sm_find m k)) else (\<lambda>v. v))) (sm_keys m) m"
    by (simp add: fold_map comp_def)
  also have "\<dots> = map (\<lambda>(k, v). (k, (if P (the (sm_find m k)) then f (the (sm_find m k)) else (\<lambda>v. v)) v)) m"
    by (rule fold_modify_keys [OF ok])
  also have "\<dots> = map (\<lambda>(k, v). (k, if P v then f v v else v)) m"
    by (rule map_cong) (auto simp: find)
  finally show ?thesis .
qed

definition set_manifest_status :: "model_status \<Rightarrow> u32 \<Rightarrow> ModelManifest \<Rightarrow> ModelManifest" where
  "set_manifest_status status act m =
     (if 0 < act then m\<lparr>mm_status := status, mm_activationHeight := act\<rparr> else m\<lparr>mm_status := status\<rparr>)"

definition tally_effect :: "u32 \<Rightarrow> Params \<Rightarrow> OPoICache \<Rightarrow> ModelManifest \<Rightarrow> ModelManifest" where
  "tally_effect h params c m =
     (if model_approved (fst (TallyModelVotes c (mm_modelId m))) (TotalActiveStake c) (nOPoIModelApprovalPct params)
      then set_manifest_status MS_APPROVED (h + word_of_int (nOPoIModelActivationDelayBlocks params)) m
      else m\<lparr>mm_status := MS_REJECTED\<rparr>)"

definition voting_effect :: "u32 \<Rightarrow> Params \<Rightarrow> OPoICache \<Rightarrow> ModelManifest \<Rightarrow> ModelManifest" where
  "voting_effect h params c m =
     (let m1 = (if mm_IsVoting m \<and> mm_voteWindowEndHeight m \<le> h then tally_effect h params c m else m)
      in if mm_status m1 = MS_APPROVED \<and> 0 < mm_activationHeight m1 \<and> mm_activationHeight m1 \<le> h
         then m1\<lparr>mm_status := MS_ACTIVE\<rparr> else m1)"

lemma SetModelManifestStatus_frame [simp]:
  "mapModelVotes (SetModelManifestStatus i st act c) = mapModelVotes c"
  "mapStakes (SetModelManifestStatus i st act c) = mapStakes c"
  by (simp_all add: SetModelManifestStatus_def)

lemma tally_manifest_frame [simp]:
  "mapModelVotes (tally_manifest h params m c) = mapModelVotes c"
  "mapStakes (tally_manifest h params m c) = mapStakes c"
  by (simp_all add: tally_manifest_def split_beta Let_def)

lemma tally_manifest_local:
  assumes "mapModelVotes s = mapModelVotes c" "mapStakes s = mapStakes c"
  shows "mapModelManifests (tally_manifest h params m s) =
    sm_modify (mm_modelId m) (\<lambda>m'. if model_approved (fst (TallyModelVotes c (mm_modelId m))) (TotalActiveStake c)
         (nOPoIModelApprovalPct params)
       then set_manifest_status MS_APPROVED (h + word_of_int (nOPoIModelActivationDelayBlocks params)) m'
       else m'\<lparr>mm_status := MS_REJECTED\<rparr>) (mapModelManifests s)"
proof -
  have "TallyModelVotes s i = TallyModelVotes c i" "TotalActiveStake s = TotalActiveStake c" for i
    using assms by (simp_all add: TallyModelVotes_def TotalActiveStake_def)
  then show ?thesis
    by (simp add: tally_manifest_def split_beta Let_def SetModelManifestStatus_def set_manifest_status_def)
qed

lemma fold_values_local:
  assumes "Q s" "\<And>x s. Q s \<Longrightarrow> g (step x s) = f x (g s) \<and> Q (step x s)"
  shows "g (fold step xs s) = fold f xs (g s)"
  using assms(1) by (induction xs arbitrary: s) (simp_all add: assms(2))

lemma manifests_after:
  assumes inv: "cache_inv c"
  shows "mapModelManifests (ProcessModelVotingWindows h params c) =
    sm_update_all (voting_effect h params c) (mapModelManifests c)"
proof -
  let ?M = "mapModelManifests c"
  have keyM: "mm_modelId m = k" if "(k, m) \<in> set ?M" for k m
    using inv that by (auto simp: cache_inv_def wf_map_def sm_ok_def strict_sorted_iff)
  let ?due = "\<lambda>m. mm_IsVoting m \<and> mm_voteWindowEndHeight m \<le> h"
  let ?c1 = "fold (tally_manifest h params) (ListManifestsDueForTally c h) c"
  let ?m1 = "\<lambda>m. if ?due m then tally_effect h params c m else m"
  have one: "mapModelManifests ?c1 = map (\<lambda>(k, m). (k, ?m1 m)) ?M"
  proof -
    have "mapModelManifests ?c1 = fold (\<lambda>m. sm_modify (mm_modelId m) (\<lambda>m'.
        if model_approved (fst (TallyModelVotes c (mm_modelId m))) (TotalActiveStake c) (nOPoIModelApprovalPct params)
        then set_manifest_status MS_APPROVED (h + word_of_int (nOPoIModelActivationDelayBlocks params)) m'
        else m'\<lparr>mm_status := MS_REJECTED\<rparr>)) (filter ?due (map snd ?M)) ?M"
      unfolding ListManifestsDueForTally_def
      by (rule fold_values_local [where Q = "\<lambda>s. mapModelVotes s = mapModelVotes c \<and> mapStakes s = mapStakes c"])
        (simp_all add: tally_manifest_local)
    also have "\<dots> = map (\<lambda>(k, m). (k, ?m1 m)) ?M"
      by (subst fold_modify_values) (auto simp: inv inv_sm_ok keyM tally_effect_def)
    finally show ?thesis .
  qed
  have ok1: "sm_ok (mapModelManifests ?c1)"
    using inv_sm_ok(12) [OF inv] by (simp add: one sm_ok_def comp_def case_prod_unfold)
  have key1: "mm_modelId m = k" if "(k, m) \<in> set (mapModelManifests ?c1)" for k m
    using that keyM by (auto simp: one tally_effect_def set_manifest_status_def split: if_splits)
  have "mapModelManifests (ProcessModelVotingWindows h params c) =
      fold (\<lambda>m. sm_modify (mm_modelId m) (\<lambda>m'. if 0 < mm_activationHeight m \<and> mm_activationHeight m \<le> h
         then m'\<lparr>mm_status := MS_ACTIVE\<rparr> else m'))
       (filter (\<lambda>m. mm_status m = MS_APPROVED) (map snd (mapModelManifests ?c1))) (mapModelManifests ?c1)"
    unfolding ProcessModelVotingWindows_def Let_def ListModelManifests_def
    by (subst fold_values_local [where Q = "\<lambda>s. True" and g = mapModelManifests])
      (auto simp: activate_manifest_def SetModelManifestStatus_def sm_modify_id eq_commute [of MS_APPROVED])
  also have "\<dots> = sm_update_all (voting_effect h params c) ?M"
    by (subst fold_modify_values [OF ok1 key1])
      (auto simp: one voting_effect_def Let_def sm_update_all_def)
  finally show ?thesis .
qed


definition sample_manifest :: ModelManifest where
  "sample_manifest = sample_moe\<lparr>mm_status := MS_VOTING, mm_voteWindowEndHeight := 205\<rparr>"


text \<open>
  The approval test compares doubles. For weights below \<open>2 ^ 53\<close> a proposal whose yes weight
  reaches the percentage of the active stake is always approved; when the two products also
  stay below \<open>2 ^ 53\<close> the test is exact.
\<close>

theorem model_approval_threshold:
  assumes "0 \<le> yes" "0 < stake" "0 \<le> pct" "yes < 2 ^ 53" "stake < 2 ^ 53"
  shows "(stake * pct \<le> yes * 100 \<longrightarrow> model_approved yes stake pct) \<and>
    (yes * 100 < 2 ^ 53 \<and> stake * pct < 2 ^ 53 \<longrightarrow>
       (model_approved yes stake pct \<longleftrightarrow> stake * pct \<le> yes * 100))"
proof -
  have e: "round53 yes = yes" "round53 stake = stake" using assms by (auto intro: round53_exact)
  have "0 \<le> stake * pct" using assms by simp
  then show ?thesis
    using assms round53_mono [of "stake * pct" "yes * 100"] round53_exact [of "stake * pct"] round53_exact [of "yes * 100"]
    by (auto simp: model_approved_def e)
qed

theorem model_approval_threshold_witness: "model_approved 66000 100000 66 \<and> \<not> model_approved 65999 100000 66"
  using model_approval_threshold [of 66000 100000 66] model_approval_threshold [of 65999 100000 66] by simp

section \<open>Canary obligations\<close>

text \<open>
  The canary obligation goes round: over as many consecutive audit heights as there are
  active stakers, with the same set of active stakers, the stakers picked are the active ones
  in a rotated order, so each is picked exactly once.
\<close>

theorem canary_rotation:
  assumes "0 < freq" "(j + length active) * unat freq < 2 ^ 32"
  shows "map (\<lambda>i. canary_pick (word_of_nat ((j + i) * unat freq)) freq active) [0..<length active] = rotate j active"
proof (rule nth_equalityI)
  fix i assume "i < length (map (\<lambda>i. canary_pick (word_of_nat ((j + i) * unat freq)) freq active) [0..<length active])"
  then have i: "i < length active" by simp
  have "(j + i) * unat freq < 2 ^ 32"
    by (rule le_less_trans [OF mult_le_mono1 assms(2)]) (use i in simp)
  moreover have "unat (word_of_nat n :: u32) = n" if "n < 2 ^ 32" for n
    using that by (simp add: unat_of_nat)
  ultimately have "unat ((word_of_nat ((j + i) * unat freq) :: u32) div freq) = (j + i) * unat freq div unat freq"
    by (simp only: unat_div)
  also have "\<dots> = j + i" using assms(1) by (simp add: word_less_nat_alt)
  finally show "map (\<lambda>i. canary_pick (word_of_nat ((j + i) * unat freq)) freq active) [0..<length active] ! i = rotate j active ! i"
    using i by (simp add: canary_pick_def nth_rotate)
qed simp

theorem canary_rotation_witness:
  "map (\<lambda>i. canary_pick (word_of_nat ((5 + i) * unat (14 :: u32))) 14 [''a'', ''b'', ''c'']) [0..<length [''a'', ''b'', ''c'']] =
   [''c'', ''a'', ''b'']"
proof -
  have "(0 :: u32) < 14" "(5 + length [''a'', ''b'', ''c'']) * unat (14 :: u32) < 2 ^ 32" by simp_all
  note canary_rotation [OF this]
  also have "rotate 5 [''a'', ''b'', ''c''] = [''c'', ''a'', ''b'']" by code_simp
  finally show ?thesis .
qed

end
