(* ===== verification/Opoi_Frame.thy ===== *)
theory Opoi_Frame
  imports Opoi_Process
begin

text \<open>
  What applying a transaction leaves alone: for every branch of \<^verbatim>\<open>ProcessOPoITransaction\<close> the
  members of the cache it does not touch (collection \<open>frame_simps\<close>), and for the dispatcher the
  members that no branch touches.
\<close>

lemma frame_slash_responder [frame_simps]:
  "mapRequests (slash_responder r c) = mapRequests c"
  "mapResponses (slash_responder r c) = mapResponses c"
  "mapResponseCommits (slash_responder r c) = mapResponseCommits c"
  "mapResponseCommitTxHash (slash_responder r c) = mapResponseCommitTxHash c"
  "mapResponseCommitHeight (slash_responder r c) = mapResponseCommitHeight c"
  "mapChallenges (slash_responder r c) = mapChallenges c"
  "mapLockedUTXOs (slash_responder r c) = mapLockedUTXOs c"
  "mapLockingTxHash (slash_responder r c) = mapLockingTxHash c"
  "mapAuditorVerifications (slash_responder r c) = mapAuditorVerifications c"
  "mapShardAuditorVerifications (slash_responder r c) = mapShardAuditorVerifications c"
  "mapModelManifests (slash_responder r c) = mapModelManifests c"
  "mapModelVotes (slash_responder r c) = mapModelVotes c"
  "mapCoordinatorClaims (slash_responder r c) = mapCoordinatorClaims c"
  "mapShardResults (slash_responder r c) = mapShardResults c"
  "setPaidShards (slash_responder r c) = setPaidShards c"
  "setResolvedAuditorVerifications (slash_responder r c) = setResolvedAuditorVerifications c"
  "setResolvedShardAuditorVerifications (slash_responder r c) = setResolvedShardAuditorVerifications c"
  "setPaidResponses (slash_responder r c) = setPaidResponses c"
  "setPaidChallengerRewards (slash_responder r c) = setPaidChallengerRewards c"
  "treasurySlashTotal (slash_responder r c) = treasurySlashTotal c"
  "treasuryExpiryTotal (slash_responder r c) = treasuryExpiryTotal c"
  "treasuryAuditorTotal (slash_responder r c) = treasuryAuditorTotal c"
  "mapPendingDeliveries (slash_responder r c) = mapPendingDeliveries c"
  "setKnownOPoIDataHashes (slash_responder r c) = setKnownOPoIDataHashes c"
  "mapContentByKey (slash_responder r c) = mapContentByKey c"
  by (simp_all add: slash_responder_def split: option.splits)

lemma frame_apply_request [frame_simps]:
  "mapResponses (apply_request tx h c) = mapResponses c"
  "mapResponseCommits (apply_request tx h c) = mapResponseCommits c"
  "mapResponseCommitTxHash (apply_request tx h c) = mapResponseCommitTxHash c"
  "mapResponseCommitHeight (apply_request tx h c) = mapResponseCommitHeight c"
  "mapStakes (apply_request tx h c) = mapStakes c"
  "mapChallenges (apply_request tx h c) = mapChallenges c"
  "mapLockedUTXOs (apply_request tx h c) = mapLockedUTXOs c"
  "mapLockingTxHash (apply_request tx h c) = mapLockingTxHash c"
  "mapAuditorVerifications (apply_request tx h c) = mapAuditorVerifications c"
  "mapShardAuditorVerifications (apply_request tx h c) = mapShardAuditorVerifications c"
  "mapModelManifests (apply_request tx h c) = mapModelManifests c"
  "mapModelVotes (apply_request tx h c) = mapModelVotes c"
  "mapCoordinatorClaims (apply_request tx h c) = mapCoordinatorClaims c"
  "mapShardResults (apply_request tx h c) = mapShardResults c"
  "setPaidShards (apply_request tx h c) = setPaidShards c"
  "setResolvedAuditorVerifications (apply_request tx h c) = setResolvedAuditorVerifications c"
  "setResolvedShardAuditorVerifications (apply_request tx h c) = setResolvedShardAuditorVerifications c"
  "setPaidResponses (apply_request tx h c) = setPaidResponses c"
  "setPaidChallengerRewards (apply_request tx h c) = setPaidChallengerRewards c"
  "treasurySlashTotal (apply_request tx h c) = treasurySlashTotal c"
  "treasuryExpiryTotal (apply_request tx h c) = treasuryExpiryTotal c"
  "treasuryAuditorTotal (apply_request tx h c) = treasuryAuditorTotal c"
  "mapPendingDeliveries (apply_request tx h c) = mapPendingDeliveries c"
  "setKnownOPoIDataHashes (apply_request tx h c) = setKnownOPoIDataHashes c"
  "mapContentByKey (apply_request tx h c) = mapContentByKey c"
  by (simp_all add: apply_request_def cache_defs Let_def)

lemma frame_apply_response_commit [frame_simps]:
  "mapResponses (apply_response_commit tx h c) = mapResponses c"
  "mapStakes (apply_response_commit tx h c) = mapStakes c"
  "mapChallenges (apply_response_commit tx h c) = mapChallenges c"
  "mapLockedUTXOs (apply_response_commit tx h c) = mapLockedUTXOs c"
  "mapLockingTxHash (apply_response_commit tx h c) = mapLockingTxHash c"
  "mapAuditorVerifications (apply_response_commit tx h c) = mapAuditorVerifications c"
  "mapShardAuditorVerifications (apply_response_commit tx h c) = mapShardAuditorVerifications c"
  "mapModelManifests (apply_response_commit tx h c) = mapModelManifests c"
  "mapModelVotes (apply_response_commit tx h c) = mapModelVotes c"
  "mapCoordinatorClaims (apply_response_commit tx h c) = mapCoordinatorClaims c"
  "mapShardResults (apply_response_commit tx h c) = mapShardResults c"
  "setPaidShards (apply_response_commit tx h c) = setPaidShards c"
  "setResolvedAuditorVerifications (apply_response_commit tx h c) = setResolvedAuditorVerifications c"
  "setResolvedShardAuditorVerifications (apply_response_commit tx h c) = setResolvedShardAuditorVerifications c"
  "setPaidResponses (apply_response_commit tx h c) = setPaidResponses c"
  "setPaidChallengerRewards (apply_response_commit tx h c) = setPaidChallengerRewards c"
  "treasurySlashTotal (apply_response_commit tx h c) = treasurySlashTotal c"
  "treasuryExpiryTotal (apply_response_commit tx h c) = treasuryExpiryTotal c"
  "treasuryAuditorTotal (apply_response_commit tx h c) = treasuryAuditorTotal c"
  "mapPendingDeliveries (apply_response_commit tx h c) = mapPendingDeliveries c"
  "setKnownOPoIDataHashes (apply_response_commit tx h c) = setKnownOPoIDataHashes c"
  "mapContentByKey (apply_response_commit tx h c) = mapContentByKey c"
  by (simp_all add: apply_response_commit_def cache_defs Let_def)

lemma frame_apply_response_reveal [frame_simps]:
  "mapResponseCommits (apply_response_reveal e p tx h c) = mapResponseCommits c"
  "mapResponseCommitTxHash (apply_response_reveal e p tx h c) = mapResponseCommitTxHash c"
  "mapResponseCommitHeight (apply_response_reveal e p tx h c) = mapResponseCommitHeight c"
  "mapChallenges (apply_response_reveal e p tx h c) = mapChallenges c"
  "mapLockedUTXOs (apply_response_reveal e p tx h c) = mapLockedUTXOs c"
  "mapLockingTxHash (apply_response_reveal e p tx h c) = mapLockingTxHash c"
  "mapAuditorVerifications (apply_response_reveal e p tx h c) = mapAuditorVerifications c"
  "mapShardAuditorVerifications (apply_response_reveal e p tx h c) = mapShardAuditorVerifications c"
  "mapModelManifests (apply_response_reveal e p tx h c) = mapModelManifests c"
  "mapModelVotes (apply_response_reveal e p tx h c) = mapModelVotes c"
  "mapCoordinatorClaims (apply_response_reveal e p tx h c) = mapCoordinatorClaims c"
  "mapShardResults (apply_response_reveal e p tx h c) = mapShardResults c"
  "setPaidShards (apply_response_reveal e p tx h c) = setPaidShards c"
  "setResolvedAuditorVerifications (apply_response_reveal e p tx h c) = setResolvedAuditorVerifications c"
  "setResolvedShardAuditorVerifications (apply_response_reveal e p tx h c) = setResolvedShardAuditorVerifications c"
  "setPaidResponses (apply_response_reveal e p tx h c) = setPaidResponses c"
  "setPaidChallengerRewards (apply_response_reveal e p tx h c) = setPaidChallengerRewards c"
  "treasurySlashTotal (apply_response_reveal e p tx h c) = treasurySlashTotal c"
  "treasuryExpiryTotal (apply_response_reveal e p tx h c) = treasuryExpiryTotal c"
  "treasuryAuditorTotal (apply_response_reveal e p tx h c) = treasuryAuditorTotal c"
  "mapPendingDeliveries (apply_response_reveal e p tx h c) = mapPendingDeliveries c"
  "setKnownOPoIDataHashes (apply_response_reveal e p tx h c) = setKnownOPoIDataHashes c"
  "mapContentByKey (apply_response_reveal e p tx h c) = mapContentByKey c"
  by (simp_all add: apply_response_reveal_def cache_defs Let_def split_beta)

lemma frame_apply_stake [frame_simps]:
  "mapRequests (apply_stake e tx h c) = mapRequests c"
  "mapResponses (apply_stake e tx h c) = mapResponses c"
  "mapResponseCommits (apply_stake e tx h c) = mapResponseCommits c"
  "mapResponseCommitTxHash (apply_stake e tx h c) = mapResponseCommitTxHash c"
  "mapResponseCommitHeight (apply_stake e tx h c) = mapResponseCommitHeight c"
  "mapChallenges (apply_stake e tx h c) = mapChallenges c"
  "mapAuditorVerifications (apply_stake e tx h c) = mapAuditorVerifications c"
  "mapShardAuditorVerifications (apply_stake e tx h c) = mapShardAuditorVerifications c"
  "mapModelManifests (apply_stake e tx h c) = mapModelManifests c"
  "mapModelVotes (apply_stake e tx h c) = mapModelVotes c"
  "mapCoordinatorClaims (apply_stake e tx h c) = mapCoordinatorClaims c"
  "mapShardResults (apply_stake e tx h c) = mapShardResults c"
  "setPaidShards (apply_stake e tx h c) = setPaidShards c"
  "setResolvedAuditorVerifications (apply_stake e tx h c) = setResolvedAuditorVerifications c"
  "setResolvedShardAuditorVerifications (apply_stake e tx h c) = setResolvedShardAuditorVerifications c"
  "setPaidResponses (apply_stake e tx h c) = setPaidResponses c"
  "setPaidChallengerRewards (apply_stake e tx h c) = setPaidChallengerRewards c"
  "treasurySlashTotal (apply_stake e tx h c) = treasurySlashTotal c"
  "treasuryExpiryTotal (apply_stake e tx h c) = treasuryExpiryTotal c"
  "treasuryAuditorTotal (apply_stake e tx h c) = treasuryAuditorTotal c"
  "mapPendingDeliveries (apply_stake e tx h c) = mapPendingDeliveries c"
  "setKnownOPoIDataHashes (apply_stake e tx h c) = setKnownOPoIDataHashes c"
  "mapContentByKey (apply_stake e tx h c) = mapContentByKey c"
  by (simp_all add: apply_stake_def cache_defs Let_def)

lemma frame_apply_unstake [frame_simps]:
  "mapRequests (apply_unstake tx h c) = mapRequests c"
  "mapResponses (apply_unstake tx h c) = mapResponses c"
  "mapResponseCommits (apply_unstake tx h c) = mapResponseCommits c"
  "mapResponseCommitTxHash (apply_unstake tx h c) = mapResponseCommitTxHash c"
  "mapResponseCommitHeight (apply_unstake tx h c) = mapResponseCommitHeight c"
  "mapChallenges (apply_unstake tx h c) = mapChallenges c"
  "mapLockedUTXOs (apply_unstake tx h c) = mapLockedUTXOs c"
  "mapLockingTxHash (apply_unstake tx h c) = mapLockingTxHash c"
  "mapAuditorVerifications (apply_unstake tx h c) = mapAuditorVerifications c"
  "mapShardAuditorVerifications (apply_unstake tx h c) = mapShardAuditorVerifications c"
  "mapModelManifests (apply_unstake tx h c) = mapModelManifests c"
  "mapModelVotes (apply_unstake tx h c) = mapModelVotes c"
  "mapCoordinatorClaims (apply_unstake tx h c) = mapCoordinatorClaims c"
  "mapShardResults (apply_unstake tx h c) = mapShardResults c"
  "setPaidShards (apply_unstake tx h c) = setPaidShards c"
  "setResolvedAuditorVerifications (apply_unstake tx h c) = setResolvedAuditorVerifications c"
  "setResolvedShardAuditorVerifications (apply_unstake tx h c) = setResolvedShardAuditorVerifications c"
  "setPaidResponses (apply_unstake tx h c) = setPaidResponses c"
  "setPaidChallengerRewards (apply_unstake tx h c) = setPaidChallengerRewards c"
  "treasurySlashTotal (apply_unstake tx h c) = treasurySlashTotal c"
  "treasuryExpiryTotal (apply_unstake tx h c) = treasuryExpiryTotal c"
  "treasuryAuditorTotal (apply_unstake tx h c) = treasuryAuditorTotal c"
  "mapPendingDeliveries (apply_unstake tx h c) = mapPendingDeliveries c"
  "setKnownOPoIDataHashes (apply_unstake tx h c) = setKnownOPoIDataHashes c"
  "mapContentByKey (apply_unstake tx h c) = mapContentByKey c"
  by (simp_all add: apply_unstake_def cache_defs Let_def)

lemma frame_apply_renew [frame_simps]:
  "mapRequests (apply_renew tx h c) = mapRequests c"
  "mapResponses (apply_renew tx h c) = mapResponses c"
  "mapResponseCommits (apply_renew tx h c) = mapResponseCommits c"
  "mapResponseCommitTxHash (apply_renew tx h c) = mapResponseCommitTxHash c"
  "mapResponseCommitHeight (apply_renew tx h c) = mapResponseCommitHeight c"
  "mapChallenges (apply_renew tx h c) = mapChallenges c"
  "mapLockedUTXOs (apply_renew tx h c) = mapLockedUTXOs c"
  "mapLockingTxHash (apply_renew tx h c) = mapLockingTxHash c"
  "mapAuditorVerifications (apply_renew tx h c) = mapAuditorVerifications c"
  "mapShardAuditorVerifications (apply_renew tx h c) = mapShardAuditorVerifications c"
  "mapModelManifests (apply_renew tx h c) = mapModelManifests c"
  "mapModelVotes (apply_renew tx h c) = mapModelVotes c"
  "mapCoordinatorClaims (apply_renew tx h c) = mapCoordinatorClaims c"
  "mapShardResults (apply_renew tx h c) = mapShardResults c"
  "setPaidShards (apply_renew tx h c) = setPaidShards c"
  "setResolvedAuditorVerifications (apply_renew tx h c) = setResolvedAuditorVerifications c"
  "setResolvedShardAuditorVerifications (apply_renew tx h c) = setResolvedShardAuditorVerifications c"
  "setPaidResponses (apply_renew tx h c) = setPaidResponses c"
  "setPaidChallengerRewards (apply_renew tx h c) = setPaidChallengerRewards c"
  "treasurySlashTotal (apply_renew tx h c) = treasurySlashTotal c"
  "treasuryExpiryTotal (apply_renew tx h c) = treasuryExpiryTotal c"
  "treasuryAuditorTotal (apply_renew tx h c) = treasuryAuditorTotal c"
  "mapPendingDeliveries (apply_renew tx h c) = mapPendingDeliveries c"
  "setKnownOPoIDataHashes (apply_renew tx h c) = setKnownOPoIDataHashes c"
  "mapContentByKey (apply_renew tx h c) = mapContentByKey c"
  by (simp_all add: apply_renew_def cache_defs Let_def)

lemma frame_apply_challenge_commit [frame_simps]:
  "mapRequests (apply_challenge_commit tx h c) = mapRequests c"
  "mapResponses (apply_challenge_commit tx h c) = mapResponses c"
  "mapResponseCommits (apply_challenge_commit tx h c) = mapResponseCommits c"
  "mapResponseCommitTxHash (apply_challenge_commit tx h c) = mapResponseCommitTxHash c"
  "mapResponseCommitHeight (apply_challenge_commit tx h c) = mapResponseCommitHeight c"
  "mapAuditorVerifications (apply_challenge_commit tx h c) = mapAuditorVerifications c"
  "mapShardAuditorVerifications (apply_challenge_commit tx h c) = mapShardAuditorVerifications c"
  "mapModelManifests (apply_challenge_commit tx h c) = mapModelManifests c"
  "mapModelVotes (apply_challenge_commit tx h c) = mapModelVotes c"
  "mapCoordinatorClaims (apply_challenge_commit tx h c) = mapCoordinatorClaims c"
  "mapShardResults (apply_challenge_commit tx h c) = mapShardResults c"
  "setPaidShards (apply_challenge_commit tx h c) = setPaidShards c"
  "setResolvedAuditorVerifications (apply_challenge_commit tx h c) = setResolvedAuditorVerifications c"
  "setResolvedShardAuditorVerifications (apply_challenge_commit tx h c) = setResolvedShardAuditorVerifications c"
  "setPaidResponses (apply_challenge_commit tx h c) = setPaidResponses c"
  "setPaidChallengerRewards (apply_challenge_commit tx h c) = setPaidChallengerRewards c"
  "treasurySlashTotal (apply_challenge_commit tx h c) = treasurySlashTotal c"
  "treasuryExpiryTotal (apply_challenge_commit tx h c) = treasuryExpiryTotal c"
  "treasuryAuditorTotal (apply_challenge_commit tx h c) = treasuryAuditorTotal c"
  "mapPendingDeliveries (apply_challenge_commit tx h c) = mapPendingDeliveries c"
  "setKnownOPoIDataHashes (apply_challenge_commit tx h c) = setKnownOPoIDataHashes c"
  "mapContentByKey (apply_challenge_commit tx h c) = mapContentByKey c"
  by (simp_all add: apply_challenge_commit_def cache_defs Let_def split: option.splits)

lemma frame_apply_challenge_reveal [frame_simps]:
  "mapRequests (apply_challenge_reveal p tx c) = mapRequests c"
  "mapResponses (apply_challenge_reveal p tx c) = mapResponses c"
  "mapResponseCommits (apply_challenge_reveal p tx c) = mapResponseCommits c"
  "mapResponseCommitTxHash (apply_challenge_reveal p tx c) = mapResponseCommitTxHash c"
  "mapResponseCommitHeight (apply_challenge_reveal p tx c) = mapResponseCommitHeight c"
  "mapAuditorVerifications (apply_challenge_reveal p tx c) = mapAuditorVerifications c"
  "mapShardAuditorVerifications (apply_challenge_reveal p tx c) = mapShardAuditorVerifications c"
  "mapModelManifests (apply_challenge_reveal p tx c) = mapModelManifests c"
  "mapModelVotes (apply_challenge_reveal p tx c) = mapModelVotes c"
  "mapCoordinatorClaims (apply_challenge_reveal p tx c) = mapCoordinatorClaims c"
  "mapShardResults (apply_challenge_reveal p tx c) = mapShardResults c"
  "setPaidShards (apply_challenge_reveal p tx c) = setPaidShards c"
  "setResolvedAuditorVerifications (apply_challenge_reveal p tx c) = setResolvedAuditorVerifications c"
  "setResolvedShardAuditorVerifications (apply_challenge_reveal p tx c) = setResolvedShardAuditorVerifications c"
  "setPaidResponses (apply_challenge_reveal p tx c) = setPaidResponses c"
  "setPaidChallengerRewards (apply_challenge_reveal p tx c) = setPaidChallengerRewards c"
  "treasurySlashTotal (apply_challenge_reveal p tx c) = treasurySlashTotal c"
  "treasuryExpiryTotal (apply_challenge_reveal p tx c) = treasuryExpiryTotal c"
  "treasuryAuditorTotal (apply_challenge_reveal p tx c) = treasuryAuditorTotal c"
  "mapPendingDeliveries (apply_challenge_reveal p tx c) = mapPendingDeliveries c"
  "setKnownOPoIDataHashes (apply_challenge_reveal p tx c) = setKnownOPoIDataHashes c"
  "mapContentByKey (apply_challenge_reveal p tx c) = mapContentByKey c"
  unfolding apply_challenge_reveal_def by (simp_all add: Let_def cache_defs frame_simps split: option.splits)

lemma frame_apply_model_register [frame_simps]:
  "mapRequests (apply_model_register e p tx h c) = mapRequests c"
  "mapResponses (apply_model_register e p tx h c) = mapResponses c"
  "mapResponseCommits (apply_model_register e p tx h c) = mapResponseCommits c"
  "mapResponseCommitTxHash (apply_model_register e p tx h c) = mapResponseCommitTxHash c"
  "mapResponseCommitHeight (apply_model_register e p tx h c) = mapResponseCommitHeight c"
  "mapStakes (apply_model_register e p tx h c) = mapStakes c"
  "mapChallenges (apply_model_register e p tx h c) = mapChallenges c"
  "mapLockedUTXOs (apply_model_register e p tx h c) = mapLockedUTXOs c"
  "mapLockingTxHash (apply_model_register e p tx h c) = mapLockingTxHash c"
  "mapAuditorVerifications (apply_model_register e p tx h c) = mapAuditorVerifications c"
  "mapShardAuditorVerifications (apply_model_register e p tx h c) = mapShardAuditorVerifications c"
  "mapModelVotes (apply_model_register e p tx h c) = mapModelVotes c"
  "mapCoordinatorClaims (apply_model_register e p tx h c) = mapCoordinatorClaims c"
  "mapShardResults (apply_model_register e p tx h c) = mapShardResults c"
  "setPaidShards (apply_model_register e p tx h c) = setPaidShards c"
  "setResolvedAuditorVerifications (apply_model_register e p tx h c) = setResolvedAuditorVerifications c"
  "setResolvedShardAuditorVerifications (apply_model_register e p tx h c) = setResolvedShardAuditorVerifications c"
  "setPaidResponses (apply_model_register e p tx h c) = setPaidResponses c"
  "setPaidChallengerRewards (apply_model_register e p tx h c) = setPaidChallengerRewards c"
  "treasurySlashTotal (apply_model_register e p tx h c) = treasurySlashTotal c"
  "treasuryExpiryTotal (apply_model_register e p tx h c) = treasuryExpiryTotal c"
  "treasuryAuditorTotal (apply_model_register e p tx h c) = treasuryAuditorTotal c"
  "mapPendingDeliveries (apply_model_register e p tx h c) = mapPendingDeliveries c"
  "setKnownOPoIDataHashes (apply_model_register e p tx h c) = setKnownOPoIDataHashes c"
  "mapContentByKey (apply_model_register e p tx h c) = mapContentByKey c"
  by (simp_all add: apply_model_register_def cache_defs Let_def)

lemma frame_apply_model_vote [frame_simps]:
  "mapRequests (apply_model_vote tx h c) = mapRequests c"
  "mapResponses (apply_model_vote tx h c) = mapResponses c"
  "mapResponseCommits (apply_model_vote tx h c) = mapResponseCommits c"
  "mapResponseCommitTxHash (apply_model_vote tx h c) = mapResponseCommitTxHash c"
  "mapResponseCommitHeight (apply_model_vote tx h c) = mapResponseCommitHeight c"
  "mapStakes (apply_model_vote tx h c) = mapStakes c"
  "mapChallenges (apply_model_vote tx h c) = mapChallenges c"
  "mapLockedUTXOs (apply_model_vote tx h c) = mapLockedUTXOs c"
  "mapLockingTxHash (apply_model_vote tx h c) = mapLockingTxHash c"
  "mapAuditorVerifications (apply_model_vote tx h c) = mapAuditorVerifications c"
  "mapShardAuditorVerifications (apply_model_vote tx h c) = mapShardAuditorVerifications c"
  "mapModelManifests (apply_model_vote tx h c) = mapModelManifests c"
  "mapCoordinatorClaims (apply_model_vote tx h c) = mapCoordinatorClaims c"
  "mapShardResults (apply_model_vote tx h c) = mapShardResults c"
  "setPaidShards (apply_model_vote tx h c) = setPaidShards c"
  "setResolvedAuditorVerifications (apply_model_vote tx h c) = setResolvedAuditorVerifications c"
  "setResolvedShardAuditorVerifications (apply_model_vote tx h c) = setResolvedShardAuditorVerifications c"
  "setPaidResponses (apply_model_vote tx h c) = setPaidResponses c"
  "setPaidChallengerRewards (apply_model_vote tx h c) = setPaidChallengerRewards c"
  "treasurySlashTotal (apply_model_vote tx h c) = treasurySlashTotal c"
  "treasuryExpiryTotal (apply_model_vote tx h c) = treasuryExpiryTotal c"
  "treasuryAuditorTotal (apply_model_vote tx h c) = treasuryAuditorTotal c"
  "mapPendingDeliveries (apply_model_vote tx h c) = mapPendingDeliveries c"
  "setKnownOPoIDataHashes (apply_model_vote tx h c) = setKnownOPoIDataHashes c"
  "mapContentByKey (apply_model_vote tx h c) = mapContentByKey c"
  by (simp_all add: apply_model_vote_def cache_defs Let_def split: option.splits)

lemma frame_apply_coordinator_claim [frame_simps]:
  "mapRequests (apply_coordinator_claim tx h c) = mapRequests c"
  "mapResponses (apply_coordinator_claim tx h c) = mapResponses c"
  "mapResponseCommits (apply_coordinator_claim tx h c) = mapResponseCommits c"
  "mapResponseCommitTxHash (apply_coordinator_claim tx h c) = mapResponseCommitTxHash c"
  "mapResponseCommitHeight (apply_coordinator_claim tx h c) = mapResponseCommitHeight c"
  "mapStakes (apply_coordinator_claim tx h c) = mapStakes c"
  "mapChallenges (apply_coordinator_claim tx h c) = mapChallenges c"
  "mapLockedUTXOs (apply_coordinator_claim tx h c) = mapLockedUTXOs c"
  "mapLockingTxHash (apply_coordinator_claim tx h c) = mapLockingTxHash c"
  "mapAuditorVerifications (apply_coordinator_claim tx h c) = mapAuditorVerifications c"
  "mapShardAuditorVerifications (apply_coordinator_claim tx h c) = mapShardAuditorVerifications c"
  "mapModelManifests (apply_coordinator_claim tx h c) = mapModelManifests c"
  "mapModelVotes (apply_coordinator_claim tx h c) = mapModelVotes c"
  "mapShardResults (apply_coordinator_claim tx h c) = mapShardResults c"
  "setPaidShards (apply_coordinator_claim tx h c) = setPaidShards c"
  "setResolvedAuditorVerifications (apply_coordinator_claim tx h c) = setResolvedAuditorVerifications c"
  "setResolvedShardAuditorVerifications (apply_coordinator_claim tx h c) = setResolvedShardAuditorVerifications c"
  "setPaidResponses (apply_coordinator_claim tx h c) = setPaidResponses c"
  "setPaidChallengerRewards (apply_coordinator_claim tx h c) = setPaidChallengerRewards c"
  "treasurySlashTotal (apply_coordinator_claim tx h c) = treasurySlashTotal c"
  "treasuryExpiryTotal (apply_coordinator_claim tx h c) = treasuryExpiryTotal c"
  "treasuryAuditorTotal (apply_coordinator_claim tx h c) = treasuryAuditorTotal c"
  "mapPendingDeliveries (apply_coordinator_claim tx h c) = mapPendingDeliveries c"
  "setKnownOPoIDataHashes (apply_coordinator_claim tx h c) = setKnownOPoIDataHashes c"
  "mapContentByKey (apply_coordinator_claim tx h c) = mapContentByKey c"
  by (simp_all add: apply_coordinator_claim_def cache_defs Let_def)

lemma frame_apply_shard_result [frame_simps]:
  "mapRequests (apply_shard_result tx h c) = mapRequests c"
  "mapResponses (apply_shard_result tx h c) = mapResponses c"
  "mapResponseCommits (apply_shard_result tx h c) = mapResponseCommits c"
  "mapResponseCommitTxHash (apply_shard_result tx h c) = mapResponseCommitTxHash c"
  "mapResponseCommitHeight (apply_shard_result tx h c) = mapResponseCommitHeight c"
  "mapStakes (apply_shard_result tx h c) = mapStakes c"
  "mapChallenges (apply_shard_result tx h c) = mapChallenges c"
  "mapLockedUTXOs (apply_shard_result tx h c) = mapLockedUTXOs c"
  "mapLockingTxHash (apply_shard_result tx h c) = mapLockingTxHash c"
  "mapAuditorVerifications (apply_shard_result tx h c) = mapAuditorVerifications c"
  "mapShardAuditorVerifications (apply_shard_result tx h c) = mapShardAuditorVerifications c"
  "mapModelManifests (apply_shard_result tx h c) = mapModelManifests c"
  "mapModelVotes (apply_shard_result tx h c) = mapModelVotes c"
  "mapCoordinatorClaims (apply_shard_result tx h c) = mapCoordinatorClaims c"
  "setPaidShards (apply_shard_result tx h c) = setPaidShards c"
  "setResolvedAuditorVerifications (apply_shard_result tx h c) = setResolvedAuditorVerifications c"
  "setResolvedShardAuditorVerifications (apply_shard_result tx h c) = setResolvedShardAuditorVerifications c"
  "setPaidResponses (apply_shard_result tx h c) = setPaidResponses c"
  "setPaidChallengerRewards (apply_shard_result tx h c) = setPaidChallengerRewards c"
  "treasurySlashTotal (apply_shard_result tx h c) = treasurySlashTotal c"
  "treasuryExpiryTotal (apply_shard_result tx h c) = treasuryExpiryTotal c"
  "treasuryAuditorTotal (apply_shard_result tx h c) = treasuryAuditorTotal c"
  "mapPendingDeliveries (apply_shard_result tx h c) = mapPendingDeliveries c"
  "setKnownOPoIDataHashes (apply_shard_result tx h c) = setKnownOPoIDataHashes c"
  "mapContentByKey (apply_shard_result tx h c) = mapContentByKey c"
  by (simp_all add: apply_shard_result_def cache_defs Let_def)

lemma frame_apply_auditor_verify [frame_simps]:
  "mapRequests (apply_auditor_verify tx h c) = mapRequests c"
  "mapResponses (apply_auditor_verify tx h c) = mapResponses c"
  "mapResponseCommits (apply_auditor_verify tx h c) = mapResponseCommits c"
  "mapResponseCommitTxHash (apply_auditor_verify tx h c) = mapResponseCommitTxHash c"
  "mapResponseCommitHeight (apply_auditor_verify tx h c) = mapResponseCommitHeight c"
  "mapStakes (apply_auditor_verify tx h c) = mapStakes c"
  "mapChallenges (apply_auditor_verify tx h c) = mapChallenges c"
  "mapModelManifests (apply_auditor_verify tx h c) = mapModelManifests c"
  "mapModelVotes (apply_auditor_verify tx h c) = mapModelVotes c"
  "mapCoordinatorClaims (apply_auditor_verify tx h c) = mapCoordinatorClaims c"
  "mapShardResults (apply_auditor_verify tx h c) = mapShardResults c"
  "setPaidShards (apply_auditor_verify tx h c) = setPaidShards c"
  "setResolvedAuditorVerifications (apply_auditor_verify tx h c) = setResolvedAuditorVerifications c"
  "setResolvedShardAuditorVerifications (apply_auditor_verify tx h c) = setResolvedShardAuditorVerifications c"
  "setPaidResponses (apply_auditor_verify tx h c) = setPaidResponses c"
  "setPaidChallengerRewards (apply_auditor_verify tx h c) = setPaidChallengerRewards c"
  "treasurySlashTotal (apply_auditor_verify tx h c) = treasurySlashTotal c"
  "treasuryExpiryTotal (apply_auditor_verify tx h c) = treasuryExpiryTotal c"
  "treasuryAuditorTotal (apply_auditor_verify tx h c) = treasuryAuditorTotal c"
  "mapPendingDeliveries (apply_auditor_verify tx h c) = mapPendingDeliveries c"
  "setKnownOPoIDataHashes (apply_auditor_verify tx h c) = setKnownOPoIDataHashes c"
  "mapContentByKey (apply_auditor_verify tx h c) = mapContentByKey c"
  by (simp_all add: apply_auditor_verify_def cache_defs Let_def)

lemma frame_Apply [frame_simps]:
  "setPaidShards (ApplyOPoITransaction e p tx h c) = setPaidShards c"
  "setResolvedAuditorVerifications (ApplyOPoITransaction e p tx h c) = setResolvedAuditorVerifications c"
  "setResolvedShardAuditorVerifications (ApplyOPoITransaction e p tx h c) = setResolvedShardAuditorVerifications c"
  "setPaidResponses (ApplyOPoITransaction e p tx h c) = setPaidResponses c"
  "setPaidChallengerRewards (ApplyOPoITransaction e p tx h c) = setPaidChallengerRewards c"
  "treasurySlashTotal (ApplyOPoITransaction e p tx h c) = treasurySlashTotal c"
  "treasuryExpiryTotal (ApplyOPoITransaction e p tx h c) = treasuryExpiryTotal c"
  "treasuryAuditorTotal (ApplyOPoITransaction e p tx h c) = treasuryAuditorTotal c"
  "mapPendingDeliveries (ApplyOPoITransaction e p tx h c) = mapPendingDeliveries c"
  "setKnownOPoIDataHashes (ApplyOPoITransaction e p tx h c) = setKnownOPoIDataHashes c"
  "mapContentByKey (ApplyOPoITransaction e p tx h c) = mapContentByKey c"
  by (simp_all add: ApplyOPoITransaction_def frame_simps)

lemma frame_Process [frame_simps]:
  "setPaidShards (ProcessOPoITransaction e p tx h False c) = setPaidShards c"
  "setResolvedAuditorVerifications (ProcessOPoITransaction e p tx h False c) = setResolvedAuditorVerifications c"
  "setResolvedShardAuditorVerifications (ProcessOPoITransaction e p tx h False c) = setResolvedShardAuditorVerifications c"
  "setPaidResponses (ProcessOPoITransaction e p tx h False c) = setPaidResponses c"
  "setPaidChallengerRewards (ProcessOPoITransaction e p tx h False c) = setPaidChallengerRewards c"
  "treasurySlashTotal (ProcessOPoITransaction e p tx h False c) = treasurySlashTotal c"
  "treasuryExpiryTotal (ProcessOPoITransaction e p tx h False c) = treasuryExpiryTotal c"
  "treasuryAuditorTotal (ProcessOPoITransaction e p tx h False c) = treasuryAuditorTotal c"
  "mapPendingDeliveries (ProcessOPoITransaction e p tx h False c) = mapPendingDeliveries c"
  "setKnownOPoIDataHashes (ProcessOPoITransaction e p tx h False c) = setKnownOPoIDataHashes c"
  "mapContentByKey (ProcessOPoITransaction e p tx h False c) = mapContentByKey c"
  by (simp_all add: ProcessOPoITransaction_def frame_simps)

end
