(* ===== verification/Opoi_Payments.thy ===== *)
theory Opoi_Payments
  imports Opoi_Blocks Opoi_Frame Cs_Subsidy
begin

text \<open>
  What a block pays (\<^verbatim>\<open>opoi/opoi.cpp\<close>, \<^verbatim>\<open>miner.cpp\<close>): the shard payments, the deferred response
  payments and the challenger rewards owed at a block, the check of the coinbase against them,
  the outputs \<^verbatim>\<open>CreateNewBlock\<close> adds, the bookkeeping after the block is connected, and the
  resolution of the auditors' votes.

  \<^verbatim>\<open>vtx\<close> is the block with its coinbase at index 0. The loops of \<^verbatim>\<open>CheckOPoIPayments\<close> and of
  \<^verbatim>\<open>CreateNewBlock\<close> over the four kinds of payment have the same body for every kind; the body
  is \<open>check_pass\<close> and \<open>build_pass\<close>, run over the list of payments of each kind.

  The lemmas characterise acceptance of a coinbase by multisets of outputs, show that nothing
  is paid twice, that the payments computed before and after a block is applied agree (and
  when they do not), and that a resolved vote releases and burns exactly the right collateral.
\<close>

section \<open>Payments owed\<close>

record OPoIShardPayment =
  sp_requestId :: string
  sp_shardIndex :: u32
  sp_minerAddress :: address
  sp_amount :: int

record OPoIResponsePayment =
  rp_requestId :: string
  rp_minerAddress :: address
  rp_amount :: int

record OPoIChallengerReward =
  cr_challengerAddress :: address
  cr_rewardAmount :: int
  cr_requestId :: string
  cr_treasuryAmount :: int

definition GetEffectiveShardMinSubmissions :: "OPoICache \<Rightarrow> OPoIRequest \<Rightarrow> u32 \<Rightarrow> Params \<Rightarrow> int" where
  "GetEffectiveShardMinSubmissions c req shardIndex params =
     (let configuredMin = nOPoIShardMinSubmissions params
      in case GetModelManifest c (rq_model req) of
           None \<Rightarrow> configuredMin
         | Some manifest \<Rightarrow>
             if \<not> mm_IsActive manifest then configuredMin
             else let meg = BuildModelExecutionGraph manifest (ShouldCollapseToTitanSingleNode c params manifest)
                  in if length meg \<le> unat shardIndex then configuredMin
                     else let d = meg ! unat shardIndex;
                              available = (if sd_shardType d = OPOI_SHARD_EXPERT
                                           then CountActiveExpertHosts c (sd_expertId d) else CountActiveStakers c)
                          in if 0 < available \<and> available < configuredMin then available else configuredMin)"

text \<open>The base payment plus \<^verbatim>\<open>(CAmount)tokenCount * feePerToken\<close>, in 64-bit arithmetic.\<close>

definition with_token_fee :: "int \<Rightarrow> int \<Rightarrow> u32 \<Rightarrow> int" where
  "with_token_fee base feePerToken tokenCount =
     (if 0 < feePerToken \<and> 0 < tokenCount then wrap64 (base + wrap64 (uint tokenCount * feePerToken)) else base)"

definition shard_weight :: "ShardDescriptor \<Rightarrow> u64" where
  "shard_weight d = (if sd_shardType d = OPOI_SHARD_DENSE then ucast (sd_layerEnd d - sd_layerStart d) else 1)"

text \<open>The total weight of the graph and, if the shard is in it, the shard's own weight.\<close>

definition graph_weights :: "ShardDescriptor list \<Rightarrow> u32 \<Rightarrow> u64 \<times> u64 option" where
  "graph_weights meg shardIndex =
     foldl (\<lambda>(total, mine) d. (total + shard_weight d,
              if sd_shardIndex d = shardIndex then Some (shard_weight d) else mine)) (0, None) meg"

definition shard_share :: "OPoICache \<Rightarrow> Params \<Rightarrow> OPoIRequest \<Rightarrow> u32 \<Rightarrow> int option" where
  "shard_share c params req shardIndex =
     (case GetModelManifest c (rq_model req) of
        None \<Rightarrow> Some (rq_payment req)
      | Some manifest \<Rightarrow>
          if \<not> mm_IsActive manifest then Some (rq_payment req)
          else case graph_weights (BuildModelExecutionGraph manifest
                      (ShouldCollapseToTitanSingleNode c params manifest)) shardIndex of
                 (totalWeight, None) \<Rightarrow> None
               | (totalWeight, Some myWeight) \<Rightarrow>
                   if totalWeight = 0 then None
                   else Some (cdiv (wrap64 (rq_payment req * sint myWeight)) (sint totalWeight)))"

text \<open>
  The cached results for a shard together with those of the block, one per miner, the first
  one kept; \<open>seen\<close> of the code is the set of addresses in the vector. The record built for a
  transaction of the block has only the three fields the majority reads.
\<close>

definition block_shard_results :: "CTransaction list \<Rightarrow> string \<Rightarrow> u32 \<Rightarrow> ShardResultSubmission list \<Rightarrow> ShardResultSubmission list" where
  "block_shard_results vtx requestId shardIndex subs =
     fold (\<lambda>tx subs.
        if nVersion tx = OPOI_TX_VERSION \<and> nType tx = OPOI_SHARD_RESULT_TX_TYPE \<and>
           opoiRequestId tx = requestId \<and> opoiShardIndex tx = shardIndex
        then push_once sr_minerAddress subs
               \<lparr>sr_minerAddress = opoiMinerAddress tx, sr_boundaryOutputHash = opoiResponseHash tx,
                sr_routerLogitsHash = uint256_zero, sr_tokenCount = opoiTokenCount tx,
                sr_blockHeight = 0, sr_txHash = uint256_zero\<rparr>
        else subs) (tl vtx) subs"

definition touched :: "CTransaction list \<Rightarrow> (string \<times> u32) list" where
  "touched vtx = sort (remdups (map (\<lambda>tx. (opoiRequestId tx, opoiShardIndex tx))
     (filter (\<lambda>tx. nVersion tx = OPOI_TX_VERSION \<and> nType tx = OPOI_SHARD_RESULT_TX_TYPE) (tl vtx))))"

definition shard_payments :: "OPoICache \<Rightarrow> Params \<Rightarrow> CTransaction list \<Rightarrow> string \<times> u32 \<Rightarrow> OPoIShardPayment list" where
  "shard_payments c params vtx key =
     (let (requestId, shardIndex) = key
      in if IsShardPaid c requestId shardIndex then []
         else case GetRequest c requestId of
           None \<Rightarrow> []
         | Some req \<Rightarrow>
             if rq_payment req \<le> 0 then []
             else case ComputeShardMajority
                         (block_shard_results vtx requestId shardIndex (ListShardResults c requestId shardIndex))
                         (GetEffectiveShardMinSubmissions c req shardIndex params) of
               None \<Rightarrow> []
             | Some (majorityHash, majorityTokenCount, agreeing, divergent) \<Rightarrow>
                 if agreeing = [] then []
                 else case shard_share c params req shardIndex of
                   None \<Rightarrow> []
                 | Some shardShare \<Rightarrow>
                     if shardShare \<le> 0 then []
                     else let perMiner = cdiv (with_token_fee shardShare (rq_feePerToken req) majorityTokenCount)
                                           (int (length agreeing))
                          in if perMiner \<le> 0 then []
                             else map (\<lambda>addr. \<lparr>sp_requestId = requestId, sp_shardIndex = shardIndex,
                                              sp_minerAddress = addr, sp_amount = perMiner\<rparr>) agreeing)"

definition GetShardPaymentsForBlock :: "OPoICache \<Rightarrow> CTransaction list \<Rightarrow> Params \<Rightarrow> OPoIShardPayment list" where
  "GetShardPaymentsForBlock c vtx params = concat (map (shard_payments c params vtx) (touched vtx))"

definition ProcessShardPayments :: "CTransaction list \<Rightarrow> Params \<Rightarrow> OPoICache \<Rightarrow> OPoICache" where
  "ProcessShardPayments vtx params c =
     fold (\<lambda>p. MarkShardPaid (sp_requestId p) (sp_shardIndex p)) (GetShardPaymentsForBlock c vtx params) c"

text \<open>
  The cached verdicts on a response together with the \<^verbatim>\<open>AUDITOR_VERIFY\<close> transactions of the
  block for the same request, whatever their shard index.
\<close>

definition block_votes :: "CTransaction list \<Rightarrow> string \<Rightarrow> AuditorVerification list \<Rightarrow> AuditorVerification list" where
  "block_votes vtx requestId verifs =
     fold (\<lambda>tx verifs.
        if nVersion tx = OPOI_TX_VERSION \<and> nType tx = OPOI_AUDITOR_VERIFY_TX_TYPE \<and> opoiRequestId tx = requestId
        then push_once av_auditorAddress verifs
               \<lparr>av_requestId = [], av_auditorAddress = opoiAuditorAddress tx,
                av_result = opoiAuditorVerifyResult tx, av_auditorCollateral = COutPoint_null,
                av_blockHeight = 0, av_txHash = uint256_zero, av_status = AS_PENDING,
                av_shardIndex = OPOI_AUDITOR_VERIFY_NO_SHARD\<rparr>
        else verifs) (tl vtx) verifs"

definition response_payment :: "OPoIRequest \<Rightarrow> OPoIResponse \<Rightarrow> OPoIResponsePayment" where
  "response_payment req resp =
     \<lparr>rp_requestId = rs_requestId resp, rp_minerAddress = rs_minerAddress resp,
      rp_amount = with_token_fee (rq_payment req) (rq_feePerToken req) (rs_tokenCount resp)\<rparr>"

definition verifiable_payment :: "OPoICache \<Rightarrow> CTransaction list \<Rightarrow> Params \<Rightarrow> OPoIResponse \<Rightarrow> OPoIResponsePayment option" where
  "verifiable_payment c vtx params resp =
     (if IsResponsePaid c (rs_requestId resp) then None
      else case GetRequest c (rs_requestId resp) of
        None \<Rightarrow> None
      | Some req \<Rightarrow>
          if \<not> rq_IsVerifiable req \<or> rq_payment req \<le> 0 then None
          else if ComputeAuditorMajority (block_votes vtx (rs_requestId resp)
                    (GetAuditorVerifications c (rs_requestId resp))) (nOPoIMinAuditors params) \<noteq> uint AUDITOR_VERIFY_PASS
          then None
          else Some (response_payment req resp))"

definition GetVerifiablePaymentsForBlock :: "OPoICache \<Rightarrow> CTransaction list \<Rightarrow> Params \<Rightarrow> OPoIResponsePayment list" where
  "GetVerifiablePaymentsForBlock c vtx params = List.map_filter (verifiable_payment c vtx params) (ListResponses c)"

definition ProcessVerifiableResponsePayments :: "CTransaction list \<Rightarrow> Params \<Rightarrow> OPoICache \<Rightarrow> OPoICache" where
  "ProcessVerifiableResponsePayments vtx params c =
     fold (\<lambda>p. MarkResponsePaid (rp_requestId p)) (GetVerifiablePaymentsForBlock c vtx params) c"

definition sampled_payment ::
  "OPoICache \<Rightarrow> CTransaction list \<Rightarrow> u32 \<Rightarrow> Params \<Rightarrow> OPoIResponse \<Rightarrow> OPoIResponsePayment option" where
  "sampled_payment c vtx currentHeight params resp =
     (if rs_auditSelected resp = 0 then None
      else if IsResponsePaid c (rs_requestId resp) then None
      else case GetRequest c (rs_requestId resp) of
        None \<Rightarrow> None
      | Some req \<Rightarrow>
          if rq_IsVerifiable req \<or> rq_payment req \<le> 0 then None
          else let majority = ComputeAuditorMajority (block_votes vtx (rs_requestId resp)
                                (GetAuditorVerifications c (rs_requestId resp))) (nOPoIMinAuditors params);
                   payNow = (if majority = uint AUDITOR_VERIFY_PASS then True
                             else if majority < 0 \<and> 0 < rs_auditDeadline resp \<and> rs_auditDeadline resp < currentHeight
                             then True else False)
               in if \<not> payNow then None else Some (response_payment req resp))"

definition GetAuditSampledOpenPaymentsForBlock ::
  "OPoICache \<Rightarrow> CTransaction list \<Rightarrow> u32 \<Rightarrow> Params \<Rightarrow> OPoIResponsePayment list" where
  "GetAuditSampledOpenPaymentsForBlock c vtx currentHeight params =
     List.map_filter (sampled_payment c vtx currentHeight params) (ListResponses c)"

definition ProcessAuditSampledOpenResponsePayments ::
  "CTransaction list \<Rightarrow> u32 \<Rightarrow> Params \<Rightarrow> OPoICache \<Rightarrow> OPoICache" where
  "ProcessAuditSampledOpenResponsePayments vtx currentHeight params c =
     fold (\<lambda>p. MarkResponsePaid (rp_requestId p)) (GetAuditSampledOpenPaymentsForBlock c vtx currentHeight params) c"


section \<open>Challenger rewards\<close>

definition try_reward :: "OPoICache \<Rightarrow> Params \<Rightarrow> string \<Rightarrow> address \<Rightarrow> OPoIChallengerReward list" where
  "try_reward c params requestId challengerAddress =
     (if IsChallengerRewardPaid c requestId then []
      else case sm_find (mapResponses c) requestId of
        None \<Rightarrow> []
      | Some resp \<Rightarrow> (case sm_find (mapStakes c) (rs_minerAddress resp) of
          None \<Rightarrow> []
        | Some s \<Rightarrow>
            let reward = cdiv (wrap64 (st_amount s * nOPoIChallengerRewardPct params)) 100;
                treasuryReward = cdiv (wrap64 (st_amount s * nOPoITreasuryRewardPct params)) 100
            in if reward \<le> 0 \<and> treasuryReward \<le> 0 then []
               else [\<lparr>cr_challengerAddress = challengerAddress, cr_rewardAmount = reward,
                      cr_requestId = requestId, cr_treasuryAmount = treasuryReward\<rparr>]))"

definition reveal_reward :: "OPoICache \<Rightarrow> Params \<Rightarrow> CTransaction \<Rightarrow> OPoIChallengerReward list" where
  "reveal_reward c params tx =
     (if nVersion tx \<noteq> OPOI_TX_VERSION \<or> nType tx \<noteq> OPOI_CHALLENGE_TX_TYPE then []
      else if opoiChallengePhase tx \<noteq> 1 then []
      else case GetChallenge c (opoiRequestId tx) of
        None \<Rightarrow> []
      | Some ch \<Rightarrow>
          if ch_challengeStatus ch \<noteq> CH_OPEN then []
          else case GetRequest c (opoiRequestId tx) of
            None \<Rightarrow> []
          | Some req \<Rightarrow>
              if \<not> rq_IsVerifiable req then []
              else if GetAuditorMajorityResult c (opoiRequestId tx) (nOPoIMinAuditors params) \<noteq> uint AUDITOR_VERIFY_FAIL
              then []
              else try_reward c params (opoiRequestId tx) (opoiRequester tx))"

definition GetChallengerRewardsAtHeight :: "OPoICache \<Rightarrow> CTransaction list \<Rightarrow> Params \<Rightarrow> OPoIChallengerReward list" where
  "GetChallengerRewardsAtHeight c vtx params =
     (if nOPoIChallengerRewardPct params \<le> 0 \<and> nOPoITreasuryRewardPct params \<le> 0 then []
      else concat (map (\<lambda>(_, ch). if ch_challengeStatus ch = CH_SLASHED
                          then try_reward c params (ch_requestId ch) (ch_challengerAddress ch) else [])
             (mapChallenges c))
           @ concat (map (reveal_reward c params) (tl vtx)))"

definition ProcessChallengerRewardPayments :: "CTransaction list \<Rightarrow> Params \<Rightarrow> OPoICache \<Rightarrow> OPoICache" where
  "ProcessChallengerRewardPayments vtx params c =
     fold (\<lambda>r. MarkChallengerRewardPaid (cr_requestId r)) (GetChallengerRewardsAtHeight c vtx params) c"

section \<open>The check of the coinbase\<close>

text \<open>\<^verbatim>\<open>findAndClaimOutput\<close>: the first output not claimed yet with this script and value.\<close>

fun claim_output :: "CTxOut list \<Rightarrow> bool list \<Rightarrow> bytes \<Rightarrow> int \<Rightarrow> bool list option" where
  "claim_output (out # outs) (used # outUsed) script amount =
     (if \<not> used \<and> scriptPubKey out = script \<and> nValue out = amount then Some (True # outUsed)
      else map_option (Cons used) (claim_output outs outUsed script amount))"
| "claim_output _ _ script amount = None"

fun check_pass ::
  "opoi_env \<Rightarrow> CTxOut list \<Rightarrow> int \<Rightarrow> string \<times> string \<Rightarrow> (address \<times> int) list \<Rightarrow> bool list \<times> int \<Rightarrow>
   reject + bool list \<times> int" where
  "check_pass e outs budget reasons [] state = Inr state"
| "check_pass e outs budget reasons ((addr, amount) # pays) (outUsed, paid) =
     (if budget < wrap64 (paid + amount) then check_pass e outs budget reasons pays (outUsed, paid)
      else case script_for e addr of
        None \<Rightarrow> Inl (DoS 100 (fst reasons))
      | Some script \<Rightarrow>
          (case claim_output outs outUsed script amount of
             None \<Rightarrow> Inl (DoS 100 (snd reasons))
           | Some outUsed' \<Rightarrow> check_pass e outs budget reasons pays (outUsed', wrap64 (paid + amount))))"

definition reveal_payment :: "opoi_env \<Rightarrow> OPoICache \<Rightarrow> int \<Rightarrow> Params \<Rightarrow> CTransaction \<Rightarrow> (address \<times> int) option" where
  "reveal_payment e c nHeight params tx =
     (if nVersion tx \<noteq> OPOI_TX_VERSION \<or> nType tx \<noteq> OPOI_RESPONSE_TX_TYPE then None
      else if opoiResponsePhase tx \<noteq> 1 then None
      else case GetRequest c (opoiRequestId tx) of
        None \<Rightarrow> None
      | Some req \<Rightarrow>
          if rq_payment req \<le> 0 then None
          else if rq_IsVerifiable req then None
          else if fst (snd (EvaluateOPoIAuditSample e c (opoiRequestId tx) (opoiMinerAddress tx) (word_of_int nHeight) params))
          then None
          else Some (opoiMinerAddress tx, with_token_fee (rq_payment req) (rq_feePerToken req) (opoiTokenCount tx)))"

text \<open>\<^verbatim>\<open>std::map<std::string, CAmount> aggregated\<close>, iterated in key order.\<close>

definition aggregated :: "OPoIShardPayment list \<Rightarrow> (address, int) smap" where
  "aggregated ps = foldl (\<lambda>m p. sm_put (sp_minerAddress p)
      (wrap64 ((case sm_find m (sp_minerAddress p) of None \<Rightarrow> 0 | Some a \<Rightarrow> a) + sp_amount p)) m) [] ps"

text \<open>The payments of the four kinds, in the order in which both functions go through them.\<close>

definition block_payments ::
  "opoi_env \<Rightarrow> OPoICache \<Rightarrow> CTransaction list \<Rightarrow> int \<Rightarrow> Params \<Rightarrow> ((string \<times> string) \<times> (address \<times> int) list) list" where
  "block_payments e c vtx nHeight params =
     [((''bad-cb-opoi-invalid-miner-addr'', ''bad-cb-opoi-missing-payment''),
         List.map_filter (reveal_payment e c nHeight params) (tl vtx)),
      ((''bad-cb-opoi-invalid-shard-miner-addr'', ''bad-cb-opoi-missing-shard-payment''),
         aggregated (GetShardPaymentsForBlock c vtx params)),
      ((''bad-cb-opoi-invalid-verifiable-miner-addr'', ''bad-cb-opoi-missing-verifiable-payment''),
         map (\<lambda>p. (rp_minerAddress p, rp_amount p)) (GetVerifiablePaymentsForBlock c vtx params)),
      ((''bad-cb-opoi-invalid-audit-sample-miner-addr'', ''bad-cb-opoi-missing-audit-sample-payment''),
         map (\<lambda>p. (rp_minerAddress p, rp_amount p))
           (GetAuditSampledOpenPaymentsForBlock c vtx (word_of_int nHeight) params))]"

fun check_passes ::
  "opoi_env \<Rightarrow> CTxOut list \<Rightarrow> int \<Rightarrow> ((string \<times> string) \<times> (address \<times> int) list) list \<Rightarrow> bool list \<times> int \<Rightarrow>
   reject option" where
  "check_passes e outs budget [] state = None"
| "check_passes e outs budget ((reasons, pays) # passes) state =
     (case check_pass e outs budget reasons pays state of
        Inl r \<Rightarrow> Some r | Inr state' \<Rightarrow> check_passes e outs budget passes state')"

definition CheckOPoIPayments :: "opoi_env \<Rightarrow> OPoICache \<Rightarrow> CTransaction list \<Rightarrow> int \<Rightarrow> Params \<Rightarrow> reject option" where
  "CheckOPoIPayments e c vtx nHeight params =
     (case vtx of
        [] \<Rightarrow> None
      | coinbase # _ \<Rightarrow>
          (case GetBlockSubsidy nHeight params of
             None \<Rightarrow> Some Abort
           | Some blockSubsidy \<Rightarrow>
               check_passes e (vout coinbase) (opoi_budget blockSubsidy) (block_payments e c vtx nHeight params)
                 (replicate (length (vout coinbase)) False, 0)))"

section \<open>The outputs \<^verbatim>\<open>CreateNewBlock\<close> adds\<close>

fun build_pass ::
  "opoi_env \<Rightarrow> int \<Rightarrow> int \<Rightarrow> (address \<times> int) list \<Rightarrow> CTxOut list \<times> int \<Rightarrow> CTxOut list \<times> int" where
  "build_pass e budget vout0 [] state = state"
| "build_pass e budget vout0 ((addr, amount) # pays) (outs, paid) =
     (case script_for e addr of
        None \<Rightarrow> build_pass e budget vout0 pays (outs, paid)
      | Some script \<Rightarrow>
          if budget < wrap64 (paid + amount) then build_pass e budget vout0 pays (outs, paid)
          else if vout0 < wrap64 (paid + amount) then build_pass e budget vout0 pays (outs, paid)
          else build_pass e budget vout0 pays
                 (outs @ [\<lparr>nValue = amount, scriptPubKey = script\<rparr>], wrap64 (paid + amount)))"

fun reward_pass :: "opoi_env \<Rightarrow> int \<Rightarrow> OPoIChallengerReward list \<Rightarrow> CTxOut list \<times> int \<Rightarrow> CTxOut list \<times> int" where
  "reward_pass e vout0 [] state = state"
| "reward_pass e vout0 (r # rs) (outs, paid) =
     (if vout0 < wrap64 (paid + cr_rewardAmount r) then reward_pass e vout0 rs (outs, paid)
      else case script_for e (cr_challengerAddress r) of
        None \<Rightarrow> reward_pass e vout0 rs (outs, paid)
      | Some script \<Rightarrow> reward_pass e vout0 rs
          (outs @ [\<lparr>nValue = cr_rewardAmount r, scriptPubKey = script\<rparr>], wrap64 (paid + cr_rewardAmount r)))"

definition NetworkUpgradeActive_OPOI :: "int \<Rightarrow> Params \<Rightarrow> bool" where
  "NetworkUpgradeActive_OPOI nHeight params \<longleftrightarrow>
     UPGRADE_OPOI_height params \<noteq> -1 \<and> UPGRADE_OPOI_height params \<le> nHeight"

text \<open>
  The OPoI part of the coinbase. The first output is the miner's own (\<open>vout0\<close> is its value),
  \<open>outs\<close> are the others, after the fund outputs were added. The result has the outputs again.
\<close>

definition total_treasury :: "OPoIChallengerReward list \<Rightarrow> int" where
  "total_treasury rewards = foldl (\<lambda>t r. wrap64 (t + cr_treasuryAmount r)) 0 rewards"

definition CreateNewBlock_opoi ::
  "opoi_env \<Rightarrow> OPoICache \<Rightarrow> CTransaction list \<Rightarrow> int \<Rightarrow> Params \<Rightarrow> int \<times> CTxOut list \<Rightarrow> (int \<times> CTxOut list) option" where
  "CreateNewBlock_opoi e c vtx nHeight params state =
     (let (vout0, outs) = state
      in if \<not> NetworkUpgradeActive_OPOI nHeight params then Some state
         else case GetBlockSubsidy nHeight params of
           None \<Rightarrow> None
         | Some blockSubsidy \<Rightarrow>
             let (outs1, paid) = fold (\<lambda>(_, pays). build_pass e (opoi_budget blockSubsidy) vout0 pays)
                                   (block_payments e c vtx nHeight params) (outs, 0);
                 vout1 = wrap64 (vout0 - paid);
                 rewards = GetChallengerRewardsAtHeight c vtx params;
                 (outs2, rewarded) = reward_pass e vout1 rewards (outs1, 0);
                 vout2 = wrap64 (vout1 - rewarded);
                 treasury = total_treasury rewards
             in if 0 < treasury \<and> treasury \<le> vout2 then
                  (case script_for e (treasury_address e) of
                     None \<Rightarrow> Some (vout2, outs2)
                   | Some script \<Rightarrow>
                       Some (wrap64 (vout2 - treasury), outs2 @ [\<lparr>nValue = treasury, scriptPubKey = script\<rparr>]))
                else Some (vout2, outs2))"

section \<open>The check of the rewards\<close>

definition has_output :: "CTxOut list \<Rightarrow> bytes \<Rightarrow> int \<Rightarrow> bool" where
  "has_output outs script amount = list_ex (\<lambda>out. scriptPubKey out = script \<and> nValue out = amount) outs"

fun check_rewards ::
  "opoi_env \<Rightarrow> CTxOut list \<Rightarrow> int \<Rightarrow> OPoIChallengerReward list \<Rightarrow> int \<Rightarrow> reject + int" where
  "check_rewards e outs totalCoinbaseValue [] checked = Inr checked"
| "check_rewards e outs totalCoinbaseValue (r # rs) checked =
     (if totalCoinbaseValue < wrap64 (checked + cr_rewardAmount r) then check_rewards e outs totalCoinbaseValue rs checked
      else case script_for e (cr_challengerAddress r) of
        None \<Rightarrow> Inl (DoS 100 ''bad-cb-opoi-invalid-challenger-addr'')
      | Some script \<Rightarrow>
          if \<not> has_output outs script (cr_rewardAmount r) then Inl (DoS 100 ''bad-cb-opoi-missing-challenger-reward'')
          else check_rewards e outs totalCoinbaseValue rs (wrap64 (checked + cr_rewardAmount r)))"

definition CheckOPoIChallengerRewards :: "opoi_env \<Rightarrow> OPoICache \<Rightarrow> CTransaction list \<Rightarrow> Params \<Rightarrow> reject option" where
  "CheckOPoIChallengerRewards e c vtx params =
     (case vtx of
        [] \<Rightarrow> None
      | coinbase # _ \<Rightarrow>
          let outs = vout coinbase;
              totalCoinbaseValue = foldl (\<lambda>t out. wrap64 (t + nValue out)) 0 outs;
              rewards = GetChallengerRewardsAtHeight c vtx params;
              treasury = total_treasury rewards
          in case check_rewards e outs totalCoinbaseValue rewards 0 of
               Inl r \<Rightarrow> Some r
             | Inr checkedTotal \<Rightarrow>
                 if treasury \<le> 0 then None
                 else if totalCoinbaseValue < wrap64 (checkedTotal + treasury) then None
                 else case script_for e (treasury_address e) of
                   None \<Rightarrow> Some (DoS 100 ''bad-cb-opoi-invalid-treasury-addr'')
                 | Some script \<Rightarrow>
                     if has_output outs script treasury then None
                     else Some (DoS 100 ''bad-cb-opoi-missing-treasury-reward''))"

section \<open>Resolution of the auditors' votes\<close>

text \<open>The votes of one dispute: those with the majority get their collateral back, the others are burned.\<close>

definition settle_votes :: "int \<Rightarrow> AuditorVerification list \<Rightarrow> OPoICache \<Rightarrow> OPoICache" where
  "settle_votes majority verifs c =
     fold (\<lambda>fv c. if uint (av_result fv) = majority then UnlockUTXO (av_auditorCollateral fv) c else c) verifs c"

definition settled_vote :: "int \<Rightarrow> AuditorVerification \<Rightarrow> AuditorVerification" where
  "settled_vote majority fv = fv\<lparr>av_status := (if uint (av_result fv) = majority then AS_COMPLETE else AS_SLASHED)\<rparr>"

definition strike_canary :: "OPoIStake \<Rightarrow> OPoIStake" where
  "strike_canary s =
     (let s1 = s\<lparr>st_canaryStrikes := st_canaryStrikes s + 1, st_canaryObligationDeadline := 0\<rparr>
      in if OPOI_MAX_CANARY_STRIKES \<le> st_canaryStrikes s1 \<and> st_IsActive s1
         then s1\<lparr>st_stakeStatus := ST_SUSPENDED\<rparr> else s1)"

definition clear_obligation :: "OPoIStake \<Rightarrow> OPoIStake" where
  "clear_obligation s = (if HasCanaryObligation s then s\<lparr>st_canaryObligationDeadline := 0\<rparr> else s)"

text \<open>What a canary request's verdict does to the stake of the miner who answered it.\<close>

definition canary_verdict :: "string \<Rightarrow> int \<Rightarrow> OPoICache \<Rightarrow> OPoICache" where
  "canary_verdict requestId majority c =
     (case GetRequest c requestId of
        None \<Rightarrow> c
      | Some req \<Rightarrow>
          if rq_isCanary req = 0 then c
          else case sm_find (mapResponses c) requestId of
            None \<Rightarrow> c
          | Some resp \<Rightarrow>
              if majority = uint AUDITOR_VERIFY_FAIL then
                c\<lparr>mapStakes := sm_modify (rs_minerAddress resp) strike_canary (mapStakes c)\<rparr>
              else if majority = uint AUDITOR_VERIFY_PASS then
                c\<lparr>mapStakes := sm_modify (rs_minerAddress resp) clear_obligation (mapStakes c)\<rparr>
              else c)"

definition resolve_request :: "Params \<Rightarrow> string \<Rightarrow> OPoICache \<Rightarrow> OPoICache" where
  "resolve_request params requestId c =
     (if IsAuditorResolved c requestId then c
      else let majority = GetAuditorMajorityResult c requestId (nOPoIMinAuditors params)
           in if majority < 0 then c
              else let verifs = GetAuditorVerifications c requestId;
                       c1 = settle_votes majority verifs c;
                       c2 = c1\<lparr>mapAuditorVerifications :=
                              sm_modify requestId (map (settled_vote majority)) (mapAuditorVerifications c1)\<rparr>
                   in canary_verdict requestId majority (MarkAuditorResolved requestId c2))"

definition resolve_shard :: "Params \<Rightarrow> string \<Rightarrow> OPoICache \<Rightarrow> OPoICache" where
  "resolve_shard params key c =
     (case vec_at (mapShardAuditorVerifications c) key of
        [] \<Rightarrow> c
      | front # rest \<Rightarrow>
          if IsShardAuditorResolved c (av_requestId front) (av_shardIndex front) then c
          else let verifs = front # rest;
                   majority = ComputeAuditorMajority verifs (nOPoIMinAuditors params)
               in if majority < 0 then c
                  else let c1 = settle_votes majority verifs c
                       in MarkShardAuditorResolved (av_requestId front) (av_shardIndex front)
                            (c1\<lparr>mapShardAuditorVerifications :=
                               sm_modify key (map (settled_vote majority)) (mapShardAuditorVerifications c1)\<rparr>))"

definition ProcessAuditorVerifications :: "Params \<Rightarrow> OPoICache \<Rightarrow> OPoICache" where
  "ProcessAuditorVerifications params c =
     (let c1 = fold (resolve_request params) (sm_keys (mapAuditorVerifications c)) c
      in fold (resolve_shard params) (sm_keys (mapShardAuditorVerifications c1)) c1)"

section \<open>The invariant\<close>

lemma inv_settle_votes: "cache_inv c \<Longrightarrow> cache_inv (settle_votes majority verifs c)"
  unfolding settle_votes_def by (rule fold_invariant) (simp_all add: inv_UnlockUTXO)

lemma settled_vote_ok:
  "verifs_ok k vs \<Longrightarrow> verifs_ok k (map (settled_vote majority) vs)"
  "shard_verifs_ok k vs \<Longrightarrow> shard_verifs_ok k (map (settled_vote majority) vs)"
  by (simp_all add: verifs_ok_def shard_verifs_ok_def settled_vote_def IsShardScoped_def comp_def)

lemma inv_set_verifs:
  "cache_inv c \<Longrightarrow> cache_inv (c\<lparr>mapAuditorVerifications :=
     sm_modify k (map (settled_vote majority)) (mapAuditorVerifications c)\<rparr>)"
  "cache_inv c \<Longrightarrow> cache_inv (c\<lparr>mapShardAuditorVerifications :=
     sm_modify k (map (settled_vote majority)) (mapShardAuditorVerifications c)\<rparr>)"
  by (simp_all add: cache_inv_def wf_modify settled_vote_ok)

lemma inv_canary_verdict: "cache_inv c \<Longrightarrow> cache_inv (canary_verdict r majority c)"
  by (auto simp: canary_verdict_def strike_canary_def clear_obligation_def Let_def split: option.splits
      intro!: inv_modify_stake)

lemma inv_resolve_request: "cache_inv c \<Longrightarrow> cache_inv (resolve_request params r c)"
  by (simp add: resolve_request_def Let_def inv_canary_verdict inv_registers inv_set_verifs inv_settle_votes)

lemma inv_resolve_shard: "cache_inv c \<Longrightarrow> cache_inv (resolve_shard params r c)"
  by (simp add: resolve_shard_def Let_def inv_registers inv_set_verifs inv_settle_votes split: list.splits)

lemma inv_ProcessAuditorVerifications: "cache_inv c \<Longrightarrow> cache_inv (ProcessAuditorVerifications params c)"
  unfolding ProcessAuditorVerifications_def Let_def
  by (intro fold_invariant [where P = cache_inv] inv_resolve_request inv_resolve_shard)

lemma inv_payments:
  "cache_inv c \<Longrightarrow> cache_inv (ProcessShardPayments vtx params c)"
  "cache_inv c \<Longrightarrow> cache_inv (ProcessVerifiableResponsePayments vtx params c)"
  "cache_inv c \<Longrightarrow> cache_inv (ProcessAuditSampledOpenResponsePayments vtx h params c)"
  "cache_inv c \<Longrightarrow> cache_inv (ProcessChallengerRewardPayments vtx params c)"
  unfolding ProcessShardPayments_def ProcessVerifiableResponsePayments_def
    ProcessAuditSampledOpenResponsePayments_def ProcessChallengerRewardPayments_def
  by (rule fold_invariant; simp add: inv_registers)+

section \<open>Acceptance of the coinbase\<close>

text \<open>The payments that fit the budget, taken in order; the others are skipped.\<close>

fun due :: "int \<Rightarrow> (address \<times> int) list \<Rightarrow> int \<Rightarrow> (address \<times> int) list" where
  "due budget [] paid = []"
| "due budget ((addr, amount) # pays) paid =
     (if budget < wrap64 (paid + amount) then due budget pays paid
      else (addr, amount) # due budget pays (wrap64 (paid + amount)))"

definition due_total :: "int \<Rightarrow> (address \<times> int) list \<Rightarrow> int \<Rightarrow> int" where
  "due_total budget pays paid = foldl (\<lambda>t p. wrap64 (t + snd p)) paid (due budget pays paid)"

definition out_key :: "CTxOut \<Rightarrow> bytes \<times> int" where
  "out_key out = (scriptPubKey out, nValue out)"

definition owed :: "opoi_env \<Rightarrow> address \<times> int \<Rightarrow> bytes \<times> int" where
  "owed e p = (the (script_for e (fst p)), snd p)"

definition free_outputs :: "CTxOut list \<Rightarrow> bool list \<Rightarrow> (bytes \<times> int) multiset" where
  "free_outputs outs used = mset (map (\<lambda>(out, u). out_key out) (filter (\<lambda>(out, u). \<not> u) (zip outs used)))"

lemma free_outputs_Cons: "free_outputs (out # outs) (u # used) = (if u then {#} else {#out_key out#}) + free_outputs outs used"
  by (simp add: free_outputs_def)

lemma free_outputs_start: "free_outputs outs (replicate (length outs) False) = mset (map out_key outs)"
proof (induction outs)
  case (Cons out outs)
  then show ?case by (simp add: free_outputs_Cons)
qed (simp add: free_outputs_def)

lemma claim_output_spec:
  assumes "length used = length outs"
  shows "(claim_output outs used s a = None \<longleftrightarrow> (s, a) \<notin># free_outputs outs used) \<and>
    (\<forall>used'. claim_output outs used s a = Some used' \<longrightarrow>
       length used' = length outs \<and> free_outputs outs used = add_mset (s, a) (free_outputs outs used'))"
  using assms
proof (induction outs used s a rule: claim_output.induct)
  case (1 out outs u used s a)
  then show ?case
    by (auto simp: free_outputs_Cons out_key_def split: if_splits)
qed (auto simp: free_outputs_def)

lemma check_pass_spec:
  assumes "length used = length outs"
  shows "case check_pass e outs budget reasons pays (used, paid) of
     Inl r \<Rightarrow> \<not> ((\<forall>p\<in>set (due budget pays paid). script_for e (fst p) \<noteq> None) \<and>
                mset (map (owed e) (due budget pays paid)) \<subseteq># free_outputs outs used)
   | Inr (used', paid') \<Rightarrow> (\<forall>p\<in>set (due budget pays paid). script_for e (fst p) \<noteq> None) \<and>
       length used' = length outs \<and> paid' = due_total budget pays paid \<and>
       free_outputs outs used = mset (map (owed e) (due budget pays paid)) + free_outputs outs used'"
  using assms
proof (induction budget pays paid arbitrary: used rule: due.induct)
  case (1 budget paid)
  then show ?case by (simp add: due_total_def)
next
  case (2 budget addr amount pays paid)
  show ?case
  proof (cases "budget < wrap64 (paid + amount)")
    case True
    with "2.IH"(1) [OF True "2.prems"] show ?thesis by (simp add: due_total_def split: sum.splits prod.splits)
  next
    case False
    note spec = claim_output_spec [OF "2.prems", of "the (script_for e addr)" amount]
    show ?thesis
    proof (cases "script_for e addr")
      case None
      with False show ?thesis by simp
    next
      case (Some script)
      show ?thesis
      proof (cases "claim_output outs used script amount")
        case None
        with spec Some False have "(script, amount) \<notin># free_outputs outs used" by simp
        then have "\<not> add_mset (script, amount) M \<subseteq># free_outputs outs used" for M
          by (meson in_diff_count insert_subset_eq_iff)
        with None Some False show ?thesis by (simp add: owed_def)
      next
        case used': (Some used')
        with spec Some have "length used' = length outs"
          and "free_outputs outs used = add_mset (script, amount) (free_outputs outs used')" by auto
        with "2.IH"(2) [OF False \<open>length used' = length outs\<close>] used' Some False show ?thesis
          by (auto simp: owed_def due_total_def split: sum.splits)
      qed
    qed
  qed
qed

lemma due_append: "due budget (xs @ ys) paid = due budget xs paid @ due budget ys (due_total budget xs paid)"
  by (induction budget xs paid rule: due.induct) (simp_all add: due_total_def)

lemma due_total_append: "due_total budget (xs @ ys) paid = due_total budget ys (due_total budget xs paid)"
  by (simp add: due_total_def due_append)

lemma check_passes_spec:
  assumes "length used = length outs"
  shows "check_passes e outs budget passes (used, paid) = None \<longleftrightarrow>
    (\<forall>p\<in>set (due budget (concat (map snd passes)) paid). script_for e (fst p) \<noteq> None) \<and>
    mset (map (owed e) (due budget (concat (map snd passes)) paid)) \<subseteq># free_outputs outs used"
  using assms
proof (induction passes arbitrary: used paid)
  case (Cons pass passes)
  obtain reasons pays where pass: "pass = (reasons, pays)" by (cases pass)
  note spec = check_pass_spec [OF Cons.prems, where e = e and budget = budget and reasons = reasons and pays = pays and paid = paid]
  show ?case
  proof (cases "check_pass e outs budget reasons pays (used, paid)")
    case (Inl r)
    with spec pass show ?thesis
      by (auto simp: due_append intro: subset_mset.order_trans dest: mset_subset_eq_add_left [THEN subset_mset.order_trans])
  next
    case (Inr st)
    obtain used' paid' where "st = (used', paid')" by (cases st)
    with Inr spec pass Cons.IH [of used' paid'] show ?thesis
      by (simp add: due_append) blast
  qed
qed simp

lemma due_sum_le:
  assumes "\<forall>p\<in>set pays. 0 \<le> snd p \<and> snd p < 2 ^ 62" "0 \<le> paid" "paid \<le> budget" "budget < 2 ^ 62"
  shows "paid + sum_list (map snd (due budget pays paid)) \<le> budget"
  using assms
proof (induction budget pays paid rule: due.induct)
  case (2 budget addr amount pays paid)
  then have "wrap64 (paid + amount) = paid + amount" by (intro wrap64_id) (auto simp: i64_range_def)
  with 2 show ?case by auto
qed simp

text \<open>
  C1. Exactly when a coinbase pays a block's OPoI debts. Going through the payments owed in
  order and skipping those that no longer fit the budget leaves the payments \<open>due\<close>. The check
  accepts the block if and only if every address due has a script and the coinbase has a
  different output for each payment due: the multiset of (script, amount) pairs due is
  contained in the multiset of the outputs. If no amount overflows, the sum of the payments
  due stays within a tenth of the block subsidy.
\<close>

theorem CheckOPoIPayments_correct:
  assumes "GetBlockSubsidy nHeight params = Some subs"
    and "D = due (opoi_budget subs) (concat (map snd (block_payments e c (coinbase # txs) nHeight params))) 0"
  shows "(CheckOPoIPayments e c (coinbase # txs) nHeight params = None \<longleftrightarrow>
      (\<forall>p\<in>set D. script_for e (fst p) \<noteq> None) \<and> mset (map (owed e) D) \<subseteq># mset (map out_key (vout coinbase))) \<and>
    (0 \<le> subs \<and> subs < 2 ^ 51 \<and>
     (\<forall>p\<in>set (concat (map snd (block_payments e c (coinbase # txs) nHeight params))). 0 \<le> snd p \<and> snd p < 2 ^ 62) \<longrightarrow>
       sum_list (map snd D) \<le> subs div 10)"
proof (intro conjI impI)
  let ?outs = "vout coinbase"
  show "CheckOPoIPayments e c (coinbase # txs) nHeight params = None \<longleftrightarrow>
      (\<forall>p\<in>set D. script_for e (fst p) \<noteq> None) \<and> mset (map (owed e) D) \<subseteq># mset (map out_key ?outs)"
    using check_passes_spec [of "replicate (length ?outs) False" ?outs e "opoi_budget subs"
        "block_payments e c (coinbase # txs) nHeight params" 0] assms
    by (simp add: CheckOPoIPayments_def free_outputs_start)
next
  assume h: "0 \<le> subs \<and> subs < 2 ^ 51 \<and>
     (\<forall>p\<in>set (concat (map snd (block_payments e c (coinbase # txs) nHeight params))). 0 \<le> snd p \<and> snd p < 2 ^ 62)"
  then have "opoi_budget subs = subs div 10" "0 \<le> subs div 10" "subs div 10 < 2 ^ 62"
    by (auto intro: opoi_budget_tenth simp: pos_imp_zdiv_nonneg_iff)
  with h due_sum_le [of "concat (map snd (block_payments e c (coinbase # txs) nHeight params))" 0 "opoi_budget subs"] assms(2)
  show "sum_list (map snd D) \<le> subs div 10" by simp
qed

text \<open>The payments of a block do not depend on its coinbase.\<close>

lemma results_coinbase:
  "block_shard_results (x # txs) = block_shard_results (y # txs)" "block_votes (x # txs) = block_votes (y # txs)"
  "touched (x # txs) = touched (y # txs)"
  by (simp_all add: fun_eq_iff block_shard_results_def block_votes_def touched_def)

lemma block_payments_coinbase: "block_payments e c (x # txs) h params = block_payments e c (y # txs) h params"
proof -
  have "shard_payments c params (x # txs) = shard_payments c params (y # txs)"
    "verifiable_payment c (x # txs) params = verifiable_payment c (y # txs) params"
    "sampled_payment c (x # txs) h' params = sampled_payment c (y # txs) h' params" for h'
    by (simp_all only: fun_eq_iff shard_payments_def verifiable_payment_def sampled_payment_def
        results_coinbase [of x txs y] simp_thms)
  then show ?thesis
    by (simp add: block_payments_def GetShardPaymentsForBlock_def GetVerifiablePaymentsForBlock_def
        GetAuditSampledOpenPaymentsForBlock_def results_coinbase(3) [of x txs y])
qed

text \<open>A block with one revealed response to an open request: 100 plus 7 tokens at 2.\<close>

definition sample_reveal :: CTransaction where
  "sample_reveal = CTransaction_init\<lparr>nVersion := 8, nType := 2, tx_hash := [4], opoiRequestId := ''r'',
     opoiMinerAddress := ''m'', opoiResponsePhase := 1, opoiTokenCount := 7\<rparr>"

definition sample_open :: OPoICache where
  "sample_open = OPoICache_init\<lparr>mapRequests := [(''r'', sample_request)]\<rparr>"

definition sample_coinbase :: "int \<Rightarrow> CTransaction" where
  "sample_coinbase v = CTransaction_init\<lparr>vout := [\<lparr>nValue = v, scriptPubKey = str_bytes ''p''\<rparr>,
     \<lparr>nValue = 114, scriptPubKey = str_bytes ''m''\<rparr>]\<rparr>"

lemma sample_script: "script_for sample_env a = Some (str_bytes a)"
  by (simp add: sample_env_def)

lemma sample_block_payments:
  "concat (map snd (block_payments sample_env sample_open (cb # [sample_reveal]) 300 regtest_params)) = [(''m'', 114)]"
proof -
  have "concat (map snd (block_payments sample_env sample_open (CTransaction_init # [sample_reveal]) 300 regtest_params)) =
      [(''m'', 114)]" by code_simp
  then show ?thesis by (simp only: block_payments_coinbase [of _ _ cb _ _ _ CTransaction_init])
qed

lemma sample_subsidy: "GetBlockSubsidy 300 regtest_params = Some 3750000000" by code_simp

lemma sample_due: "due (opoi_budget 3750000000) [(''m'', 114)] 0 = [(''m'', 114)]"
  by (simp add: opoi_budget_tenth wrap64_def)

theorem CheckOPoIPayments_correct_witness:
  "CheckOPoIPayments sample_env sample_open [sample_coinbase 5, sample_reveal] 300 regtest_params = None"
  using CheckOPoIPayments_correct [OF sample_subsidy refl, of sample_env sample_open "sample_coinbase 5" "[sample_reveal]"]
  by (simp add: sample_block_payments sample_due owed_def sample_script sample_coinbase_def out_key_def)

section \<open>The miner and the validator\<close>

lemma due_subset: "set (due budget pays paid) \<subseteq> set pays"
  by (induction budget pays paid rule: due.induct) auto

lemma build_pass_due:
  assumes "\<forall>p\<in>set pays. script_for e (fst p) \<noteq> None" "budget \<le> vout0"
  shows "build_pass e budget vout0 pays (outs, paid) =
    (outs @ map (\<lambda>p. \<lparr>nValue = snd p, scriptPubKey = the (script_for e (fst p))\<rparr>) (due budget pays paid),
     due_total budget pays paid)"
  using assms
proof (induction budget pays paid arbitrary: outs rule: due.induct)
  case (2 budget addr amount pays paid)
  then show ?case by (auto simp: due_total_def split: option.splits)
qed (simp add: due_total_def)

lemma build_passes_due:
  assumes "\<forall>p\<in>set (concat (map snd passes)). script_for e (fst p) \<noteq> None" "budget \<le> vout0"
  shows "fold (\<lambda>(_, pays). build_pass e budget vout0 pays) passes (outs, paid) =
    (outs @ map (\<lambda>p. \<lparr>nValue = snd p, scriptPubKey = the (script_for e (fst p))\<rparr>)
        (due budget (concat (map snd passes)) paid),
     due_total budget (concat (map snd passes)) paid)"
  using assms
proof (induction passes arbitrary: outs paid)
  case (Cons pass passes)
  then have "build_pass e budget vout0 (snd pass) (outs, paid) =
      (outs @ map (\<lambda>p. \<lparr>nValue = snd p, scriptPubKey = the (script_for e (fst p))\<rparr>) (due budget (snd pass) paid),
       due_total budget (snd pass) paid)"
    by (intro build_pass_due) auto
  with Cons show ?case by (simp add: split_beta due_append due_total_append)
qed (simp add: due_total_def)

lemma reward_pass_extends: "\<exists>more. fst (reward_pass e vout0 rs (outs, paid)) = outs @ more"
proof (induction e vout0 rs "(outs, paid)" arbitrary: outs paid rule: reward_pass.induct)
  case (2 e vout0 r rs outs paid)
  then show ?case by (fastforce split: option.splits)
qed simp

lemma CreateNewBlock_extends:
  assumes "NetworkUpgradeActive_OPOI nHeight params" "GetBlockSubsidy nHeight params = Some subs"
    "CreateNewBlock_opoi e c vtx nHeight params (vout0, outs) = Some (v, outs')"
    "fold (\<lambda>(_, pays). build_pass e (opoi_budget subs) vout0 pays) (block_payments e c vtx nHeight params) (outs, 0) =
       (outs1, paid)"
  shows "\<exists>more. outs' = outs1 @ more"
proof -
  let ?rewards = "GetChallengerRewardsAtHeight c vtx params" and ?v = "wrap64 (vout0 - paid)"
  obtain outs2 rewarded where r: "reward_pass e ?v ?rewards (outs1, 0) = (outs2, rewarded)" by fastforce
  with reward_pass_extends [of e ?v ?rewards outs1 0] obtain more where "outs2 = outs1 @ more" by auto
  with assms r show ?thesis
    by (auto simp: CreateNewBlock_opoi_def Let_def split: if_splits option.splits)
qed

text \<open>
  C4. The block a miner builds passes the check of its payments. If every address owed a
  payment has a script and the miner's own output is at least the OPoI budget, the coinbase
  outputs that \<^verbatim>\<open>CreateNewBlock\<close> adds are accepted by \<^verbatim>\<open>CheckOPoIPayments\<close>, whatever the miner's own
  output becomes and whatever other outputs were there.
\<close>

theorem miner_block_passes:
  assumes "NetworkUpgradeActive_OPOI nHeight params" "GetBlockSubsidy nHeight params = Some subs"
    and "\<forall>p\<in>set (concat (map snd (block_payments e c vtx nHeight params))). script_for e (fst p) \<noteq> None"
    and "opoi_budget subs \<le> vout0"
    and "CreateNewBlock_opoi e c vtx nHeight params (vout0, outs) = Some (v, outs')"
    and "vout coinbase = own # outs'" "vtx = placeholder # txs"
  shows "CheckOPoIPayments e c (coinbase # txs) nHeight params = None"
proof -
  let ?P = "block_payments e c vtx nHeight params"
  let ?D = "due (opoi_budget subs) (concat (map snd ?P)) 0"
  let ?out = "\<lambda>p. \<lparr>nValue = snd p, scriptPubKey = the (script_for e (fst p))\<rparr>"
  have "fold (\<lambda>(_, pays). build_pass e (opoi_budget subs) vout0 pays) ?P (outs, 0) =
      (outs @ map ?out ?D, due_total (opoi_budget subs) (concat (map snd ?P)) 0)"
    by (rule build_passes_due [OF assms(3,4)])
  from CreateNewBlock_extends [OF assms(1,2,5) this] obtain more where "outs' = outs @ map ?out ?D @ more" by auto
  then have "mset (map (owed e) ?D) \<subseteq># mset (map out_key (vout coinbase))"
  proof -
    have keys: "map out_key (map ?out ?D) = map (owed e) ?D" by (simp add: out_key_def owed_def)
    assume "outs' = outs @ map ?out ?D @ more"
    then have "mset (map out_key (vout coinbase)) =
        mset (map (owed e) ?D) + mset (map out_key (own # outs @ more))"
      unfolding assms(6) keys [symmetric] by simp
    then show ?thesis by (metis mset_subset_eq_add_left)
  qed
  moreover have "\<forall>p\<in>set ?D. script_for e (fst p) \<noteq> None"
    using due_subset [of "opoi_budget subs" "concat (map snd ?P)" 0] assms(3) by blast
  ultimately have "check_passes e (vout coinbase) (opoi_budget subs) ?P (replicate (length (vout coinbase)) False, 0) = None"
    by (simp add: check_passes_spec free_outputs_start)
  then show ?thesis
    using assms(2,7) block_payments_coinbase [of e c placeholder txs nHeight params coinbase]
    by (simp add: CheckOPoIPayments_def)
qed


definition sample_own :: "int \<Rightarrow> CTxOut" where
  "sample_own v = \<lparr>nValue = v, scriptPubKey = str_bytes ''p''\<rparr>"

lemma sample_created:
  assumes "375000000 \<le> v0"
  shows "CreateNewBlock_opoi sample_env sample_open [CTransaction_init, sample_reveal] 300 regtest_params (v0, []) =
    Some (wrap64 (wrap64 (v0 - 114)), [\<lparr>nValue = 114, scriptPubKey = str_bytes ''m''\<rparr>])"
proof -
  let ?P = "block_payments sample_env sample_open [CTransaction_init, sample_reveal] 300 regtest_params"
  have "fold (\<lambda>(_, pays). build_pass sample_env (opoi_budget 3750000000) v0 pays) ?P ([], 0) =
      ([\<lparr>nValue = 114, scriptPubKey = str_bytes ''m''\<rparr>], 114)"
    using assms
    by (subst build_passes_due)
      (simp_all add: sample_script sample_block_payments opoi_budget_tenth due_total_def sample_due wrap64_def)
  moreover have "GetChallengerRewardsAtHeight sample_open [CTransaction_init, sample_reveal] regtest_params = []"
    by code_simp
  moreover have "NetworkUpgradeActive_OPOI 300 regtest_params" by code_simp
  ultimately show ?thesis
    by (simp add: CreateNewBlock_opoi_def sample_subsidy total_treasury_def)
qed

theorem miner_block_passes_witness:
  "CheckOPoIPayments sample_env sample_open [CTransaction_init\<lparr>vout := [sample_own 5, \<lparr>nValue = 114, scriptPubKey = str_bytes ''m''\<rparr>]\<rparr>,
     sample_reveal] 300 regtest_params = None"
proof -
  have "NetworkUpgradeActive_OPOI 300 regtest_params" by code_simp
  moreover have "opoi_budget 3750000000 \<le> 400000000" by (simp add: opoi_budget_tenth)
  ultimately show ?thesis
    using miner_block_passes [OF _ sample_subsidy, of sample_env sample_open "[CTransaction_init, sample_reveal]" 400000000 "[]"]
      sample_created [of 400000000]
    by (simp add: sample_block_payments sample_script)
qed


section \<open>Nothing is paid twice\<close>

lemma shard_payment_unpaid:
  "p \<in> set (shard_payments c params vtx key) \<Longrightarrow>
   (sp_requestId p, sp_shardIndex p) = key \<and> \<not> IsShardPaid c (sp_requestId p) (sp_shardIndex p)"
  by (auto simp: shard_payments_def Let_def split: prod.splits if_splits option.splits)

lemma GetShardPayments_unpaid:
  "p \<in> set (GetShardPaymentsForBlock c vtx params) \<Longrightarrow> \<not> IsShardPaid c (sp_requestId p) (sp_shardIndex p)"
  by (auto simp: GetShardPaymentsForBlock_def dest: shard_payment_unpaid)

lemma GetVerifiable_unpaid:
  "p \<in> set (GetVerifiablePaymentsForBlock c vtx params) \<Longrightarrow> \<not> IsResponsePaid c (rp_requestId p)"
  by (auto simp: GetVerifiablePaymentsForBlock_def List.map_filter_def verifiable_payment_def response_payment_def
      split: if_splits option.splits)

lemma GetSampled_unpaid:
  "p \<in> set (GetAuditSampledOpenPaymentsForBlock c vtx h params) \<Longrightarrow> \<not> IsResponsePaid c (rp_requestId p)"
  by (auto simp: GetAuditSampledOpenPaymentsForBlock_def List.map_filter_def sampled_payment_def response_payment_def
      Let_def split: if_splits option.splits)

lemma try_reward_unpaid: "r \<in> set (try_reward c params rid a) \<Longrightarrow> cr_requestId r = rid \<and> \<not> IsChallengerRewardPaid c rid"
  by (auto simp: try_reward_def Let_def split: if_splits option.splits)

lemma GetRewards_unpaid:
  "r \<in> set (GetChallengerRewardsAtHeight c vtx params) \<Longrightarrow> \<not> IsChallengerRewardPaid c (cr_requestId r)"
  by (auto simp: GetChallengerRewardsAtHeight_def reveal_reward_def dest!: try_reward_unpaid
      split: if_splits option.splits)

lemma marked_shards:
  "IsShardPaid (ProcessShardPayments vtx params c) r i \<longleftrightarrow>
   (\<exists>p\<in>set (GetShardPaymentsForBlock c vtx params). sp_requestId p = r \<and> sp_shardIndex p = i) \<or> IsShardPaid c r i"
  using paid_shards.marked_fold [of "map (\<lambda>p. (sp_requestId p, sp_shardIndex p)) (GetShardPaymentsForBlock c vtx params)" c "(r, i)"]
  by (auto simp: ProcessShardPayments_def fold_map comp_def)

lemma marked_verifiable:
  "IsResponsePaid (ProcessVerifiableResponsePayments vtx params c) r \<longleftrightarrow>
   (\<exists>p\<in>set (GetVerifiablePaymentsForBlock c vtx params). rp_requestId p = r) \<or> IsResponsePaid c r"
  using paid_responses.marked_fold [of "map rp_requestId (GetVerifiablePaymentsForBlock c vtx params)" c r]
  by (auto simp: ProcessVerifiableResponsePayments_def fold_map comp_def)

lemma marked_sampled:
  "IsResponsePaid (ProcessAuditSampledOpenResponsePayments vtx h params c) r \<longleftrightarrow>
   (\<exists>p\<in>set (GetAuditSampledOpenPaymentsForBlock c vtx h params). rp_requestId p = r) \<or> IsResponsePaid c r"
  using paid_responses.marked_fold [of "map rp_requestId (GetAuditSampledOpenPaymentsForBlock c vtx h params)" c r]
  by (auto simp: ProcessAuditSampledOpenResponsePayments_def fold_map comp_def)

lemma marked_rewards:
  "IsChallengerRewardPaid (ProcessChallengerRewardPayments vtx params c) r \<longleftrightarrow>
   (\<exists>p\<in>set (GetChallengerRewardsAtHeight c vtx params). cr_requestId p = r) \<or> IsChallengerRewardPaid c r"
  using paid_rewards.marked_fold [of "map cr_requestId (GetChallengerRewardsAtHeight c vtx params)" c r]
  by (auto simp: ProcessChallengerRewardPayments_def fold_map comp_def)

section \<open>Before and after the block is applied\<close>

definition sub_view :: "ShardResultSubmission \<Rightarrow> address \<times> uint256 \<times> u32" where
  "sub_view s = (sr_minerAddress s, sr_boundaryOutputHash s, sr_tokenCount s)"

lemma sub_view_filter:
  assumes "map sub_view xs = map sub_view ys"
  shows "map sr_minerAddress (filter (\<lambda>s. P (sr_boundaryOutputHash s) (sr_tokenCount s)) xs) =
    map sr_minerAddress (filter (\<lambda>s. P (sr_boundaryOutputHash s) (sr_tokenCount s)) ys)"
proof -
  have "map sr_minerAddress (filter (\<lambda>s. P (sr_boundaryOutputHash s) (sr_tokenCount s)) zs) =
      map fst (filter (\<lambda>(_, h, t). P h t) (map sub_view zs))" for zs
    by (induction zs) (auto simp: sub_view_def)
  with assms show ?thesis by simp
qed

lemma ComputeShardMajority_cong:
  assumes eq: "map sub_view xs = map sub_view ys"
  shows "ComputeShardMajority xs m = ComputeShardMajority ys m"
proof -
  have len: "length xs = length ys" using map_eq_imp_length_eq [OF eq] .
  have "map sub_key zs = map snd (map sub_view zs)" for zs
    by (induction zs) (auto simp: sub_view_def sub_key_def)
  then have "map sub_key xs = map sub_key ys" by (simp only: eq)
  moreover have "shard_counts zs = foldl (\<lambda>m k. sm_put k ((case sm_find m k of None \<Rightarrow> 0 | Some n \<Rightarrow> n) + 1) m) []
      (map sub_key zs)" for zs
    by (simp add: shard_counts_def foldl_map)
  ultimately have "shard_counts xs = shard_counts ys" by simp
  with len show ?thesis
    unfolding ComputeShardMajority_def
    by (simp add: sub_view_filter [OF eq, of "\<lambda>h t. h = fst (fst (best_count (shard_counts ys))) \<and> t = snd (fst (best_count (shard_counts ys)))"]
        sub_view_filter [OF eq, of "\<lambda>h t. h = fst (fst (best_count (shard_counts ys))) \<longrightarrow> t \<noteq> snd (fst (best_count (shard_counts ys)))"]
        split_beta Let_def)
qed

lemma Process_frame_shards:
  "\<not> (nVersion tx = OPOI_TX_VERSION \<and> nType tx = OPOI_SHARD_RESULT_TX_TYPE) \<Longrightarrow>
   mapShardResults (ProcessOPoITransaction e p tx h False c) = mapShardResults c"
  by (auto simp: ProcessOPoITransaction_def ApplyOPoITransaction_def frame_simps)

definition tx_submission :: "CTransaction \<Rightarrow> u32 \<Rightarrow> ShardResultSubmission" where
  "tx_submission tx h = \<lparr>sr_minerAddress = opoiMinerAddress tx, sr_boundaryOutputHash = opoiResponseHash tx,
     sr_routerLogitsHash = opoiCommitment tx, sr_tokenCount = opoiTokenCount tx,
     sr_blockHeight = h, sr_txHash = tx_hash tx\<rparr>"

lemma Process_shard_result:
  assumes "nVersion tx = OPOI_TX_VERSION" "nType tx = OPOI_SHARD_RESULT_TX_TYPE"
  shows "ProcessOPoITransaction e p tx h False c = AddShardResult (opoiRequestId tx) (opoiShardIndex tx) (tx_submission tx h) c"
  using assms
  by (simp add: ProcessOPoITransaction_def ApplyOPoITransaction_def apply_shard_result_def tx_submission_def opoi_types)

lemma ListShardResults_Process:
  assumes "cache_inv c"
  shows "ListShardResults (ProcessOPoITransaction e p tx h False c) r i =
    (if nVersion tx = OPOI_TX_VERSION \<and> nType tx = OPOI_SHARD_RESULT_TX_TYPE \<and> opoiRequestId tx = r \<and> opoiShardIndex tx = i
     then push_once sr_minerAddress (ListShardResults c r i) (tx_submission tx h) else ListShardResults c r i)"
proof (cases "nVersion tx = OPOI_TX_VERSION \<and> nType tx = OPOI_SHARD_RESULT_TX_TYPE")
  case True
  with assms show ?thesis
    by (auto simp: Process_shard_result ListShardResults_def AddShardResult_def vec_at_def inv_sm_ok ShardKey_inj)
next
  case False
  then have "ListShardResults (ProcessOPoITransaction e p tx h False c) r i = ListShardResults c r i"
    by (simp add: ListShardResults_def Process_frame_shards)
  with False show ?thesis by auto
qed

lemma push_once_view:
  assumes "map sub_view xs = map sub_view ys" "sub_view a = sub_view b"
  shows "map sub_view (push_once sr_minerAddress xs a) = map sub_view (push_once sr_minerAddress ys b)"
proof -
  have "map sr_minerAddress zs = map fst (map sub_view zs)" for zs
    by (induction zs) (auto simp: sub_view_def)
  then have "map sr_minerAddress xs = map sr_minerAddress ys" by (simp only: assms(1))
  then have "sr_minerAddress ` set xs = sr_minerAddress ` set ys" by (metis list.set_map)
  moreover have "sr_minerAddress a = sr_minerAddress b" using assms(2) by (simp add: sub_view_def)
  ultimately show ?thesis using assms by (simp add: push_once_def list_ex_who)
qed

text \<open>The results the block adds are those its transactions add to the cache.\<close>

lemma merged_results:
  assumes "cache_inv c" "map sub_view subs = map sub_view (ListShardResults c r i)"
  shows "map sub_view (block_shard_results (cb # txs) r i subs) =
    map sub_view (ListShardResults (fold (\<lambda>tx. ProcessOPoITransaction e p tx h False) txs c) r i)"
  using assms
proof (induction txs arbitrary: c subs)
  case (Cons tx txs)
  let ?c = "ProcessOPoITransaction e p tx h False c"
  let ?hit = "nVersion tx = OPOI_TX_VERSION \<and> nType tx = OPOI_SHARD_RESULT_TX_TYPE \<and> opoiRequestId tx = r \<and> opoiShardIndex tx = i"
  let ?sub = "\<lparr>sr_minerAddress = opoiMinerAddress tx, sr_boundaryOutputHash = opoiResponseHash tx,
                sr_routerLogitsHash = uint256_zero, sr_tokenCount = opoiTokenCount tx,
                sr_blockHeight = 0, sr_txHash = uint256_zero\<rparr>"
  have inv: "cache_inv ?c" using Cons.prems(1) by (rule inv_Process)
  have "map sub_view (if ?hit then push_once sr_minerAddress subs ?sub else subs) = map sub_view (ListShardResults ?c r i)"
  proof -
    have "sub_view ?sub = sub_view (tx_submission tx h)" by (simp add: sub_view_def tx_submission_def)
    with push_once_view [OF Cons.prems(2)] Cons.prems show ?thesis by (simp add: ListShardResults_Process)
  qed
  from Cons.IH [OF inv this] show ?case by (simp add: block_shard_results_def)
qed (simp add: block_shard_results_def)

lemma submitted_present:
  assumes "cache_inv c"
    and "opoiMinerAddress tx \<in> sr_minerAddress ` set (ListShardResults c r i) \<or>
      (tx \<in> set txs \<and> nVersion tx = OPOI_TX_VERSION \<and> nType tx = OPOI_SHARD_RESULT_TX_TYPE \<and>
       opoiRequestId tx = r \<and> opoiShardIndex tx = i)"
  shows "opoiMinerAddress tx \<in> sr_minerAddress `
    set (ListShardResults (fold (\<lambda>tx. ProcessOPoITransaction e p tx h False) txs c) r i)"
  using assms
proof (induction txs arbitrary: c)
  case (Cons tx' txs)
  let ?c = "ProcessOPoITransaction e p tx' h False c"
  have "opoiMinerAddress tx \<in> sr_minerAddress ` set (ListShardResults ?c r i) \<or>
      (tx \<in> set txs \<and> nVersion tx = OPOI_TX_VERSION \<and> nType tx = OPOI_SHARD_RESULT_TX_TYPE \<and>
       opoiRequestId tx = r \<and> opoiShardIndex tx = i)"
    using Cons.prems by (auto simp: ListShardResults_Process push_once_def list_ex_iff tx_submission_def split: if_splits)
      (metis image_eqI)
  from Cons.IH [OF inv_Process [OF Cons.prems(1)] this] show ?case by simp
qed simp

lemma merged_again:
  assumes "cache_inv c"
  shows "block_shard_results (cb # txs) r i (ListShardResults (fold (\<lambda>tx. ProcessOPoITransaction e p tx h False) txs c) r i) =
    ListShardResults (fold (\<lambda>tx. ProcessOPoITransaction e p tx h False) txs c) r i"
    (is "block_shard_results _ _ _ ?subs = _")
proof -
  have "fold f xs s = s" if "\<And>x. x \<in> set xs \<Longrightarrow> f x s = s" for f and xs :: "CTransaction list" and s :: "ShardResultSubmission list"
    using that by (induction xs) auto
  moreover have "push_once sr_minerAddress ?subs a = ?subs"
    if "tx \<in> set txs" "nVersion tx = OPOI_TX_VERSION" "nType tx = OPOI_SHARD_RESULT_TX_TYPE" "opoiRequestId tx = r"
      "opoiShardIndex tx = i" "sr_minerAddress a = opoiMinerAddress tx" for tx a
    using submitted_present [OF assms, of tx r i txs e p h] that by (force simp: push_once_def list_ex_iff)
  ultimately show ?thesis unfolding block_shard_results_def list.sel by (simp add: ListShardResults_def)
qed


definition sample_shard_tx :: "address \<Rightarrow> CTransaction" where
  "sample_shard_tx a = CTransaction_init\<lparr>nVersion := 8, nType := 10, opoiRequestId := ''r'', opoiMinerAddress := a,
     opoiResponseHash := [3], opoiTokenCount := 4\<rparr>"

lemma sample_open_inv: "cache_inv sample_open"
  by (simp add: sample_open_def cache_inv_def OPoICache_init_def wf_map_def request_ok_def sm_ok_def sample_request_def
      locks.accounted_def IsLockedUTXO_def split: if_splits)


definition sample_verdict :: "u8 \<Rightarrow> u32 \<Rightarrow> CTransaction" where
  "sample_verdict v shard = CTransaction_init\<lparr>nVersion := 8, nType := 6, tx_hash := [11], opoiRequestId := ''r'',
     opoiAuditorAddress := ''a'', opoiAuditorVerifyResult := v, opoiAuditorCollateralIn := COutPoint [9] 0,
     opoiShardIndex := shard\<rparr>"

definition sample_challenge_reveal :: CTransaction where
  "sample_challenge_reveal = CTransaction_init\<lparr>nVersion := 8, nType := 5, tx_hash := [12], opoiRequestId := ''r'',
     opoiRequester := ''c'', opoiChallengePhase := 1, opoiProofData := [1]\<rparr>"

text \<open>
  A verdict on one shard pays the whole response. The vote of a shard-scoped
  \<^verbatim>\<open>AUDITOR_VERIFY\<close> transaction is kept apart from the votes on the response, whose majority stays
  undecided, but the payment of its block counts it: the response is paid and marked paid.
\<close>

theorem shard_vote_pays_response:
  "let c = (sample_disputed CH_EXPIRED)\<lparr>mapAuditorVerifications := []\<rparr>;
       tx = sample_verdict AUDITOR_VERIFY_PASS 0;
       c' = ProcessOPoITransaction sample_env (Some regtest_params) tx 300 False c;
       vtx = [CTransaction_init, tx]
   in GetVerifiablePaymentsForBlock c vtx regtest_params =
        [\<lparr>rp_requestId = ''r'', rp_minerAddress = ''m'', rp_amount = 114\<rparr>] \<and>
      GetAuditorMajorityResult c' ''r'' (nOPoIMinAuditors regtest_params) = -1 \<and>
      IsResponsePaid (ProcessVerifiableResponsePayments vtx regtest_params c') ''r''"
  by code_simp

text \<open>
  A challenger's reward can be lost. When the verdict that completes the majority and the
  reveal of the challenge are in the same block, the reward is not owed by the cache before
  the block, so the coinbase does not have to pay it; after the block is applied the reward
  counts as owed and is marked paid.
\<close>

theorem challenger_reward_lost:
  "let c = (sample_disputed CH_OPEN)\<lparr>mapAuditorVerifications := []\<rparr>;
       txs = [sample_verdict AUDITOR_VERIFY_FAIL OPOI_AUDITOR_VERIFY_NO_SHARD, sample_challenge_reveal];
       c' = fold (\<lambda>tx. ProcessOPoITransaction sample_env (Some regtest_params) tx 300 False) txs c;
       vtx = CTransaction_init # txs
   in GetChallengerRewardsAtHeight c vtx regtest_params = [] \<and>
      map cr_rewardAmount (GetChallengerRewardsAtHeight c' vtx regtest_params) = [500] \<and>
      IsChallengerRewardPaid (ProcessChallengerRewardPayments vtx regtest_params c') ''r''"
  by code_simp

section \<open>Collateral of the auditors\<close>

text \<open>A loop that releases, for each key, what that key alone says.\<close>

lemma fold_release:
  assumes "distinct ks" "cache_inv s"
    and inv: "\<And>k s. cache_inv s \<Longrightarrow> cache_inv (step k s)"
    and L: "\<And>k s. cache_inv s \<Longrightarrow> L (step k s) \<longleftrightarrow> L s \<and> \<not> rel k s"
    and local: "\<And>k j s. cache_inv s \<Longrightarrow> k \<noteq> j \<Longrightarrow> rel j (step k s) \<longleftrightarrow> rel j s"
  shows "L (fold step ks s) \<longleftrightarrow> L s \<and> (\<forall>k\<in>set ks. \<not> rel k s)"
  using assms(1,2)
proof (induction ks arbitrary: s)
  case (Cons k ks)
  then have "L (fold step ks (step k s)) \<longleftrightarrow> L (step k s) \<and> (\<forall>j\<in>set ks. \<not> rel j (step k s))"
    by (simp add: inv)
  moreover have "rel j (step k s) \<longleftrightarrow> rel j s" if "j \<in> set ks" for j
    using Cons.prems that by (intro local) auto
  ultimately show ?case using Cons.prems by (auto simp: L)
qed simp

text \<open>A loop whose steps settle their key for good does nothing the second time.\<close>

lemma fold_settled:
  assumes "cache_inv s"
    and inv: "\<And>k s. cache_inv s \<Longrightarrow> cache_inv (step k s)"
    and quiet: "\<And>k s. cache_inv s \<Longrightarrow> quiet k (step k s)"
    and stays: "\<And>k j s. cache_inv s \<Longrightarrow> quiet j s \<Longrightarrow> quiet j (step k s)"
  shows "\<forall>k\<in>set ks \<union> {j. quiet j s}. quiet k (fold step ks s)"
  using assms(1)
proof (induction ks arbitrary: s)
  case (Cons k ks)
  from Cons.IH [OF inv [OF Cons.prems, of k]] quiet [OF Cons.prems, of k] stays [OF Cons.prems]
  show ?case by auto
qed simp

definition votes_of :: "OPoICache \<Rightarrow> string \<Rightarrow> AuditorVerification list" where
  "votes_of c r = vec_at (mapAuditorVerifications c) r"

definition shard_votes_of :: "OPoICache \<Rightarrow> string \<Rightarrow> AuditorVerification list" where
  "shard_votes_of c k = vec_at (mapShardAuditorVerifications c) k"

text \<open>The collateral a list of votes releases: that of the votes with the majority, if there is one.\<close>

definition wins :: "int \<Rightarrow> AuditorVerification list \<Rightarrow> COutPoint \<Rightarrow> bool" where
  "wins n vs out \<longleftrightarrow> (let majority = ComputeAuditorMajority vs n
     in 0 \<le> majority \<and> (\<exists>v\<in>set vs. uint (av_result v) = majority \<and> av_auditorCollateral v = out))"

definition released :: "Params \<Rightarrow> COutPoint \<Rightarrow> string \<Rightarrow> OPoICache \<Rightarrow> bool" where
  "released params out r c \<longleftrightarrow> r \<notin> setResolvedAuditorVerifications c \<and> wins (nOPoIMinAuditors params) (votes_of c r) out"

definition shard_released :: "Params \<Rightarrow> COutPoint \<Rightarrow> string \<Rightarrow> OPoICache \<Rightarrow> bool" where
  "shard_released params out k c \<longleftrightarrow>
     k \<notin> setResolvedShardAuditorVerifications c \<and> wins (nOPoIMinAuditors params) (shard_votes_of c k) out"

lemma majority_empty: "ComputeAuditorMajority [] n = -1"
  by (simp add: ComputeAuditorMajority_eq Let_def revealed_votes_def votes_for_def)

lemma majority_of: "GetAuditorMajorityResult c r n = ComputeAuditorMajority (votes_of c r) n"
  by (simp add: GetAuditorMajorityResult_def votes_of_def vec_at_def majority_empty split: option.splits)

lemma majority_settled: "ComputeAuditorMajority (map (settled_vote m) vs) n = ComputeAuditorMajority vs n"
  by (rule ComputeAuditorMajority_cong) (simp add: settled_vote_def comp_def)

lemma locked_settle:
  "IsLockedUTXO (settle_votes majority vs c) out \<longleftrightarrow>
   IsLockedUTXO c out \<and> \<not> (\<exists>v\<in>set vs. uint (av_result v) = majority \<and> av_auditorCollateral v = out)"
  unfolding settle_votes_def
  by (induction vs arbitrary: c) (auto simp: IsLockedUTXO_def UnlockUTXO_def)

lemma settle_frame [simp]:
  "mapAuditorVerifications (settle_votes m vs c) = mapAuditorVerifications c"
  "mapShardAuditorVerifications (settle_votes m vs c) = mapShardAuditorVerifications c"
  "setResolvedAuditorVerifications (settle_votes m vs c) = setResolvedAuditorVerifications c"
  "setResolvedShardAuditorVerifications (settle_votes m vs c) = setResolvedShardAuditorVerifications c"
  "mapRequests (settle_votes m vs c) = mapRequests c"
  "mapResponses (settle_votes m vs c) = mapResponses c"
  "mapStakes (settle_votes m vs c) = mapStakes c"
  unfolding settle_votes_def by (rule fold_unchanged; simp add: UnlockUTXO_def)+

lemma canary_frame [simp]:
  "mapAuditorVerifications (canary_verdict r m c) = mapAuditorVerifications c"
  "mapShardAuditorVerifications (canary_verdict r m c) = mapShardAuditorVerifications c"
  "setResolvedAuditorVerifications (canary_verdict r m c) = setResolvedAuditorVerifications c"
  "setResolvedShardAuditorVerifications (canary_verdict r m c) = setResolvedShardAuditorVerifications c"
  "IsLockedUTXO (canary_verdict r m c) = IsLockedUTXO c"
  by (simp_all add: canary_verdict_def fun_eq_iff IsLockedUTXO_def split: option.splits)

lemma locked_update [simp]:
  "IsLockedUTXO (c\<lparr>mapAuditorVerifications := x\<rparr>) = IsLockedUTXO c"
  "IsLockedUTXO (c\<lparr>mapShardAuditorVerifications := y\<rparr>) = IsLockedUTXO c"
  "IsLockedUTXO (MarkAuditorResolved r c) = IsLockedUTXO c"
  "IsLockedUTXO (MarkShardAuditorResolved r i c) = IsLockedUTXO c"
  by (simp_all add: fun_eq_iff IsLockedUTXO_def MarkAuditorResolved_def MarkShardAuditorResolved_def)

lemma resolve_request_locked:
  "IsLockedUTXO (resolve_request params r c) out \<longleftrightarrow> IsLockedUTXO c out \<and> \<not> released params out r c"
  by (auto simp: resolve_request_def released_def wins_def Let_def majority_of IsAuditorResolved_def locked_settle
      GetAuditorVerifications_def votes_of_def)

lemma resolve_request_effect:
  assumes "cache_inv c"
  shows "setResolvedAuditorVerifications (resolve_request params r c) =
      (if 0 \<le> ComputeAuditorMajority (votes_of c r) (nOPoIMinAuditors params)
       then insert r (setResolvedAuditorVerifications c) else setResolvedAuditorVerifications c)"
    and "votes_of (resolve_request params r c) j =
      (if j = r \<and> r \<notin> setResolvedAuditorVerifications c \<and> 0 \<le> ComputeAuditorMajority (votes_of c r) (nOPoIMinAuditors params)
       then map (settled_vote (ComputeAuditorMajority (votes_of c r) (nOPoIMinAuditors params))) (votes_of c r)
       else votes_of c j)"
    and "shard_votes_of (resolve_request params r c) = shard_votes_of c"
    and "setResolvedShardAuditorVerifications (resolve_request params r c) = setResolvedShardAuditorVerifications c"
    and "sm_keys (mapAuditorVerifications (resolve_request params r c)) = sm_keys (mapAuditorVerifications c)"
    and "mapShardAuditorVerifications (resolve_request params r c) = mapShardAuditorVerifications c"
  using assms
  by (auto simp: resolve_request_def Let_def majority_of IsAuditorResolved_def MarkAuditorResolved_def votes_of_def
      shard_votes_of_def vec_at_def inv_sm_ok split: option.splits)

lemma shard_key_of:
  assumes "cache_inv c" "shard_votes_of c k = v # vs"
  shows "ShardKey (av_requestId v) (av_shardIndex v) = k"
proof -
  from assms(2) obtain ws where "sm_find (mapShardAuditorVerifications c) k = Some ws" "ws = v # vs"
    by (auto simp: shard_votes_of_def vec_at_def split: option.splits)
  with assms(1) have "shard_verifs_ok k (v # vs)" by (auto simp: cache_inv_def dest: wf_find)
  then show ?thesis by (simp add: shard_verifs_ok_def)
qed

lemma resolve_shard_eq:
  assumes "cache_inv c"
  shows "resolve_shard params k c =
     (if k \<in> setResolvedShardAuditorVerifications c \<or> ComputeAuditorMajority (shard_votes_of c k) (nOPoIMinAuditors params) < 0 then c
      else let m = ComputeAuditorMajority (shard_votes_of c k) (nOPoIMinAuditors params);
               c1 = settle_votes m (shard_votes_of c k) c
           in c1\<lparr>mapShardAuditorVerifications := sm_modify k (map (settled_vote m)) (mapShardAuditorVerifications c1),
                 setResolvedShardAuditorVerifications := insert k (setResolvedShardAuditorVerifications c1)\<rparr>)"
proof (cases "shard_votes_of c k")
  case Nil
  then show ?thesis by (simp add: resolve_shard_def shard_votes_of_def majority_empty)
next
  case (Cons v vs)
  from shard_key_of [OF assms this] Cons show ?thesis
    by (simp add: resolve_shard_def shard_votes_of_def IsShardAuditorResolved_def MarkShardAuditorResolved_def Let_def)
qed

lemma resolve_shard_locked:
  assumes "cache_inv c"
  shows "IsLockedUTXO (resolve_shard params k c) out \<longleftrightarrow> IsLockedUTXO c out \<and> \<not> shard_released params out k c"
proof -
  have "IsLockedUTXO (c1\<lparr>mapShardAuditorVerifications := x, setResolvedShardAuditorVerifications := y\<rparr>) = IsLockedUTXO c1"
    for c1 x y by (simp add: fun_eq_iff IsLockedUTXO_def)
  then show ?thesis
    by (auto simp: resolve_shard_eq [OF assms] shard_released_def wins_def Let_def locked_settle)
qed

lemma resolve_shard_effect:
  assumes "cache_inv c"
  shows "setResolvedShardAuditorVerifications (resolve_shard params k c) =
      (if 0 \<le> ComputeAuditorMajority (shard_votes_of c k) (nOPoIMinAuditors params)
       then insert k (setResolvedShardAuditorVerifications c) else setResolvedShardAuditorVerifications c)"
    and "shard_votes_of (resolve_shard params k c) j =
      (if j = k \<and> k \<notin> setResolvedShardAuditorVerifications c \<and> 0 \<le> ComputeAuditorMajority (shard_votes_of c k) (nOPoIMinAuditors params)
       then map (settled_vote (ComputeAuditorMajority (shard_votes_of c k) (nOPoIMinAuditors params))) (shard_votes_of c k)
       else shard_votes_of c j)"
    and "votes_of (resolve_shard params k c) = votes_of c"
    and "setResolvedAuditorVerifications (resolve_shard params k c) = setResolvedAuditorVerifications c"
    and "mapAuditorVerifications (resolve_shard params k c) = mapAuditorVerifications c"
    and "sm_keys (mapShardAuditorVerifications (resolve_shard params k c)) = sm_keys (mapShardAuditorVerifications c)"
  using assms
  by (auto simp: resolve_shard_eq Let_def votes_of_def shard_votes_of_def vec_at_def inv_sm_ok split: option.splits)

text \<open>A dispute is at rest when it is resolved or has no majority; then its step does nothing.\<close>

definition at_rest :: "Params \<Rightarrow> string \<Rightarrow> OPoICache \<Rightarrow> bool" where
  "at_rest params r c \<longleftrightarrow> r \<in> setResolvedAuditorVerifications c \<or>
     ComputeAuditorMajority (votes_of c r) (nOPoIMinAuditors params) < 0"

definition shard_at_rest :: "Params \<Rightarrow> string \<Rightarrow> OPoICache \<Rightarrow> bool" where
  "shard_at_rest params k c \<longleftrightarrow> k \<in> setResolvedShardAuditorVerifications c \<or>
     ComputeAuditorMajority (shard_votes_of c k) (nOPoIMinAuditors params) < 0"

lemma rest_requests:
  "cache_inv c \<Longrightarrow> at_rest params r (resolve_request params r c)"
  "cache_inv c \<Longrightarrow> at_rest params j c \<Longrightarrow> at_rest params j (resolve_request params r c)"
  "cache_inv c \<Longrightarrow> at_rest params j c \<Longrightarrow> at_rest params j (resolve_shard params r c)"
  by (auto simp: at_rest_def resolve_request_effect resolve_shard_effect majority_settled not_less)

lemma resolve_at_rest: "at_rest params r c \<Longrightarrow> resolve_request params r c = c"
  by (auto simp: at_rest_def resolve_request_def majority_of IsAuditorResolved_def Let_def)

lemma rest_shards:
  "cache_inv c \<Longrightarrow> shard_at_rest params k (resolve_shard params k c)"
  "cache_inv c \<Longrightarrow> shard_at_rest params j c \<Longrightarrow> shard_at_rest params j (resolve_shard params k c)"
  by (auto simp: shard_at_rest_def resolve_shard_effect majority_settled not_less)

lemma resolve_shard_at_rest: "cache_inv c \<Longrightarrow> shard_at_rest params k c \<Longrightarrow> resolve_shard params k c = c"
  by (auto simp: shard_at_rest_def resolve_shard_eq)

lemma fold_at_rest:
  assumes "\<forall>k\<in>set ks. step k s = s"
  shows "fold step ks s = s"
  using assms by (induction ks) auto

lemma inv_fold_resolve:
  "cache_inv c \<Longrightarrow> cache_inv (fold (resolve_request params) ks c)"
  "cache_inv c \<Longrightarrow> cache_inv (fold (resolve_shard params) ks c)"
  by (rule fold_invariant [where P = cache_inv]; simp add: inv_resolve_request inv_resolve_shard)+

lemma rest_stays:
  "cache_inv c \<Longrightarrow> at_rest params r c \<Longrightarrow> at_rest params r (fold (resolve_shard params) ks c)"
  by (induction ks arbitrary: c) (simp_all add: inv_resolve_shard rest_requests)

lemma fold_resolve_keys:
  assumes "cache_inv c"
  shows "sm_keys (mapAuditorVerifications (fold (resolve_request params) ks c)) = sm_keys (mapAuditorVerifications c)"
    and "mapShardAuditorVerifications (fold (resolve_request params) ks c) = mapShardAuditorVerifications c"
    and "setResolvedShardAuditorVerifications (fold (resolve_request params) ks c) = setResolvedShardAuditorVerifications c"
    and "mapAuditorVerifications (fold (resolve_shard params) ks c) = mapAuditorVerifications c"
    and "sm_keys (mapShardAuditorVerifications (fold (resolve_shard params) ks c)) = sm_keys (mapShardAuditorVerifications c)"
  using assms
  by (induction ks arbitrary: c) (simp_all add: resolve_request_effect resolve_shard_effect inv_resolve_request inv_resolve_shard)

text \<open>
  C32. The resolution of the auditors' votes, for the whole responses and for single shards: after
  \<^verbatim>\<open>ProcessAuditorVerifications\<close> a coin is locked exactly when it was locked before and no
  dispute that reached a majority for the first time has it as collateral of a vote with that
  majority. So every vote against the majority stays locked, disputes resolved earlier release
  nothing again, and the order of the disputes in the maps does not matter.
\<close>

theorem auditor_collateral:
  assumes "cache_inv c"
  shows "IsLockedUTXO (ProcessAuditorVerifications params c) out \<longleftrightarrow>
     IsLockedUTXO c out \<and>
     (\<forall>r\<in>set (sm_keys (mapAuditorVerifications c)). \<not> released params out r c) \<and>
     (\<forall>k\<in>set (sm_keys (mapShardAuditorVerifications c)). \<not> shard_released params out k c)"
proof -
  let ?rs = "sm_keys (mapAuditorVerifications c)" and ?ks = "sm_keys (mapShardAuditorVerifications c)"
  let ?c1 = "fold (resolve_request params) ?rs c"
  have inv1: "cache_inv ?c1" by (rule inv_fold_resolve [OF assms])
  have distinct: "distinct ?rs" "distinct ?ks"
    using inv_sm_ok [OF assms] by (auto simp: sm_ok_def strict_sorted_iff)
  have 1: "IsLockedUTXO ?c1 out \<longleftrightarrow> IsLockedUTXO c out \<and> (\<forall>r\<in>set ?rs. \<not> released params out r c)"
    using distinct(1) assms
    by (rule fold_release)
      (auto simp: inv_resolve_request resolve_request_locked released_def resolve_request_effect)
  have 2: "IsLockedUTXO (fold (resolve_shard params) ?ks ?c1) out \<longleftrightarrow>
      IsLockedUTXO ?c1 out \<and> (\<forall>k\<in>set ?ks. \<not> shard_released params out k ?c1)"
    using distinct(2) inv1
    by (rule fold_release)
      (auto simp: inv_resolve_shard resolve_shard_locked shard_released_def resolve_shard_effect)
  have 3: "shard_released params out k ?c1 \<longleftrightarrow> shard_released params out k c" for k
    by (simp add: shard_released_def shard_votes_of_def fold_resolve_keys [OF assms])
  show ?thesis
    using 1 2 3 by (simp add: ProcessAuditorVerifications_def fold_resolve_keys [OF assms])
qed

text \<open>
  C33. \<^verbatim>\<open>ProcessAuditorVerifications\<close> resolves every dispute at most once: run again on its own
  result it changes nothing, so a canary strike is never counted twice for one verdict.
\<close>

theorem auditor_resolution_idempotent:
  assumes "cache_inv c"
  shows "ProcessAuditorVerifications params (ProcessAuditorVerifications params c) = ProcessAuditorVerifications params c"
proof -
  let ?rs = "sm_keys (mapAuditorVerifications c)" and ?ks = "sm_keys (mapShardAuditorVerifications c)"
  let ?c1 = "fold (resolve_request params) ?rs c"
  let ?c2 = "fold (resolve_shard params) ?ks ?c1"
  have inv1: "cache_inv ?c1" by (rule inv_fold_resolve [OF assms])
  have inv2: "cache_inv ?c2" by (rule inv_fold_resolve [OF inv1])
  have c2: "ProcessAuditorVerifications params c = ?c2"
    by (simp add: ProcessAuditorVerifications_def fold_resolve_keys [OF assms])
  have "\<forall>k\<in>set ?rs \<union> {j. at_rest params j c}. at_rest params k ?c1"
    by (rule fold_settled [where step = "resolve_request params", OF assms]) (auto simp: inv_resolve_request rest_requests)
  moreover have "at_rest params r ?c2" if "at_rest params r ?c1" for r
    by (rule rest_stays [OF inv1 that])
  ultimately have rs: "\<forall>r\<in>set ?rs. resolve_request params r ?c2 = ?c2" by (auto simp: resolve_at_rest)
  have "\<forall>k\<in>set ?ks \<union> {j. shard_at_rest params j ?c1}. shard_at_rest params k ?c2"
    by (rule fold_settled [where step = "resolve_shard params", OF inv1]) (auto simp: inv_resolve_shard rest_shards)
  then have ks: "\<forall>k\<in>set ?ks. resolve_shard params k ?c2 = ?c2" by (auto simp: resolve_shard_at_rest inv2)
  have keys: "sm_keys (mapAuditorVerifications ?c2) = ?rs" "sm_keys (mapShardAuditorVerifications ?c2) = ?ks"
    by (simp_all add: fold_resolve_keys assms inv1)
  show ?thesis
    unfolding c2
    by (simp add: ProcessAuditorVerifications_def keys fold_at_rest [of _ "resolve_request params", OF rs]
        fold_at_rest [of _ "resolve_shard params", OF ks])
qed

text \<open>Three auditors of one response with a coin each; the third disagrees.\<close>

definition sample_audit :: "address \<Rightarrow> u8 \<Rightarrow> u32 \<Rightarrow> AuditorVerification" where
  "sample_audit a r n = (sample_vote a r)\<lparr>av_auditorCollateral := COutPoint (replicate 32 1) n\<rparr>"

definition sample_audited :: OPoICache where
  "sample_audited = fold AddAuditorVerification
     [sample_audit ''a'' 0 0, sample_audit ''b'' 0 1, sample_audit ''c'' 1 2] OPoICache_init"

lemma sample_audited_inv: "cache_inv sample_audited"
  by (simp add: sample_audited_def inv_AddAuditorVerification cache_inv_init sample_audit_def sample_vote_def
      IsShardScoped_def)

theorem auditor_collateral_witness:
  "IsLockedUTXO sample_audited (COutPoint (replicate 32 1) 0) \<and>
   \<not> IsLockedUTXO (ProcessAuditorVerifications regtest_params sample_audited) (COutPoint (replicate 32 1) 0) \<and>
   IsLockedUTXO (ProcessAuditorVerifications regtest_params sample_audited) (COutPoint (replicate 32 1) 2)"
proof -
  have "mapAuditorVerifications sample_audited =
      [(''r'', [sample_audit ''a'' 0 0, sample_audit ''b'' 0 1, sample_audit ''c'' 1 2])]"
    "mapShardAuditorVerifications sample_audited = []"
    "IsLockedUTXO sample_audited (COutPoint (replicate 32 1) 0)"
    "IsLockedUTXO sample_audited (COutPoint (replicate 32 1) 2)"
    "released regtest_params (COutPoint (replicate 32 1) 0) ''r'' sample_audited"
    "\<not> released regtest_params (COutPoint (replicate 32 1) 2) ''r'' sample_audited"
    by code_simp+
  then show ?thesis
    by (simp add: auditor_collateral [OF sample_audited_inv])
qed

theorem auditor_resolution_idempotent_witness:
  "ProcessAuditorVerifications regtest_params (ProcessAuditorVerifications regtest_params sample_audited) =
     ProcessAuditorVerifications regtest_params sample_audited \<and>
   setResolvedAuditorVerifications (ProcessAuditorVerifications regtest_params sample_audited) = {''r''}"
proof -
  have "setResolvedAuditorVerifications (ProcessAuditorVerifications regtest_params sample_audited) = {''r''}"
    by code_simp
  then show ?thesis by (simp add: auditor_resolution_idempotent [OF sample_audited_inv])
qed

section \<open>Division of a payment over the shards\<close>

definition graph_weight :: "ShardDescriptor list \<Rightarrow> nat" where
  "graph_weight meg = (\<Sum>d\<leftarrow>meg. unat (shard_weight d))"

lemma graph_weights_foldl:
  "foldl (\<lambda>(total, mine) d. (total + shard_weight d,
      if sd_shardIndex d = i then Some (shard_weight d) else mine)) (t, m) meg =
   (t + word_of_nat (graph_weight meg),
    case filter (\<lambda>d. sd_shardIndex d = i) meg of [] \<Rightarrow> m | ds \<Rightarrow> Some (shard_weight (last ds)))"
  by (induction meg arbitrary: t m) (auto simp: graph_weight_def algebra_simps split: list.splits)

lemma filter_single:
  assumes "j < length xs" "\<And>k. k < length xs \<Longrightarrow> P (xs ! k) \<longleftrightarrow> k = j"
  shows "filter P xs = [xs ! j]"
proof -
  have xs: "xs = take j xs @ xs ! j # drop (Suc j) xs" using assms(1) by (rule id_take_nth_drop)
  have "\<forall>x\<in>set (take j xs). \<not> P x" using assms by (auto simp: in_set_conv_nth)
  moreover have "\<forall>x\<in>set (drop (Suc j) xs). \<not> P x" using assms(2) by (auto simp: in_set_conv_nth)
  moreover have "P (xs ! j)" using assms by simp
  ultimately show ?thesis by (subst xs) (simp add: filter_empty_conv)
qed

lemma graph_weights_node:
  assumes "length meg \<le> 2 ^ 32" "j < length meg" "\<forall>k<length meg. sd_shardIndex (meg ! k) = word_of_nat k"
  shows "graph_weights meg (word_of_nat j) = (word_of_nat (graph_weight meg), Some (shard_weight (meg ! j)))"
proof -
  have inj: "(word_of_nat k :: u32) = word_of_nat j \<longleftrightarrow> k = j" if "k < length meg" for k
    using that assms(1,2) by (auto simp: word_of_nat_eq_iff take_bit_nat_eq_self)
  have "filter (\<lambda>d. sd_shardIndex d = word_of_nat j) meg = [meg ! j]"
    by (rule filter_single) (use assms inj in auto)
  then show ?thesis by (simp add: graph_weights_def graph_weights_foldl)
qed

lemma node_weight_le: "j < length meg \<Longrightarrow> unat (shard_weight (meg ! j)) \<le> graph_weight meg"
  unfolding graph_weight_def by (rule member_le_sum_list) auto

lemma floor_sum:
  fixes p W :: int and w :: "nat \<Rightarrow> int"
  assumes "0 < W" "W = (\<Sum>j<n. w j)"
  shows "(\<Sum>j<n. p * w j div W) \<le> p" and "p - int n \<le> (\<Sum>j<n. p * w j div W)"
proof -
  have total: "W * p = (\<Sum>j<n. p * w j)" by (simp add: assms(2) sum_distrib_left sum_distrib_right mult.commute)
  have "W * (\<Sum>j<n. p * w j div W) = (\<Sum>j<n. W * (p * w j div W))" by (simp add: sum_distrib_left)
  also have "\<dots> \<le> (\<Sum>j<n. p * w j)" using assms(1) by (intro sum_mono) (simp add: minus_mod_eq_mult_div [symmetric])
  finally show "(\<Sum>j<n. p * w j div W) \<le> p" unfolding total [symmetric] using assms(1) by simp
  have "(\<Sum>j<n. p * w j - W) \<le> (\<Sum>j<n. W * (p * w j div W))"
  proof (rule sum_mono)
    fix j
    have "p * w j mod W < W" using assms(1) by simp
    then show "p * w j - W \<le> W * (p * w j div W)" by (simp add: minus_mod_eq_mult_div [symmetric])
  qed
  then have "W * (p - int n) \<le> W * (\<Sum>j<n. p * w j div W)"
    using total by (simp add: sum_subtractf sum_distrib_left algebra_simps)
  then show "p - int n \<le> (\<Sum>j<n. p * w j div W)" using assms(1) by simp
qed

lemma sint_small:
  fixes v :: u64
  assumes "uint v < 2 ^ 63"
  shows "sint v = uint v"
proof -
  have "sint v = signed_take_bit 63 (uint v)" by (simp add: sint_uint)
  also have "\<dots> = uint v" 
    using assms uint_ge_0 [of v] by (intro signed_take_bit_int_eq_self) linarith+
  finally show ?thesis .
qed

lemma uint_small:
  assumes "int n < 2 ^ 63"
  shows "uint (word_of_nat n :: u64) = int n"
proof -
  have "n < 2 ^ 64" using assms by simp
  then show ?thesis by (simp add: unsigned_of_nat take_bit_nat_eq_self)
qed

lemma shard_share_node:
  assumes "GetModelManifest c (rq_model req) = Some manifest" "mm_IsActive manifest"
    and meg: "BuildModelExecutionGraph manifest (ShouldCollapseToTitanSingleNode c params manifest) = meg"
    and "length meg \<le> 2 ^ 32" "j < length meg" "0 < graph_weight meg"
    and pay: "0 < rq_payment req" "rq_payment req * int (graph_weight meg) < 2 ^ 63"
  shows "shard_share c params req (word_of_nat j) =
     Some (rq_payment req * uint (shard_weight (meg ! j)) div int (graph_weight meg))"
proof -
  let ?w = "shard_weight (meg ! j)" and ?W = "graph_weight meg"
  have idx: "\<forall>k<length meg. sd_shardIndex (meg ! k) = word_of_nat k" by (simp add: meg [symmetric] meg_index)
  have w: "uint ?w \<le> int ?W" using node_weight_le [OF assms(5)] by (metis of_nat_le_iff uint_nat)
  have "1 * int ?W \<le> rq_payment req * int ?W" using pay(1) by (intro mult_right_mono) auto
  with pay(2) have W: "int ?W < 2 ^ 63" by linarith
  have sW: "uint (word_of_nat ?W :: u64) = int ?W" using W by (rule uint_small)
  have "rq_payment req * uint ?w \<le> rq_payment req * int ?W" using pay(1) w by (intro mult_left_mono) auto
  moreover have 0: "0 \<le> rq_payment req * uint ?w" using pay(1) by simp
  ultimately have "i64_range (rq_payment req * uint ?w)" using pay(2) unfolding i64_range_def by linarith
  then have 1: "wrap64 (rq_payment req * uint ?w) = rq_payment req * uint ?w" by (rule wrap64_id)
  have 2: "sint ?w = uint ?w" using w W by (intro sint_small) linarith
  have 3: "sint (word_of_nat ?W :: u64) = int ?W" using sint_small [of "word_of_nat ?W"] W unfolding sW by simp
  have 4: "(word_of_nat ?W :: u64) \<noteq> 0" using sW assms(6) by (metis less_irrefl of_nat_0_less_iff uint_0_eq)
  have 5: "cdiv (rq_payment req * uint ?w) (int ?W) = rq_payment req * uint ?w div int ?W"
    using 0 assms(6) by (intro cdiv_nonneg) auto
  show ?thesis
    by (simp only: shard_share_def assms(1,2) meg option.case simp_thms if_False prod.case
        graph_weights_node [OF assms(4,5) idx] 1 2 3 4 5)
qed

text \<open>
  C34. The division of a request's payment over the shards of its model: whatever shards resolve,
  together they get at most the payment, and when all resolve the rounding loses less than one
  unit per shard. The hypotheses are that the 64-bit product \<^verbatim>\<open>req.payment * myWeight\<close> does not
  overflow and that the graph has at most \<open>2\<^sup>3\<^sup>2\<close> nodes, so that an index names one node.
\<close>

theorem shard_shares_within_payment:
  assumes "GetModelManifest c (rq_model req) = Some manifest" "mm_IsActive manifest"
    and "BuildModelExecutionGraph manifest (ShouldCollapseToTitanSingleNode c params manifest) = meg"
    and "length meg \<le> 2 ^ 32" "0 < graph_weight meg"
    and "0 < rq_payment req" "rq_payment req * int (graph_weight meg) < 2 ^ 63"
    and "S \<subseteq> {..<length meg}"
  shows "(\<Sum>j\<in>S. the (shard_share c params req (word_of_nat j))) \<le> rq_payment req \<and>
     rq_payment req - int (length meg) \<le> (\<Sum>j<length meg. the (shard_share c params req (word_of_nat j)))"
proof -
  let ?share = "\<lambda>j. the (shard_share c params req (word_of_nat j))"
  let ?w = "\<lambda>j. uint (shard_weight (meg ! j))" and ?W = "int (graph_weight meg)"
  have share: "?share j = rq_payment req * ?w j div ?W" if "j < length meg" for j
    using shard_share_node [OF assms(1-4) that assms(5-7)] by simp
  have W: "?W = (\<Sum>j<length meg. ?w j)"
    by (simp add: graph_weight_def sum_list_sum_nth atLeast0LessThan)
  have "(\<Sum>j<length meg. ?share j) = (\<Sum>j<length meg. rq_payment req * ?w j div ?W)"
    by (rule sum.cong) (simp_all add: share)
  then have all: "(\<Sum>j<length meg. ?share j) \<le> rq_payment req"
    "rq_payment req - int (length meg) \<le> (\<Sum>j<length meg. ?share j)"
    using floor_sum [OF _ W, of "rq_payment req"] assms(5) by simp_all
  have "(\<Sum>j\<in>S. ?share j) \<le> (\<Sum>j<length meg. ?share j)"
    using assms(5,6,8) by (intro sum_mono2) (auto simp: share pos_imp_zdiv_nonneg_iff)
  with all show ?thesis by simp
qed

definition sample_models :: OPoICache where
  "sample_models = OPoICache_init\<lparr>mapModelManifests := [(''m'', sample_moe)]\<rparr>"

theorem shard_shares_within_payment_witness:
  "(\<Sum>j\<in>{0, 1}. the (shard_share sample_models regtest_params sample_request (word_of_nat j))) \<le> 100 \<and>
   94 \<le> (\<Sum>j<6. the (shard_share sample_models regtest_params sample_request (word_of_nat j)))"
proof -
  let ?meg = "BuildModelExecutionGraph sample_moe (ShouldCollapseToTitanSingleNode sample_models regtest_params sample_moe)"
  have "GetModelManifest sample_models (rq_model sample_request) = Some sample_moe" "mm_IsActive sample_moe"
    "length ?meg = 6" "graph_weight ?meg = 9" "rq_payment sample_request = 100"
    by code_simp+
  with shard_shares_within_payment [of sample_models sample_request sample_moe regtest_params ?meg "{0, 1}"]
  show ?thesis by simp
qed

end
