(* ===== verification/Opoi_Check.thy ===== *)
theory Opoi_Check
  imports Opoi_Payments
begin

text \<open>
  Acceptance of OPoI transactions (\<^verbatim>\<open>CheckOPoITransaction\<close> and \<^verbatim>\<open>CheckOPoIBlockCaps\<close> of
  \<^verbatim>\<open>opoi/opoi.cpp\<close>): one definition per transaction type, each the sequence of the code's
  guarded rejections in the code's order. A check that reads the cache is skipped while
  \<^verbatim>\<open>fIsVerifying\<close> is set.

  The lemmas show that every accepted transaction is signed by the address that acts, that
  commits and reveals exclude each other, that collateral is never pledged twice, that a
  redelivery of an applied transaction never costs the relaying peer a penalty, and where the
  signed messages and the commitments leave a field open.
\<close>

section \<open>Sequences of checks\<close>

definition reject_if :: "bool \<Rightarrow> reject \<Rightarrow> reject option" where
  "reject_if b r = (if b then Some r else None)"

fun first_reject :: "reject option list \<Rightarrow> reject option" where
  "first_reject [] = None"
| "first_reject (x # xs) = (case x of None \<Rightarrow> first_reject xs | Some r \<Rightarrow> Some r)"

definition live :: "opoi_env \<Rightarrow> reject option \<Rightarrow> reject option" where
  "live e x = (if fIsVerifying e then None else x)"

definition bad_sig :: "opoi_env \<Rightarrow> address \<Rightarrow> string \<Rightarrow> bytes \<Rightarrow> bool" where
  "bad_sig e addr message sig \<longleftrightarrow> VerifyOPoISig e addr message sig = None"

text \<open>The rejection of a failed sortition carries its reason.\<close>

definition vrf_reject :: "string \<Rightarrow> string option \<Rightarrow> reject option" where
  "vrf_reject prefix result =
     (case result of None \<Rightarrow> None
      | Some reason \<Rightarrow> Some (DoS (if reason = ''vrf-invalid'' then 100 else 10) (prefix @ reason)))"

section \<open>Signed messages\<close>

definition request_sigMsg :: "CTransaction \<Rightarrow> string" where
  "request_sigMsg tx =
     opoiRequestId tx @ opoiRequester tx @ opoiModel tx @ GetHex (opoiPromptHash tx)
     @ dec_u32 (opoiMaxTokens tx) @ dec_int (opoiPayment tx) @ dec_int (opoiFeePerToken tx)
     @ dec_int (opoiTaskType tx) @ dec_u8 (opoiTaskClass tx)
     @ GetHex (opoiTestSuite tx) @ dec_u32 (opoiPromptTokenCount tx) @ dec_u8 (opoiIsCanary tx)"

definition response_commit_sigMsg :: "CTransaction \<Rightarrow> string" where
  "response_commit_sigMsg tx = opoiRequestId tx @ opoiMinerAddress tx @ HexStr (opoiResponseCommitHash tx)"

definition response_reveal_sigMsg :: "CTransaction \<Rightarrow> string" where
  "response_reveal_sigMsg tx =
     opoiRequestId tx @ opoiMinerAddress tx @ GetHex (opoiResponseHash tx) @ GetHex (opoiCommitment tx)
     @ dec_u32 (opoiTokenCount tx)"

definition unstake_sigMsg :: "CTransaction \<Rightarrow> string" where
  "unstake_sigMsg tx = ''UNSTAKE'' @ opoiMinerAddress tx"

definition renew_sigMsg :: "CTransaction \<Rightarrow> string" where
  "renew_sigMsg tx = ''RENEW'' @ opoiMinerAddress tx"

definition challenge_commit_sigMsg :: "CTransaction \<Rightarrow> string" where
  "challenge_commit_sigMsg tx =
     opoiRequestId tx @ opoiRequester tx @ HexStr (opoiCommitHash tx)
     @ GetHex (op_hash (opoiChallengerCollateralIn tx)) @ dec_u32 (op_n (opoiChallengerCollateralIn tx))"

definition challenge_reveal_sigMsg :: "CTransaction \<Rightarrow> string" where
  "challenge_reveal_sigMsg tx =
     opoiRequestId tx @ opoiRequester tx @ HexStr (opoiProofData tx) @ HexStr (opoiChallengeNonce tx)"

definition model_register_sigMsg :: "CTransaction \<Rightarrow> string" where
  "model_register_sigMsg tx =
     opoiModelId tx @ opoiRequester tx @ dec_u8 (opoiModelArchType tx) @ GetHex (opoiPomRoot tx)"

definition model_vote_sigMsg :: "CTransaction \<Rightarrow> string" where
  "model_vote_sigMsg tx = opoiModelId tx @ opoiRequester tx @ dec_u8 (opoiModelVoteApprove tx)"

definition coordinator_claim_sigMsg :: "CTransaction \<Rightarrow> string" where
  "coordinator_claim_sigMsg tx = ''COORD'' @ opoiRequestId tx @ opoiMinerAddress tx"

definition shard_result_sigMsg :: "CTransaction \<Rightarrow> string" where
  "shard_result_sigMsg tx =
     ''SHARD'' @ opoiRequestId tx @ dec_u32 (opoiShardIndex tx) @ opoiMinerAddress tx
     @ GetHex (opoiResponseHash tx) @ GetHex (opoiCommitment tx) @ dec_u32 (opoiTokenCount tx)"

definition auditor_verify_sigMsg :: "CTransaction \<Rightarrow> string" where
  "auditor_verify_sigMsg tx =
     opoiAuditorAddress tx @ opoiRequestId tx @ GetHex (op_hash (opoiAuditorCollateralIn tx))
     @ dec_u32 (op_n (opoiAuditorCollateralIn tx)) @ dec_u32 (opoiShardIndex tx)"

section \<open>One check per transaction type\<close>

definition active_manifest :: "OPoICache \<Rightarrow> string \<Rightarrow> ModelManifest option" where
  "active_manifest c model =
     (case GetModelManifest c model of None \<Rightarrow> None | Some m \<Rightarrow> if mm_IsActive m then Some m else None)"

definition check_request :: "opoi_env \<Rightarrow> Params \<Rightarrow> OPoICache \<Rightarrow> CTransaction \<Rightarrow> reject option" where
  "check_request e params c tx = first_reject
     [reject_if (opoiRequestId tx = '''') (DoS 10 ''bad-txns-opoi-no-request-id''),
      reject_if (opoiRequester tx = '''') (DoS 10 ''bad-txns-opoi-no-requester''),
      reject_if (opoiModel tx = '''') (DoS 10 ''bad-txns-opoi-no-model''),
      reject_if (uint256_IsNull (opoiPromptHash tx)) (DoS 10 ''bad-txns-opoi-no-prompt-hash''),
      reject_if (opoiPayment tx \<le> 0) (DoS 10 ''bad-txns-opoi-zero-payment''),
      live e (case GetRequest c (opoiRequestId tx) of
         None \<Rightarrow> None
       | Some existingReq \<Rightarrow>
           if rq_txHash existingReq = tx_hash tx then Some (Duplicate ''bad-txns-opoi-request-already-known'')
           else Some (DoS 10 ''bad-txns-opoi-request-id-collision'')),
      reject_if (opoiTaskType tx = OPOI_TASK_VERIFIABLE \<and> uint256_IsNull (opoiTestSuite tx))
        (DoS 10 ''bad-txns-opoi-request-verifiable-needs-test-suite''),
      reject_if ((0 < nOPoIFeeBase params \<or> 0 < nOPoIFeePerToken params) \<and>
          opoiPayment tx < wrap64 (nOPoIFeeBase params + wrap64 (uint (opoiPromptTokenCount tx) * nOPoIFeePerToken params)))
        (DoS 10 ''bad-txns-opoi-request-fee-too-low''),
      reject_if (opoiIsCanary tx \<noteq> 0 \<and> opoiTaskType tx \<noteq> OPOI_TASK_VERIFIABLE)
        (DoS 10 ''bad-txns-opoi-request-canary-not-verifiable''),
      reject_if (opoiIsCanary tx \<noteq> 0 \<and> opoiTestSuite tx \<noteq> GetOPoICanaryTestSuiteHash e)
        (DoS 10 ''bad-txns-opoi-request-canary-wrong-test-suite''),
      live e (case active_manifest c (opoiModel tx) of
         None \<Rightarrow> None
       | Some manifest \<Rightarrow> first_reject
           [reject_if (opoiTaskClass tx = OPOI_TASKCLASS_INTERACTIVE \<and>
                nOPoIMaxPipelineDepth params < sint (mm_numDenseShards manifest))
              (DoS 10 ''bad-txns-opoi-request-pipeline-too-deep-for-interactive''),
            reject_if (0 < mm_minRewardPerToken manifest \<and> opoiFeePerToken tx < mm_minRewardPerToken manifest)
              (DoS 10 ''bad-txns-opoi-request-fee-below-model-minimum'')]),
      reject_if (bad_sig e (opoiRequester tx) (request_sigMsg tx) (opoiSig tx))
        (DoS 100 ''bad-txns-opoi-request-bad-sig'')]"

text \<open>
  The reveal is compared with the commit through
  \<^verbatim>\<open>SHA256(responseHash || commitment || decimal(tokenCount) || nonce)\<close>.
\<close>

definition response_preimage :: "CTransaction \<Rightarrow> bytes" where
  "response_preimage tx =
     opoiResponseHash tx @ opoiCommitment tx @ str_bytes (dec_u32 (opoiTokenCount tx)) @ opoiResponseNonce tx"

definition check_response_commit :: "opoi_env \<Rightarrow> OPoICache \<Rightarrow> CTransaction \<Rightarrow> reject option" where
  "check_response_commit e c tx = first_reject
     [reject_if (length (opoiResponseCommitHash tx) \<noteq> 32) (DoS 10 ''bad-txns-opoi-response-no-commit-hash''),
      live e (reject_if (IsHarmlessResponseCommitRedelivery c (opoiRequestId tx) (opoiMinerAddress tx) (tx_hash tx))
        (Duplicate ''bad-txns-opoi-response-commit-already-known'')),
      live e (case GetRequest c (opoiRequestId tx) of
         None \<Rightarrow> None
       | Some req \<Rightarrow> reject_if (rq_commitWindowClosed req) (DoS 10 ''bad-txns-opoi-response-commit-window-closed'')),
      reject_if (bad_sig e (opoiMinerAddress tx) (response_commit_sigMsg tx) (opoiSig tx))
        (DoS 100 ''bad-txns-opoi-response-bad-sig'')]"

definition check_response_reveal :: "opoi_env \<Rightarrow> Params \<Rightarrow> OPoICache \<Rightarrow> CTransaction \<Rightarrow> reject option" where
  "check_response_reveal e params c tx = first_reject
     [reject_if (uint256_IsNull (opoiResponseHash tx)) (DoS 10 ''bad-txns-opoi-no-response-hash''),
      live e (case GetRequest c (opoiRequestId tx) of
         None \<Rightarrow> Some (DoS 10 ''bad-txns-opoi-response-reveal-too-early'')
       | Some req \<Rightarrow> first_reject
           [reject_if (\<not> rq_commitWindowClosed req) (DoS 10 ''bad-txns-opoi-response-reveal-too-early''),
            reject_if (sm_find (rq_responseReveals req) (opoiMinerAddress tx) \<noteq> None)
              (Duplicate ''bad-txns-opoi-response-reveal-already-known'')]),
      live e (case GetResponseCommit c (opoiRequestId tx) (opoiMinerAddress tx) of
         None \<Rightarrow> Some (DoS 10 ''bad-txns-opoi-response-no-commit'')
       | Some committedHash \<Rightarrow> first_reject
           [reject_if (opoiResponseNonce tx = []) (DoS 10 ''bad-txns-opoi-response-no-nonce''),
            reject_if (committedHash \<noteq> HexStr (sha256 e (response_preimage tx)))
              (DoS 100 ''bad-txns-opoi-response-commit-mismatch'')]),
      live e (case GetOPoIRequestSeedHash e c (opoiRequestId tx) of
         None \<Rightarrow> Some (DoS 10 ''bad-txns-opoi-response-no-seed'')
       | Some seedHash \<Rightarrow> vrf_reject ''bad-txns-opoi-response-''
           (CheckVrfSortition e c (opoiMinerAddress tx) (opoiRequestId tx) seedHash '''' (opoiVrfProof tx)
              (OPoIVrfThresholdForRequest c (opoiRequestId tx) params))),
      reject_if (bad_sig e (opoiMinerAddress tx) (response_reveal_sigMsg tx) (opoiSig tx))
        (DoS 100 ''bad-txns-opoi-response-bad-sig'')]"

definition check_response :: "opoi_env \<Rightarrow> Params \<Rightarrow> OPoICache \<Rightarrow> CTransaction \<Rightarrow> reject option" where
  "check_response e params c tx = first_reject
     [reject_if (opoiRequestId tx = '''') (DoS 10 ''bad-txns-opoi-no-request-id''),
      reject_if (opoiMinerAddress tx = '''') (DoS 10 ''bad-txns-opoi-no-miner''),
      live e (reject_if (\<not> IsActiveStaker c (opoiMinerAddress tx)) (DoS 10 ''bad-txns-opoi-miner-not-staked'')),
      live e (case GetRequest c (opoiRequestId tx) of
         None \<Rightarrow> None
       | Some req \<Rightarrow> first_reject
           [reject_if (rq_IsExpired req) (DoS 10 ''bad-txns-opoi-request-expired''),
            (case GetStake c (opoiMinerAddress tx) of
               None \<Rightarrow> None
             | Some stake \<Rightarrow> reject_if (rq_model req \<noteq> '''' \<and> st_modelId stake \<noteq> '''' \<and> st_modelId stake \<noteq> rq_model req)
                 (DoS 10 ''bad-txns-opoi-response-model-mismatch''))]),
      (if opoiResponsePhase tx = 0 then check_response_commit e c tx else check_response_reveal e params c tx)]"

definition check_stake :: "opoi_env \<Rightarrow> OPoICache \<Rightarrow> CTransaction \<Rightarrow> reject option" where
  "check_stake e c tx = first_reject
     [reject_if (opoiMinerAddress tx = '''') (DoS 10 ''bad-txns-opoi-stake-no-miner''),
      reject_if (COutPoint_IsNull (opoiCollateralIn tx)) (DoS 10 ''bad-txns-opoi-stake-no-collateral''),
      reject_if (opoiPayment tx \<le> 0) (DoS 10 ''bad-txns-opoi-stake-zero-amount''),
      live e (if IsLockedUTXO c (opoiCollateralIn tx) then
         (if IsHarmlessRedelivery c (opoiCollateralIn tx) (tx_hash tx)
          then Some (Duplicate ''bad-txns-opoi-stake-already-known'')
          else Some (DoS 100 ''bad-txns-opoi-stake-collateral-locked''))
        else None),
      reject_if (bad_sig e (opoiMinerAddress tx) (stake_sigMsg tx) (opoiSig tx)) (DoS 100 ''bad-txns-opoi-stake-bad-sig'')]"

definition check_unstake :: "opoi_env \<Rightarrow> OPoICache \<Rightarrow> CTransaction \<Rightarrow> reject option" where
  "check_unstake e c tx = first_reject
     [reject_if (opoiMinerAddress tx = '''') (DoS 10 ''bad-txns-opoi-unstake-no-miner''),
      live e (if \<not> IsActiveStaker c (opoiMinerAddress tx) then
         (if IsHarmlessUnstakeRedelivery c (opoiMinerAddress tx) (tx_hash tx)
          then Some (Duplicate ''bad-txns-opoi-unstake-already-known'')
          else Some (DoS 100 ''bad-txns-opoi-unstake-not-staked''))
        else None),
      reject_if (bad_sig e (opoiMinerAddress tx) (unstake_sigMsg tx) (opoiSig tx))
        (DoS 100 ''bad-txns-opoi-unstake-bad-sig'')]"

definition check_renew :: "opoi_env \<Rightarrow> OPoICache \<Rightarrow> CTransaction \<Rightarrow> reject option" where
  "check_renew e c tx = first_reject
     [reject_if (opoiMinerAddress tx = '''') (DoS 10 ''bad-txns-opoi-renew-no-miner''),
      live e (case GetStake c (opoiMinerAddress tx) of
         None \<Rightarrow> Some (DoS 10 ''bad-txns-opoi-renew-not-renewable'')
       | Some stake \<Rightarrow> reject_if (st_stakeStatus stake \<noteq> ST_ACTIVE \<and> st_stakeStatus stake \<noteq> ST_SUSPENDED)
           (DoS 10 ''bad-txns-opoi-renew-not-renewable'')),
      reject_if (bad_sig e (opoiMinerAddress tx) (renew_sigMsg tx) (opoiSig tx)) (DoS 100 ''bad-txns-opoi-renew-bad-sig'')]"

definition check_challenge_commit :: "opoi_env \<Rightarrow> OPoICache \<Rightarrow> CTransaction \<Rightarrow> reject option" where
  "check_challenge_commit e c tx = first_reject
     [reject_if (length (opoiCommitHash tx) \<noteq> 32) (DoS 10 ''bad-txns-opoi-challenge-no-commit-hash''),
      live e (if IsLockedUTXO c (opoiChallengerCollateralIn tx) then
         (if IsHarmlessRedelivery c (opoiChallengerCollateralIn tx) (tx_hash tx)
          then Some (Duplicate ''bad-txns-opoi-challenge-already-known'')
          else Some (DoS 100 ''bad-txns-opoi-challenge-collateral-locked''))
        else None),
      live e (case GetChallenge c (opoiRequestId tx) of
         None \<Rightarrow> None
       | Some existing \<Rightarrow> reject_if (ch_IsOpen existing) (DoS 10 ''bad-txns-opoi-challenge-already-open'')),
      reject_if (bad_sig e (opoiRequester tx) (challenge_commit_sigMsg tx) (opoiSig tx))
        (DoS 100 ''bad-txns-opoi-challenge-bad-sig'')]"

definition check_challenge_reveal :: "opoi_env \<Rightarrow> OPoICache \<Rightarrow> CTransaction \<Rightarrow> reject option" where
  "check_challenge_reveal e c tx = first_reject
     [reject_if (opoiProofData tx = [] \<or> opoiChallengeNonce tx = []) (DoS 10 ''bad-txns-opoi-challenge-no-reveal-data''),
      live e (case GetChallenge c (opoiRequestId tx) of
         None \<Rightarrow> Some (DoS 10 ''bad-txns-opoi-challenge-no-open-commit'')
       | Some existing \<Rightarrow> first_reject
           [reject_if (\<not> ch_IsOpen existing \<and> ch_revealTxHash existing = tx_hash tx)
              (Duplicate ''bad-txns-opoi-challenge-reveal-already-known''),
            reject_if (\<not> ch_IsOpen existing) (DoS 10 ''bad-txns-opoi-challenge-no-open-commit''),
            reject_if (ch_challengerAddress existing \<noteq> opoiRequester tx)
              (DoS 10 ''bad-txns-opoi-challenge-challenger-mismatch''),
            reject_if (ch_commitHash existing \<noteq> HexStr (sha256 e (opoiProofData tx @ opoiChallengeNonce tx)))
              (DoS 100 ''bad-txns-opoi-challenge-reveal-mismatch'')]),
      reject_if (bad_sig e (opoiRequester tx) (challenge_reveal_sigMsg tx) (opoiSig tx))
        (DoS 100 ''bad-txns-opoi-challenge-bad-sig'')]"

definition check_challenge :: "opoi_env \<Rightarrow> OPoICache \<Rightarrow> CTransaction \<Rightarrow> reject option" where
  "check_challenge e c tx = first_reject
     [reject_if (opoiRequestId tx = '''') (DoS 10 ''bad-txns-opoi-challenge-no-request-id''),
      reject_if (opoiRequester tx = '''') (DoS 10 ''bad-txns-opoi-challenge-no-challenger''),
      reject_if (COutPoint_IsNull (opoiChallengerCollateralIn tx)) (DoS 10 ''bad-txns-opoi-challenge-no-collateral''),
      live e (reject_if (GetResponse c (opoiRequestId tx) = None) (DoS 10 ''bad-txns-opoi-challenge-unknown-response'')),
      (if opoiChallengePhase tx = 0 then check_challenge_commit e c tx else check_challenge_reveal e c tx)]"

definition check_model_register :: "opoi_env \<Rightarrow> OPoICache \<Rightarrow> CTransaction \<Rightarrow> reject option" where
  "check_model_register e c tx = first_reject
     [reject_if (opoiModelId tx = '''') (DoS 10 ''bad-txns-opoi-model-no-id''),
      reject_if (opoiRequester tx = '''') (DoS 10 ''bad-txns-opoi-model-no-proposer''),
      reject_if (opoiModelArchType tx \<noteq> OPOI_ARCH_DENSE \<and> opoiModelArchType tx \<noteq> OPOI_ARCH_MOE \<and>
          opoiModelArchType tx \<noteq> OPOI_ARCH_HYBRID)
        (DoS 10 ''bad-txns-opoi-model-bad-arch-type''),
      (if opoiModelArchType tx = OPOI_ARCH_DENSE
       then reject_if (opoiModelNumExperts tx \<noteq> 0 \<or> opoiModelTopKExperts tx \<noteq> 0 \<or> opoiModelExpertPomRoots tx \<noteq> [])
              (DoS 10 ''bad-txns-opoi-model-dense-has-experts'')
       else first_reject
         [reject_if (opoiModelNumExperts tx = 0 \<or> opoiModelTopKExperts tx = 0 \<or>
              opoiModelNumExperts tx < opoiModelTopKExperts tx)
            (DoS 10 ''bad-txns-opoi-model-bad-expert-count''),
          reject_if (length (opoiModelExpertPomRoots tx) \<noteq> unat (opoiModelNumExperts tx))
            (DoS 10 ''bad-txns-opoi-model-expert-root-count-mismatch'')]),
      reject_if (opoiModelNumLayers tx = 0) (DoS 10 ''bad-txns-opoi-model-zero-layers''),
      reject_if (opoiModelNumDenseShards tx = 0 \<or> opoiModelNumLayers tx < opoiModelNumDenseShards tx)
        (DoS 10 ''bad-txns-opoi-model-bad-shard-count''),
      reject_if (uint256_IsNull (opoiPomRoot tx)) (DoS 10 ''bad-txns-opoi-model-no-pom-root''),
      live e (case GetModelManifest c (opoiModelId tx) of
         None \<Rightarrow> None
       | Some existing \<Rightarrow>
           if mm_txHash existing = tx_hash tx then Some (Duplicate ''bad-txns-opoi-model-already-known'')
           else Some (DoS 10 ''bad-txns-opoi-model-already-registered'')),
      live e (reject_if (\<not> IsActiveStaker c (opoiRequester tx)) (DoS 10 ''bad-txns-opoi-model-proposer-not-staked'')),
      reject_if (bad_sig e (opoiRequester tx) (model_register_sigMsg tx) (opoiSig tx))
        (DoS 100 ''bad-txns-opoi-model-bad-sig'')]"

definition check_model_vote :: "opoi_env \<Rightarrow> OPoICache \<Rightarrow> CTransaction \<Rightarrow> reject option" where
  "check_model_vote e c tx = first_reject
     [reject_if (opoiModelId tx = '''') (DoS 10 ''bad-txns-opoi-model-vote-no-id''),
      reject_if (opoiRequester tx = '''') (DoS 10 ''bad-txns-opoi-model-vote-no-voter''),
      live e (first_reject
        [reject_if (IsHarmlessModelVoteRedelivery c (opoiModelId tx) (opoiRequester tx) (tx_hash tx))
           (Duplicate ''bad-txns-opoi-model-vote-already-known''),
         (case GetModelManifest c (opoiModelId tx) of
            None \<Rightarrow> Some (DoS 10 ''bad-txns-opoi-model-vote-unknown-model'')
          | Some m \<Rightarrow> reject_if (\<not> mm_IsVoting m) (DoS 10 ''bad-txns-opoi-model-vote-window-closed'')),
         reject_if (\<not> IsActiveStaker c (opoiRequester tx)) (DoS 10 ''bad-txns-opoi-model-vote-not-staked'')]),
      reject_if (bad_sig e (opoiRequester tx) (model_vote_sigMsg tx) (opoiSig tx))
        (DoS 100 ''bad-txns-opoi-model-vote-bad-sig'')]"

definition check_coordinator_claim :: "opoi_env \<Rightarrow> Params \<Rightarrow> OPoICache \<Rightarrow> CTransaction \<Rightarrow> reject option" where
  "check_coordinator_claim e params c tx = first_reject
     [reject_if (opoiRequestId tx = '''') (DoS 10 ''bad-txns-opoi-coord-no-request-id''),
      reject_if (opoiMinerAddress tx = '''') (DoS 10 ''bad-txns-opoi-coord-no-miner''),
      live e (first_reject
        [reject_if (\<not> IsActiveStaker c (opoiMinerAddress tx)) (DoS 10 ''bad-txns-opoi-coord-not-staked''),
         reject_if (GetRequest c (opoiRequestId tx) = None) (DoS 10 ''bad-txns-opoi-coord-unknown-request''),
         (if IsClaimedCoordinator c (opoiRequestId tx) (opoiMinerAddress tx) then None
          else case GetOPoIRequestSeedHash e c (opoiRequestId tx) of
            None \<Rightarrow> Some (DoS 10 ''bad-txns-opoi-coord-no-seed'')
          | Some seedHash \<Rightarrow> vrf_reject ''bad-txns-opoi-coord-''
              (CheckVrfSortition e c (opoiMinerAddress tx) (opoiRequestId tx) seedHash ''COORD'' (opoiVrfProof tx)
                 (nOPoICoordinatorThreshold params)))]),
      reject_if (bad_sig e (opoiMinerAddress tx) (coordinator_claim_sigMsg tx) (opoiSig tx))
        (DoS 100 ''bad-txns-opoi-coord-bad-sig'')]"

text \<open>The cross-check of a result against the node it names in the model's graph.\<close>

definition check_shard_node :: "Params \<Rightarrow> OPoICache \<Rightarrow> CTransaction \<Rightarrow> ModelManifest \<Rightarrow> reject option" where
  "check_shard_node params c tx manifest =
     (let meg = BuildModelExecutionGraph manifest (ShouldCollapseToTitanSingleNode c params manifest)
      in if length meg \<le> unat (opoiShardIndex tx) then Some (DoS 10 ''bad-txns-opoi-shard-index-out-of-range'')
         else let d = meg ! unat (opoiShardIndex tx)
              in if sd_shardType d \<noteq> OPOI_SHARD_EXPERT then None
                 else first_reject
                   [reject_if (\<not> IsExpertShardWithinManifestBounds d manifest) (DoS 100 ''bad-txns-opoi-shard-expert-bounds''),
                    (case GetStake c (opoiMinerAddress tx) of
                       None \<Rightarrow> Some (DoS 10 ''bad-txns-opoi-shard-expert-not-hosted'')
                     | Some stake \<Rightarrow> reject_if (\<not> HostsExpert stake (sd_expertId d))
                         (DoS 10 ''bad-txns-opoi-shard-expert-not-hosted'')),
                    reject_if (uint256_IsNull (opoiCommitment tx)) (DoS 10 ''bad-txns-opoi-shard-expert-no-router-hash'')])"

definition check_shard_result :: "opoi_env \<Rightarrow> Params \<Rightarrow> OPoICache \<Rightarrow> CTransaction \<Rightarrow> reject option" where
  "check_shard_result e params c tx = first_reject
     [reject_if (opoiRequestId tx = '''') (DoS 10 ''bad-txns-opoi-shard-no-request-id''),
      reject_if (opoiMinerAddress tx = '''') (DoS 10 ''bad-txns-opoi-shard-no-miner''),
      reject_if (uint256_IsNull (opoiResponseHash tx)) (DoS 10 ''bad-txns-opoi-shard-no-output-hash''),
      live e (reject_if (\<not> IsActiveStaker c (opoiMinerAddress tx)) (DoS 10 ''bad-txns-opoi-shard-not-staked'')),
      live e (case GetRequest c (opoiRequestId tx) of
         None \<Rightarrow> Some (DoS 10 ''bad-txns-opoi-shard-unknown-request'')
       | Some req \<Rightarrow> first_reject
           [(case GetOPoIRequestSeedHash e c (opoiRequestId tx) of
               None \<Rightarrow> Some (DoS 10 ''bad-txns-opoi-shard-no-seed'')
             | Some seedHash \<Rightarrow> vrf_reject ''bad-txns-opoi-shard-''
                 (CheckVrfSortition e c (opoiMinerAddress tx) (opoiRequestId tx) seedHash
                    (''SHARD'' @ dec_u32 (opoiShardIndex tx)) (opoiVrfProof tx) (nOPoIShardThreshold params))),
            (case active_manifest c (rq_model req) of
               None \<Rightarrow> None
             | Some manifest \<Rightarrow> check_shard_node params c tx manifest)]),
      reject_if (bad_sig e (opoiMinerAddress tx) (shard_result_sigMsg tx) (opoiSig tx))
        (DoS 100 ''bad-txns-opoi-shard-bad-sig'')]"

definition check_auditor_target :: "Params \<Rightarrow> OPoICache \<Rightarrow> CTransaction \<Rightarrow> reject option" where
  "check_auditor_target params c tx =
     (case GetRequest c (opoiRequestId tx) of
        None \<Rightarrow> Some (DoS 10 ''bad-txns-opoi-auditor-not-verifiable'')
      | Some req \<Rightarrow>
          if opoiShardIndex tx = OPOI_AUDITOR_VERIFY_NO_SHARD then
            (if rq_IsVerifiable req then None
             else case GetResponse c (opoiRequestId tx) of
               None \<Rightarrow> Some (DoS 10 ''bad-txns-opoi-auditor-not-verifiable'')
             | Some resp \<Rightarrow> reject_if (rs_auditSelected resp = 0) (DoS 10 ''bad-txns-opoi-auditor-not-verifiable''))
          else case active_manifest c (rq_model req) of
            None \<Rightarrow> Some (DoS 10 ''bad-txns-opoi-auditor-shard-unknown-model'')
          | Some manifest \<Rightarrow> reject_if (\<not> IsAuditorVerificationShardIndexValid (opoiShardIndex tx) manifest
                (ShouldCollapseToTitanSingleNode c params manifest))
              (DoS 10 ''bad-txns-opoi-auditor-shard-index-out-of-range''))"

definition check_auditor_verify :: "opoi_env \<Rightarrow> Params \<Rightarrow> OPoICache \<Rightarrow> CTransaction \<Rightarrow> reject option" where
  "check_auditor_verify e params c tx = first_reject
     [reject_if (opoiRequestId tx = '''') (DoS 10 ''bad-txns-opoi-auditor-no-request-id''),
      reject_if (opoiAuditorAddress tx = '''') (DoS 10 ''bad-txns-opoi-auditor-no-address''),
      reject_if (opoiAuditorVerifyResult tx \<noteq> AUDITOR_VERIFY_PASS \<and> opoiAuditorVerifyResult tx \<noteq> AUDITOR_VERIFY_FAIL \<and>
          opoiAuditorVerifyResult tx \<noteq> AUDITOR_VERIFY_TIMEOUT)
        (DoS 10 ''bad-txns-opoi-auditor-invalid-result''),
      reject_if (COutPoint_IsNull (opoiAuditorCollateralIn tx)) (DoS 10 ''bad-txns-opoi-auditor-no-collateral''),
      live e (check_auditor_target params c tx),
      live e (if IsLockedUTXO c (opoiAuditorCollateralIn tx) then
         (if IsHarmlessRedelivery c (opoiAuditorCollateralIn tx) (tx_hash tx)
          then Some (Duplicate ''bad-txns-opoi-auditor-already-known'')
          else Some (DoS 100 ''bad-txns-opoi-auditor-collateral-locked''))
        else None),
      reject_if (bad_sig e (opoiAuditorAddress tx) (auditor_verify_sigMsg tx) (opoiSig tx))
        (DoS 100 ''bad-txns-opoi-auditor-bad-sig'')]"

section \<open>Transactions and blocks\<close>

definition check_by_type :: "opoi_env \<Rightarrow> Params \<Rightarrow> OPoICache \<Rightarrow> CTransaction \<Rightarrow> reject option" where
  "check_by_type e params c tx =
     (if nType tx = OPOI_REQUEST_TX_TYPE then check_request e params c tx
      else if nType tx = OPOI_RESPONSE_TX_TYPE then check_response e params c tx
      else if nType tx = OPOI_STAKE_TX_TYPE then check_stake e c tx
      else if nType tx = OPOI_UNSTAKE_TX_TYPE then check_unstake e c tx
      else if nType tx = OPOI_RENEW_TX_TYPE then check_renew e c tx
      else if nType tx = OPOI_CHALLENGE_TX_TYPE then check_challenge e c tx
      else if nType tx = OPOI_MODEL_REGISTER_TX_TYPE then check_model_register e c tx
      else if nType tx = OPOI_MODEL_VOTE_TX_TYPE then check_model_vote e c tx
      else if nType tx = OPOI_COORDINATOR_CLAIM_TX_TYPE then check_coordinator_claim e params c tx
      else if nType tx = OPOI_SHARD_RESULT_TX_TYPE then check_shard_result e params c tx
      else if nType tx = OPOI_AUDITOR_VERIFY_TX_TYPE then check_auditor_verify e params c tx
      else Some (DoS 10 ''bad-txns-opoi-invalid-type''))"

definition CheckOPoITransaction :: "opoi_env \<Rightarrow> Params \<Rightarrow> OPoICache \<Rightarrow> CTransaction \<Rightarrow> reject option" where
  "CheckOPoITransaction e params c tx =
     (if nVersion tx \<noteq> OPOI_TX_VERSION then None
      else if vin tx \<noteq> [] \<or> vout tx \<noteq> [] \<or> vJoinSplit tx \<noteq> [] then Some (DoS 10 ''bad-txns-opoi-not-empty'')
      else check_by_type e params c tx)"

definition count_type :: "int \<Rightarrow> CTransaction list \<Rightarrow> int" where
  "count_type t vtx = foldl (\<lambda>n tx. if nVersion tx = OPOI_TX_VERSION \<and> nType tx = t then n + 1 else n) 0 vtx"

definition CheckOPoIBlockCaps :: "CTransaction list \<Rightarrow> Params \<Rightarrow> reject option" where
  "CheckOPoIBlockCaps vtx params = first_reject
     [reject_if (0 < nOPoIMaxRequestsPerBlock params \<and>
          nOPoIMaxRequestsPerBlock params < count_type OPOI_REQUEST_TX_TYPE vtx)
        (DoS 10 ''bad-cb-opoi-too-many-requests''),
      reject_if (0 < nOPoIMaxResponsesPerBlock params \<and>
          nOPoIMaxResponsesPerBlock params < count_type OPOI_RESPONSE_TX_TYPE vtx)
        (DoS 10 ''bad-cb-opoi-too-many-responses'')]"

section \<open>Reading an acceptance\<close>

lemma reject_if_None [simp]: "reject_if b r = None \<longleftrightarrow> \<not> b"
  by (simp add: reject_if_def)

lemma first_reject_Cons_None [simp]: "first_reject (x # xs) = None \<longleftrightarrow> x = None \<and> first_reject xs = None"
  by (simp split: option.splits)

lemma live_None [simp]: "live e x = None \<longleftrightarrow> fIsVerifying e \<or> x = None"
  by (simp add: live_def)

lemma vrf_reject_None [simp]: "vrf_reject s r = None \<longleftrightarrow> r = None"
  by (simp add: vrf_reject_def split: option.splits)

declare first_reject.simps(2) [simp del]

lemma first_reject_passes: "first_reject (None # xs) = first_reject xs"
  by (simp add: first_reject.simps)

lemma first_reject_stops: "first_reject (Some r # xs) = Some r"
  by (simp add: first_reject.simps)

lemma accepted_cases:
  assumes "CheckOPoITransaction e params c tx = None" "nVersion tx = OPOI_TX_VERSION"
  obtains (request) "nType tx = OPOI_REQUEST_TX_TYPE" "check_request e params c tx = None"
  | (response) "nType tx = OPOI_RESPONSE_TX_TYPE" "check_response e params c tx = None"
  | (stake) "nType tx = OPOI_STAKE_TX_TYPE" "check_stake e c tx = None"
  | (unstake) "nType tx = OPOI_UNSTAKE_TX_TYPE" "check_unstake e c tx = None"
  | (renew) "nType tx = OPOI_RENEW_TX_TYPE" "check_renew e c tx = None"
  | (challenge) "nType tx = OPOI_CHALLENGE_TX_TYPE" "check_challenge e c tx = None"
  | (model_register) "nType tx = OPOI_MODEL_REGISTER_TX_TYPE" "check_model_register e c tx = None"
  | (model_vote) "nType tx = OPOI_MODEL_VOTE_TX_TYPE" "check_model_vote e c tx = None"
  | (coordinator_claim) "nType tx = OPOI_COORDINATOR_CLAIM_TX_TYPE" "check_coordinator_claim e params c tx = None"
  | (shard_result) "nType tx = OPOI_SHARD_RESULT_TX_TYPE" "check_shard_result e params c tx = None"
  | (auditor_verify) "nType tx = OPOI_AUDITOR_VERIFY_TX_TYPE" "check_auditor_verify e params c tx = None"
proof -
  from assms have "check_by_type e params c tx = None" by (simp add: CheckOPoITransaction_def split: if_splits)
  then show thesis unfolding check_by_type_def using that by (simp only: simp_thms split: if_split_asm) simp_all
qed

section \<open>Signatures\<close>

text \<open>The address a transaction acts for, and what that address signed.\<close>

definition signer :: "CTransaction \<Rightarrow> address" where
  "signer tx =
     (if nType tx = OPOI_REQUEST_TX_TYPE \<or> nType tx = OPOI_CHALLENGE_TX_TYPE \<or>
         nType tx = OPOI_MODEL_REGISTER_TX_TYPE \<or> nType tx = OPOI_MODEL_VOTE_TX_TYPE then opoiRequester tx
      else if nType tx = OPOI_AUDITOR_VERIFY_TX_TYPE then opoiAuditorAddress tx
      else opoiMinerAddress tx)"

definition signed_message :: "CTransaction \<Rightarrow> string" where
  "signed_message tx =
     (if nType tx = OPOI_REQUEST_TX_TYPE then request_sigMsg tx
      else if nType tx = OPOI_RESPONSE_TX_TYPE then
        (if opoiResponsePhase tx = 0 then response_commit_sigMsg tx else response_reveal_sigMsg tx)
      else if nType tx = OPOI_STAKE_TX_TYPE then stake_sigMsg tx
      else if nType tx = OPOI_UNSTAKE_TX_TYPE then unstake_sigMsg tx
      else if nType tx = OPOI_RENEW_TX_TYPE then renew_sigMsg tx
      else if nType tx = OPOI_CHALLENGE_TX_TYPE then
        (if opoiChallengePhase tx = 0 then challenge_commit_sigMsg tx else challenge_reveal_sigMsg tx)
      else if nType tx = OPOI_MODEL_REGISTER_TX_TYPE then model_register_sigMsg tx
      else if nType tx = OPOI_MODEL_VOTE_TX_TYPE then model_vote_sigMsg tx
      else if nType tx = OPOI_COORDINATOR_CLAIM_TX_TYPE then coordinator_claim_sigMsg tx
      else if nType tx = OPOI_SHARD_RESULT_TX_TYPE then shard_result_sigMsg tx
      else auditor_verify_sigMsg tx)"

lemmas sig_cases = signer_def signed_message_def opoi_types

lemma accepted_not_bad_sig:
  assumes "CheckOPoITransaction e params c tx = None" "nVersion tx = OPOI_TX_VERSION"
  shows "\<not> bad_sig e (signer tx) (signed_message tx) (opoiSig tx)"
  using assms
proof (cases rule: accepted_cases)
  case request
  then show ?thesis by (simp add: check_request_def sig_cases)
next
  case response
  then show ?thesis
    by (simp add: check_response_def check_response_commit_def check_response_reveal_def sig_cases split: if_splits)
next
  case stake
  then show ?thesis by (simp add: check_stake_def sig_cases)
next
  case unstake
  then show ?thesis by (simp add: check_unstake_def sig_cases)
next
  case renew
  then show ?thesis by (simp add: check_renew_def sig_cases)
next
  case challenge
  then show ?thesis
    by (simp add: check_challenge_def check_challenge_commit_def check_challenge_reveal_def sig_cases split: if_splits)
next
  case model_register
  then show ?thesis by (simp add: check_model_register_def sig_cases)
next
  case model_vote
  then show ?thesis by (simp add: check_model_vote_def sig_cases)
next
  case coordinator_claim
  then show ?thesis by (simp add: check_coordinator_claim_def sig_cases)
next
  case shard_result
  then show ?thesis by (simp add: check_shard_result_def sig_cases)
next
  case auditor_verify
  then show ?thesis by (simp add: check_auditor_verify_def sig_cases)
qed

text \<open>
  C35. No OPoI transaction passes the check without a signature, by the key of the address it
  acts for, over the message that belongs to its type and phase; in particular that address
  decodes to a key. The check never depends on the state of the node for this, so it also holds
  while stored blocks are re-verified.
\<close>

theorem accepted_signed:
  assumes "CheckOPoITransaction e params c tx = None" "nVersion tx = OPOI_TX_VERSION"
  shows "\<exists>pk. recover_compact e (hash256 e (ser_string strMessageMagic @ ser_string (signed_message tx))) (opoiSig tx) = Some pk \<and>
     decode_keyid e (signer tx) = Some (key_id e pk) \<and> opoiSig tx \<noteq> []"
  using accepted_not_bad_sig [OF assms]
  by (auto simp: bad_sig_def VerifyOPoISig_def split: if_splits option.splits)

text \<open>An auditor's verdict on a whole response, signed as the sample primitives read it.\<close>

definition sample_audit_tx :: CTransaction where
  "sample_audit_tx = CTransaction_init\<lparr>nVersion := OPOI_TX_VERSION, nType := OPOI_AUDITOR_VERIFY_TX_TYPE, tx_hash := [3],
     opoiRequestId := ''r'', opoiAuditorAddress := ''a'', opoiAuditorCollateralIn := COutPoint [3] 1,
     opoiShardIndex := OPOI_AUDITOR_VERIFY_NO_SHARD, opoiSig := str_bytes ''a''\<rparr>"

definition sample_verifiable :: OPoICache where
  "sample_verifiable = OPoICache_init\<lparr>mapRequests := [(''r'', sample_request\<lparr>rq_taskType := OPOI_TASK_VERIFIABLE\<rparr>)]\<rparr>"

lemma sample_signature: "bad_sig sample_env a m sig \<longleftrightarrow> sig = [] \<or> sig \<noteq> str_bytes a"
  by (simp add: bad_sig_def VerifyOPoISig_def sample_env_def)

lemma sample_not_verifying [simp]: "\<not> fIsVerifying sample_env"
  by (simp add: sample_env_def)

lemma sample_audit_accepted: "CheckOPoITransaction sample_env regtest_params sample_verifiable sample_audit_tx = None"
  by (simp add: CheckOPoITransaction_def check_by_type_def check_auditor_verify_def check_auditor_target_def
      sample_signature sample_audit_tx_def sample_verifiable_def CTransaction_init_def OPoICache_init_def opoi_types
      verdicts COutPoint_IsNull_def GetRequest_def IsLockedUTXO_def rq_IsVerifiable_def str_bytes_def)

theorem accepted_signed_witness:
  "\<exists>pk. decode_keyid sample_env (opoiAuditorAddress sample_audit_tx) = Some (key_id sample_env pk)"
  using accepted_signed [OF sample_audit_accepted]
  by (auto simp: sample_audit_tx_def signer_def opoi_types)

section \<open>Commit and reveal\<close>

definition is_response :: "CTransaction \<Rightarrow> bool" where
  "is_response tx \<longleftrightarrow> nVersion tx = OPOI_TX_VERSION \<and> nType tx = OPOI_RESPONSE_TX_TYPE"

lemma accepted_response:
  "is_response tx \<Longrightarrow> CheckOPoITransaction e params c tx = None \<Longrightarrow> check_response e params c tx = None"
  by (auto simp: is_response_def CheckOPoITransaction_def check_by_type_def opoi_types split: if_splits)

text \<open>
  C36. Commit and reveal of responses. An accepted reveal belongs to a known request whose commit
  window is closed, is the miner's first for it, and its contents hash to the commit that the
  miner made; and in the same state no commit for that request is accepted from anybody, so an
  answer is never public while it can still be copied into a new commit.
\<close>

theorem commit_reveal_exclusive:
  assumes "\<not> fIsVerifying e"
    and "is_response tx" "opoiResponsePhase tx \<noteq> 0" "CheckOPoITransaction e params c tx = None"
  shows "(\<exists>req. GetRequest c (opoiRequestId tx) = Some req \<and> rq_commitWindowClosed req \<and>
       sm_find (rq_responseReveals req) (opoiMinerAddress tx) = None \<and>
       GetResponseCommit c (opoiRequestId tx) (opoiMinerAddress tx) = Some (HexStr (sha256 e (response_preimage tx)))) \<and>
     (\<forall>tx'. is_response tx' \<and> opoiResponsePhase tx' = 0 \<and> opoiRequestId tx' = opoiRequestId tx \<longrightarrow>
       CheckOPoITransaction e params c tx' \<noteq> None)"
proof -
  have reveal: "check_response_reveal e params c tx = None"
    using accepted_response [OF assms(2,4)] assms(3) by (simp add: check_response_def)
  with assms(1) obtain req where req: "GetRequest c (opoiRequestId tx) = Some req" "rq_commitWindowClosed req"
    "sm_find (rq_responseReveals req) (opoiMinerAddress tx) = None"
    by (auto simp: check_response_reveal_def split: option.splits)
  moreover from reveal assms(1) have
    "GetResponseCommit c (opoiRequestId tx) (opoiMinerAddress tx) = Some (HexStr (sha256 e (response_preimage tx)))"
    by (auto simp: check_response_reveal_def split: option.splits)
  moreover have "CheckOPoITransaction e params c tx' \<noteq> None"
    if "is_response tx'" "opoiResponsePhase tx' = 0" "opoiRequestId tx' = opoiRequestId tx" for tx'
    using accepted_response [of tx' e params c] req assms(1) that
    by (auto simp: check_response_def check_response_commit_def)
  ultimately show ?thesis by blast
qed

text \<open>A reveal of 123 tokens by a selected staker whose commit is on record.\<close>

definition sample_reveal_tx :: CTransaction where
  "sample_reveal_tx = CTransaction_init\<lparr>nVersion := OPOI_TX_VERSION, nType := OPOI_RESPONSE_TX_TYPE, tx_hash := [3],
     opoiRequestId := ''r'', opoiMinerAddress := ''a'', opoiResponsePhase := 1, opoiResponseHash := replicate 32 1,
     opoiCommitment := replicate 32 2, opoiTokenCount := 123, opoiResponseNonce := [9], opoiVrfProof := replicate 81 0,
     opoiSig := str_bytes ''a''\<rparr>"

definition sample_committed :: OPoICache where
  "sample_committed = OPoICache_init\<lparr>
     mapRequests := [(''r'', sample_request\<lparr>rq_commitWindowClosed := True, rq_vrfActiveStakers := 1\<rparr>)],
     mapStakes := [(''a'', (sample_stake ''a'')\<lparr>st_minerPubKey := replicate 33 2\<rparr>)],
     mapResponseCommits := [(''r:a'', HexStr (sha256 sample_env (response_preimage sample_reveal_tx)))]\<rparr>"

lemma sample_committed_maps:
  "GetRequest sample_committed ''r'' = Some (sample_request\<lparr>rq_commitWindowClosed := True, rq_vrfActiveStakers := 1\<rparr>)"
  "GetStake sample_committed ''a'' = Some ((sample_stake ''a'')\<lparr>st_minerPubKey := replicate 33 2\<rparr>)"
  "GetResponseCommit sample_committed ''r'' ''a'' = Some (HexStr (sha256 sample_env (response_preimage sample_reveal_tx)))"
  "IsActiveStaker sample_committed ''a''"
  by (simp_all add: sample_committed_def GetRequest_def GetStake_def GetResponseCommit_def commit_key_def
      IsActiveStaker_def sample_stake_def st_IsActive_def)

lemma le_bytes_0: "le_bytes k 0 = replicate k 0"
  by (induction k) simp_all

lemma UintToArith256_eq_0: "length h = 32 \<Longrightarrow> UintToArith256 h = 0 \<longleftrightarrow> h = replicate 32 0"
proof -
  assume h: "length h = 32"
  have 0: "ArithToUint256 0 = replicate 32 0" unfolding ArithToUint256_def unat_0 le_bytes_0 ..
  show ?thesis
    using ArithToUint256_UintToArith256 [OF h] UintToArith256_ArithToUint256 [of 0] 0 by metis
qed

lemma full_threshold: "UintToArith256 (replicate 32 0) < UintToArith256 (SetHex (replicate 64 CHR ''f''))"
proof -
  have "char_of (102 :: nat) = CHR ''f''" by code_simp
  then have f: "HexStr (replicate n 255) = replicate (2 * n) CHR ''f''" for n
    by (induction n) (simp_all add: HexStr_Nil HexStr_Cons digit_char_def)
  have hex: "replicate 64 CHR ''f'' = GetHex (replicate 32 255)"
    unfolding GetHex_def rev_replicate f by simp
  have set: "SetHex (replicate 64 CHR ''f'') = replicate 32 255" unfolding hex by (rule SetHex_GetHex) simp
  have "UintToArith256 (replicate 32 255) \<noteq> 0"
    by (subst UintToArith256_eq_0) (simp_all only: length_replicate replicate_eq_replicate, simp)
  moreover have "UintToArith256 (replicate 32 0) = 0" by (subst UintToArith256_eq_0) (simp_all only: length_replicate)
  ultimately show ?thesis unfolding set by (metis word_gt_0)
qed

lemma sample_selected:
  "GetOPoIRequestSeedHash sample_env sample_committed ''r'' = Some (replicate 32 5)"
  "CheckVrfSortition sample_env sample_committed ''a'' ''r'' seed '''' (replicate 81 0)
     (OPoIVrfThresholdForRequest sample_committed ''r'' regtest_params) = None"
  using full_threshold
  by (simp_all add: GetOPoIRequestSeedHash_def CheckVrfSortition_def OPoIVrfThresholdForRequest_def sample_committed_maps
      sample_request_def sample_env_def regtest_params_def OPOI_VRF_PROOF_SIZE_def Let_def)

lemma sample_reveal_fields:
  "opoiRequestId sample_reveal_tx = ''r''" "opoiMinerAddress sample_reveal_tx = ''a''" "opoiResponsePhase sample_reveal_tx = 1"
  "opoiVrfProof sample_reveal_tx = replicate 81 0" "opoiSig sample_reveal_tx = str_bytes ''a''" "opoiResponseNonce sample_reveal_tx = [9]"
  "nVersion sample_reveal_tx = OPOI_TX_VERSION" "nType sample_reveal_tx = OPOI_RESPONSE_TX_TYPE" "vin sample_reveal_tx = []"
  "vout sample_reveal_tx = []" "vJoinSplit sample_reveal_tx = []" "\<not> uint256_IsNull (opoiResponseHash sample_reveal_tx)"
  by (simp_all add: sample_reveal_tx_def CTransaction_init_def uint256_IsNull_def list_all_iff)

lemma sample_reveal_accepted: "CheckOPoITransaction sample_env regtest_params sample_committed sample_reveal_tx = None"
  by (simp add: CheckOPoITransaction_def check_by_type_def check_response_def check_response_reveal_def sample_reveal_fields
      sample_committed_maps sample_selected sample_signature opoi_types rq_IsExpired_def str_bytes_def sample_request_def
      sample_stake_def)

lemma sample_reveal_response: "is_response sample_reveal_tx" "opoiResponsePhase sample_reveal_tx \<noteq> 0"
  by (simp_all add: is_response_def sample_reveal_tx_def)

theorem commit_reveal_exclusive_witness:
  "CheckOPoITransaction sample_env regtest_params sample_committed
     (sample_reveal_tx\<lparr>opoiResponsePhase := 0, opoiResponseCommitHash := replicate 32 7\<rparr>) \<noteq> None"
  using commit_reveal_exclusive [OF sample_not_verifying sample_reveal_response sample_reveal_accepted]
  by (auto simp: is_response_def sample_reveal_tx_def)

section \<open>What the signatures and commitments leave open\<close>

lemma dec_nat_snoc: "10 \<le> n \<Longrightarrow> dec_nat n = dec_nat (n div 10) @ [digit_char (n mod 10)]"
  by (subst dec_nat.simps) simp

lemma str_bytes_append: "str_bytes (s @ t) = str_bytes s @ str_bytes t"
  by (simp add: str_bytes_def)

text \<open>The reveal with the last digit of the token count moved into the nonce.\<close>

definition shift_token_digit :: "CTransaction \<Rightarrow> bytes \<Rightarrow> CTransaction" where
  "shift_token_digit tx sig = tx\<lparr>opoiTokenCount := opoiTokenCount tx div 10,
     opoiResponseNonce := str_bytes [digit_char (unat (opoiTokenCount tx) mod 10)] @ opoiResponseNonce tx, opoiSig := sig\<rparr>"

lemma shift_preimage:
  assumes "10 \<le> opoiTokenCount tx"
  shows "response_preimage (shift_token_digit tx sig) = response_preimage tx"
proof -
  have "10 \<le> unat (opoiTokenCount tx)" using assms by (simp add: word_le_nat_alt)
  moreover have "unat (opoiTokenCount tx div 10) = unat (opoiTokenCount tx) div 10" by (simp add: unat_div)
  ultimately show ?thesis
    by (simp add: response_preimage_def shift_token_digit_def dec_u32_def dec_nat_snoc [of "unat (opoiTokenCount tx)"] str_bytes_append)
qed

text \<open>
  C38. The commit of a response does not bind its token count, which the payment is computed from:
  the decimal count and the nonce are hashed without a separator, so a reveal is accepted for the
  same commit with the last digit of the count moved into the nonce, if the miner signs it. A
  miner who commits to a long count can choose any of its prefixes when revealing.
\<close>

theorem reveal_token_count_open:
  assumes "is_response tx" "opoiResponsePhase tx \<noteq> 0" "CheckOPoITransaction e params c tx = None"
    and "10 \<le> opoiTokenCount tx"
    and "\<not> bad_sig e (opoiMinerAddress tx) (response_reveal_sigMsg (shift_token_digit tx sig)) sig"
  shows "CheckOPoITransaction e params c (shift_token_digit tx sig) = None \<and>
     opoiTokenCount (shift_token_digit tx sig) \<noteq> opoiTokenCount tx"
proof -
  let ?tx = "shift_token_digit tx sig"
  have same: "opoiRequestId ?tx = opoiRequestId tx" "opoiMinerAddress ?tx = opoiMinerAddress tx"
    "opoiResponsePhase ?tx = opoiResponsePhase tx" "opoiResponseHash ?tx = opoiResponseHash tx"
    "opoiVrfProof ?tx = opoiVrfProof tx" "opoiSig ?tx = sig" "opoiResponseNonce ?tx \<noteq> []"
    "nVersion ?tx = nVersion tx" "nType ?tx = nType tx" "vin ?tx = vin tx" "vout ?tx = vout tx" "vJoinSplit ?tx = vJoinSplit tx"
    by (simp_all add: shift_token_digit_def str_bytes_def)
  have "check_response e params c ?tx = None"
    using accepted_response [OF assms(1,3)] assms(2,5)
    by (auto simp: check_response_def check_response_reveal_def same shift_preimage [OF assms(4)] split: option.splits)
  with assms(1,3) have "CheckOPoITransaction e params c ?tx = None"
    by (auto simp: CheckOPoITransaction_def check_by_type_def is_response_def same opoi_types split: if_splits)
  moreover have "unat (opoiTokenCount tx div 10) < unat (opoiTokenCount tx)"
    using assms(4) by (simp add: unat_div word_le_nat_alt)
  ultimately show ?thesis by (auto simp: shift_token_digit_def)
qed

theorem reveal_token_count_open_witness:
  "CheckOPoITransaction sample_env regtest_params sample_committed (shift_token_digit sample_reveal_tx (str_bytes ''a'')) = None \<and>
   opoiTokenCount (shift_token_digit sample_reveal_tx (str_bytes ''a'')) = 12"
proof -
  have "10 \<le> opoiTokenCount sample_reveal_tx" "opoiMinerAddress sample_reveal_tx = ''a''"
    "opoiTokenCount (shift_token_digit sample_reveal_tx (str_bytes ''a'')) = 12"
    by (simp_all add: sample_reveal_tx_def shift_token_digit_def)
  moreover have "\<not> bad_sig sample_env ''a'' m (str_bytes ''a'')" for m
    by (simp add: sample_signature str_bytes_def)
  ultimately show ?thesis
    using reveal_token_count_open [OF sample_reveal_response sample_reveal_accepted, of "str_bytes ''a''"] by simp
qed

section \<open>Redelivery\<close>

text \<open>A peer is penalised for a transaction it relays when the rejection has a positive score.\<close>

definition unpenalised :: "reject option \<Rightarrow> bool" where
  "unpenalised r = (case r of None \<Rightarrow> True | Some (Reject dos _ _) \<Rightarrow> dos = 0 | Some Abort \<Rightarrow> False)"

lemma unpenalised_simps [simp]:
  "unpenalised None" "unpenalised (Some (Duplicate s))"
  by (simp_all add: unpenalised_def)

lemma unpenalised_first:
  "unpenalised (first_reject (x # xs)) \<longleftrightarrow> (case x of None \<Rightarrow> unpenalised (first_reject xs) | Some r \<Rightarrow> unpenalised (Some r))"
  by (simp add: first_reject.simps split: option.splits)

lemma verifying_stateless:
  assumes "fIsVerifying e"
  shows "CheckOPoITransaction e params c tx = CheckOPoITransaction e params c' tx"
proof -
  have live: "live e x = None" for x using assms by (simp add: live_def)
  show ?thesis
    unfolding CheckOPoITransaction_def check_by_type_def check_request_def check_response_def check_response_commit_def
      check_response_reveal_def check_stake_def check_unstake_def check_renew_def check_challenge_def
      check_challenge_commit_def check_challenge_reveal_def check_model_register_def check_model_vote_def
      check_coordinator_claim_def check_shard_result_def check_auditor_verify_def live
    by (rule refl)
qed

lemma pass_if: "\<not> b \<Longrightarrow> reject_if b r = None"
  by simp

lemma live_on: "\<not> fIsVerifying e \<Longrightarrow> live e x = x"
  by (simp add: live_def)

lemma stop_if: "b \<Longrightarrow> reject_if b r = Some r"
  by (simp add: reject_if_def)

lemma first_reject_single: "first_reject [x] = x"
  by (simp add: first_reject.simps split: option.splits)

lemmas redeliver_simps = first_reject_single first_reject_passes first_reject_stops pass_if live_on

lemma redeliver_request:
  assumes "cache_inv c" "\<not> fIsVerifying e" "check_request e params c tx = None"
  shows "unpenalised (check_request e params (apply_request tx h c) tx)"
proof -
  have "\<exists>req. GetRequest (apply_request tx h c) (opoiRequestId tx) = Some req \<and> rq_txHash req = tx_hash tx"
    using assms(1) by (simp add: apply_request_def cache_defs GetRequest_def inv_sm_ok)
  then obtain req where "GetRequest (apply_request tx h c) (opoiRequestId tx) = Some req" "rq_txHash req = tx_hash tx" by blast
  with assms(2,3) show ?thesis by (simp add: check_request_def redeliver_simps split del: if_split)
qed

lemma redeliver_stake:
  assumes "cache_inv c" "\<not> fIsVerifying e" "check_stake e c tx = None"
  shows "unpenalised (check_stake e (apply_stake e' tx h c) tx)"
proof -
  have "IsLockedUTXO (apply_stake e' tx h c) (opoiCollateralIn tx)"
    "IsHarmlessRedelivery (apply_stake e' tx h c) (opoiCollateralIn tx) (tx_hash tx)"
    using assms(1) by (simp_all add: apply_stake_def cache_defs IsLockedUTXO_def IsHarmlessRedelivery_def
      GetLockingTxHash_def inv_sm_ok)
  with assms(2,3) show ?thesis by (simp add: check_stake_def redeliver_simps split del: if_split)
qed

lemma redeliver_unstake:
  assumes "cache_inv c" "\<not> fIsVerifying e" "check_unstake e c tx = None"
  shows "unpenalised (check_unstake e (apply_unstake tx h c) tx)"
proof -
  have active: "IsActiveStaker c (opoiMinerAddress tx)" using assms by (auto simp: check_unstake_def split: if_splits)
  then have "\<not> IsActiveStaker (apply_unstake tx h c) (opoiMinerAddress tx)"
    "IsHarmlessUnstakeRedelivery (apply_unstake tx h c) (opoiMinerAddress tx) (tx_hash tx)"
    using assms(1) by (auto simp: apply_unstake_def cache_defs IsActiveStaker_def
      IsHarmlessUnstakeRedelivery_def st_IsUnstaking_def st_IsActive_def inv_sm_ok split: option.splits)
  with assms(2,3) show ?thesis by (simp add: check_unstake_def redeliver_simps split del: if_split)
qed

lemma redeliver_renew:
  assumes "cache_inv c" "\<not> fIsVerifying e" "check_renew e c tx = None"
  shows "unpenalised (check_renew e (apply_renew tx h c) tx)"
proof -
  obtain s where "GetStake c (opoiMinerAddress tx) = Some s" using assms by (auto simp: check_renew_def split: option.splits)
  then have "\<exists>s. GetStake (apply_renew tx h c) (opoiMinerAddress tx) = Some s \<and> st_stakeStatus s = ST_ACTIVE"
    using assms(1) by (auto simp: apply_renew_def GetStake_def inv_sm_ok)
  then obtain s where "GetStake (apply_renew tx h c) (opoiMinerAddress tx) = Some s" "st_stakeStatus s = ST_ACTIVE" by blast
  with assms(2,3) show ?thesis by (simp add: check_renew_def redeliver_simps split del: if_split)
qed

lemma redeliver_model_register:
  assumes "cache_inv c" "\<not> fIsVerifying e" "check_model_register e c tx = None"
  shows "unpenalised (check_model_register e (apply_model_register e' pp tx h c) tx)"
proof -
  have "\<exists>m. GetModelManifest (apply_model_register e' pp tx h c) (opoiModelId tx) = Some m \<and> mm_txHash m = tx_hash tx"
    using assms(1) by (simp add: apply_model_register_def cache_defs GetModelManifest_def Let_def inv_sm_ok)
  then obtain m where "GetModelManifest (apply_model_register e' pp tx h c) (opoiModelId tx) = Some m" "mm_txHash m = tx_hash tx"
    by blast
  with assms(2,3) show ?thesis by (simp add: check_model_register_def redeliver_simps split del: if_split)
qed

lemma redeliver_model_vote:
  assumes "cache_inv c" "\<not> fIsVerifying e" "check_model_vote e c tx = None"
  shows "unpenalised (check_model_vote e (apply_model_vote tx h c) tx)"
proof -
  obtain m where "GetModelManifest c (opoiModelId tx) = Some m" using assms by (auto simp: check_model_vote_def split: option.splits)
  then have "IsHarmlessModelVoteRedelivery (apply_model_vote tx h c) (opoiModelId tx) (opoiRequester tx) (tx_hash tx)"
    using assms(1) inv_votes [OF assms(1)]
    by (auto simp: apply_model_vote_def cache_defs GetModelManifest_def IsHarmlessModelVoteRedelivery_def inv_sm_ok
        split: option.splits)
  then have "reject_if (IsHarmlessModelVoteRedelivery (apply_model_vote tx h c) (opoiModelId tx) (opoiRequester tx) (tx_hash tx)) r
      = Some r" for r by (simp add: reject_if_def)
  with assms(2,3) show ?thesis by (simp add: check_model_vote_def redeliver_simps split del: if_split)
qed

lemma redeliver_response_commit:
  assumes "cache_inv c" "\<not> fIsVerifying e" "check_response e params c tx = None" "opoiResponsePhase tx = 0"
  shows "unpenalised (check_response e params (apply_response_commit tx h c) tx)"
proof -
  let ?c = "apply_response_commit tx h c"
  have harmless: "reject_if (IsHarmlessResponseCommitRedelivery ?c (opoiRequestId tx) (opoiMinerAddress tx) (tx_hash tx)) r = Some r" for r
    using assms(1) by (simp add: reject_if_def apply_response_commit_def cache_defs IsHarmlessResponseCommitRedelivery_def inv_sm_ok)
  have same: "IsActiveStaker ?c = IsActiveStaker c" "GetStake ?c = GetStake c"
    by (simp_all add: fun_eq_iff apply_response_commit_def cache_defs IsActiveStaker_def GetStake_def)
  have req: "GetRequest ?c (opoiRequestId tx) = (case GetRequest c (opoiRequestId tx) of None \<Rightarrow> None
      | Some r \<Rightarrow> Some (r\<lparr>rq_responseCommits := sm_put (opoiMinerAddress tx) (HexStr (opoiResponseCommitHash tx)) (rq_responseCommits r)\<rparr>))"
    using assms(1) by (simp add: apply_response_commit_def cache_defs GetRequest_def inv_sm_ok split: option.splits)
  have commit: "unpenalised (check_response_commit e ?c tx)"
    using assms(2-4)
    by (simp add: check_response_def check_response_commit_def redeliver_simps harmless split del: if_split)
  show ?thesis
    using assms(2-4) commit
    by (cases "GetRequest c (opoiRequestId tx)"; cases "GetStake c (opoiMinerAddress tx)")
      (simp_all add: check_response_def redeliver_simps same req rq_IsExpired_def split del: if_split)
qed

lemma redeliver_response_reveal:
  assumes "cache_inv c" "\<not> fIsVerifying e" "check_response e params c tx = None" "opoiResponsePhase tx \<noteq> 0"
  shows "unpenalised (check_response e params (apply_response_reveal e' pp tx h c) tx)"
proof -
  let ?c = "apply_response_reveal e' pp tx h c"
  from assms(2-4) obtain req where req: "GetRequest c (opoiRequestId tx) = Some req" "rq_commitWindowClosed req"
    by (auto simp: check_response_def check_response_reveal_def split: option.splits)
  then have "\<exists>r. GetRequest ?c (opoiRequestId tx) = Some r \<and> rq_commitWindowClosed r \<and> rq_model r = rq_model req \<and>
      rq_status r = RQ_FULFILLED \<and> sm_find (rq_responseReveals r) (opoiMinerAddress tx) = Some (GetHex (opoiResponseHash tx))"
    using assms(1) request_maps [OF assms(1)]
    by (auto simp: apply_response_reveal_def cache_defs GetRequest_def Let_def inv_sm_ok rs_IsRevealed_def split: option.splits prod.splits)
  then obtain r where r: "GetRequest ?c (opoiRequestId tx) = Some r" "rq_commitWindowClosed r" "rq_model r = rq_model req"
    "rq_status r = RQ_FULFILLED" "sm_find (rq_responseReveals r) (opoiMinerAddress tx) = Some (GetHex (opoiResponseHash tx))" by blast
  have stakes: "mapStakes ?c = sm_modify (opoiMinerAddress tx) (\<lambda>s. s\<lparr>st_responsesTotal := st_responsesTotal s + 1\<rparr>) (mapStakes c)"
    by (simp add: apply_response_reveal_def cache_defs Let_def split: prod.splits)
  have active: "IsActiveStaker ?c (opoiMinerAddress tx) = IsActiveStaker c (opoiMinerAddress tx)"
    using assms(1) by (simp add: IsActiveStaker_def stakes inv_sm_ok st_IsActive_def split: option.splits)
  have stake: "GetStake ?c (opoiMinerAddress tx) =
      map_option (\<lambda>s. s\<lparr>st_responsesTotal := st_responsesTotal s + 1\<rparr>) (GetStake c (opoiMinerAddress tx))"
    using assms(1) by (simp add: GetStake_def stakes inv_sm_ok)
  show ?thesis
    using assms(2-4) r(2-4) req
    by (cases "GetStake c (opoiMinerAddress tx)")
      (simp_all add: check_response_def check_response_reveal_def redeliver_simps active stake r(1,5) stop_if rq_IsExpired_def
        split del: if_split)
qed

lemma redeliver_challenge_commit:
  assumes "cache_inv c" "\<not> fIsVerifying e" "check_challenge e c tx = None" "opoiChallengePhase tx = 0"
  shows "unpenalised (check_challenge e (apply_challenge_commit tx h c) tx)"
proof -
  let ?c = "apply_challenge_commit tx h c"
  have "mapResponses ?c = mapResponses c" by (simp add: frame_simps)
  moreover have "IsLockedUTXO ?c (opoiChallengerCollateralIn tx)"
    "IsHarmlessRedelivery ?c (opoiChallengerCollateralIn tx) (tx_hash tx)"
    using assms(1) by (auto simp: apply_challenge_commit_def cache_defs IsLockedUTXO_def IsHarmlessRedelivery_def
      GetLockingTxHash_def Let_def inv_sm_ok split: option.splits)
  ultimately show ?thesis
    using assms(2-4)
    by (simp add: check_challenge_def check_challenge_commit_def GetResponse_def redeliver_simps split del: if_split)
qed

lemma redeliver_challenge_reveal:
  assumes "cache_inv c" "\<not> fIsVerifying e" "check_challenge e c tx = None" "opoiChallengePhase tx \<noteq> 0"
  shows "unpenalised (check_challenge e (apply_challenge_reveal pp tx c) tx)"
proof -
  let ?c = "apply_challenge_reveal pp tx c"
  from assms(2-4) obtain ch where "GetChallenge c (opoiRequestId tx) = Some ch"
    by (auto simp: check_challenge_def check_challenge_reveal_def split: option.splits)
  then have "\<exists>ch'. GetChallenge ?c (opoiRequestId tx) = Some ch' \<and> \<not> ch_IsOpen ch' \<and> ch_revealTxHash ch' = tx_hash tx"
    using assms(1) by (auto simp: apply_challenge_reveal_def GetChallenge_def Let_def inv_sm_ok ch_IsOpen_def cache_defs frame_simps
      split: option.splits)
  then obtain ch' where ch': "GetChallenge ?c (opoiRequestId tx) = Some ch'" "\<not> ch_IsOpen ch'" "ch_revealTxHash ch' = tx_hash tx"
    by blast
  have "mapResponses ?c = mapResponses c" by (simp add: frame_simps)
  with ch' assms(2-4) show ?thesis
    by (simp add: check_challenge_def check_challenge_reveal_def GetResponse_def redeliver_simps stop_if split del: if_split)
qed

lemma redeliver_coordinator_claim:
  assumes "cache_inv c" "\<not> fIsVerifying e" "check_coordinator_claim e params c tx = None"
  shows "unpenalised (check_coordinator_claim e params (apply_coordinator_claim tx h c) tx)"
proof -
  let ?c = "apply_coordinator_claim tx h c"
  have same: "IsActiveStaker ?c = IsActiveStaker c" "GetRequest ?c = GetRequest c"
    by (simp_all add: fun_eq_iff IsActiveStaker_def GetRequest_def frame_simps)
  have "IsClaimedCoordinator ?c (opoiRequestId tx) (opoiMinerAddress tx)"
    using assms(1) by (auto simp: apply_coordinator_claim_def cache_defs IsClaimedCoordinator_def Let_def inv_sm_ok list_ex_iff
      push_once_def split: option.splits)
  with assms(2,3) show ?thesis
    by (simp add: check_coordinator_claim_def redeliver_simps same split del: if_split)
qed

text \<open>What the checks of results and verdicts read of the cache.\<close>

definition same_view :: "OPoICache \<Rightarrow> OPoICache \<Rightarrow> bool" where
  "same_view c c' \<longleftrightarrow> mapRequests c' = mapRequests c \<and> mapResponses c' = mapResponses c \<and> mapStakes c' = mapStakes c \<and>
     mapModelManifests c' = mapModelManifests c"

lemma same_view_lookups:
  assumes "same_view c c'"
  shows "GetRequest c' = GetRequest c" "GetResponse c' = GetResponse c" "IsActiveStaker c' = IsActiveStaker c"
    "GetStake c' = GetStake c" "GetModelManifest c' = GetModelManifest c" "HasActiveTitanStaker c' = HasActiveTitanStaker c"
  using assms
  by (simp_all add: same_view_def fun_eq_iff GetRequest_def GetResponse_def IsActiveStaker_def GetStake_def
      GetModelManifest_def HasActiveTitanStaker_def)

lemma same_view_checks:
  assumes "same_view c c'"
  shows "active_manifest c' = active_manifest c" "GetOPoIRequestSeedHash e c' = GetOPoIRequestSeedHash e c"
    "CheckVrfSortition e c' = CheckVrfSortition e c"
    "ShouldCollapseToTitanSingleNode c' = ShouldCollapseToTitanSingleNode c"
    "check_shard_node params c' = check_shard_node params c" "check_auditor_target params c' = check_auditor_target params c"
  by (intro ext, simp only: active_manifest_def GetOPoIRequestSeedHash_def CheckVrfSortition_def
      ShouldCollapseToTitanSingleNode_def check_shard_node_def check_auditor_target_def same_view_lookups [OF assms])+

lemma redeliver_shard_result:
  assumes "check_shard_result e params c tx = None"
  shows "unpenalised (check_shard_result e params (apply_shard_result tx h c) tx)"
proof -
  have same: "same_view c (apply_shard_result tx h c)" by (simp add: same_view_def frame_simps)
  have "check_shard_result e params (apply_shard_result tx h c) tx = check_shard_result e params c tx"
    by (simp only: check_shard_result_def same_view_lookups [OF same] same_view_checks [OF same])
  with assms show ?thesis by simp
qed

lemma free_collateral_locked:
  assumes "cache_inv c" "\<not> IsLockedUTXO c (opoiAuditorCollateralIn tx)"
  shows "IsLockedUTXO (apply_auditor_verify tx h c) (opoiAuditorCollateralIn tx) \<Longrightarrow>
    IsHarmlessRedelivery (apply_auditor_verify tx h c) (opoiAuditorCollateralIn tx) (tx_hash tx)"
  using assms
  by (auto simp: apply_auditor_verify_def cache_defs IsLockedUTXO_def IsHarmlessRedelivery_def GetLockingTxHash_def Let_def
      inv_sm_ok split: if_splits)

lemma redeliver_auditor_verify:
  assumes "cache_inv c" "\<not> fIsVerifying e" "check_auditor_verify e params c tx = None"
  shows "unpenalised (check_auditor_verify e params (apply_auditor_verify tx h c) tx)"
proof -
  let ?c = "apply_auditor_verify tx h c" and ?out = "opoiAuditorCollateralIn tx"
  have same: "same_view c ?c" by (simp add: same_view_def frame_simps)
  have target: "check_auditor_target params ?c tx = None"
    using assms(2,3) by (simp add: check_auditor_verify_def same_view_checks [OF same])
  have free: "\<not> IsLockedUTXO c ?out" using assms(2,3) by (auto simp: check_auditor_verify_def split: if_splits)
  show ?thesis
  proof (cases "IsLockedUTXO ?c ?out")
    case True
    with free_collateral_locked [OF assms(1) free] assms(2,3) target show ?thesis
      by (simp add: check_auditor_verify_def redeliver_simps split del: if_split)
  next
    case False
    with assms(2,3) target show ?thesis by (simp add: check_auditor_verify_def redeliver_simps split del: if_split)
  qed
qed

lemma Apply_cases:
  "nType tx = OPOI_REQUEST_TX_TYPE \<Longrightarrow> ApplyOPoITransaction e pp tx h c = apply_request tx h c"
  "nType tx = OPOI_RESPONSE_TX_TYPE \<Longrightarrow> ApplyOPoITransaction e pp tx h c =
     (if opoiResponsePhase tx = 0 then apply_response_commit tx h c else apply_response_reveal e pp tx h c)"
  "nType tx = OPOI_STAKE_TX_TYPE \<Longrightarrow> ApplyOPoITransaction e pp tx h c = apply_stake e tx h c"
  "nType tx = OPOI_UNSTAKE_TX_TYPE \<Longrightarrow> ApplyOPoITransaction e pp tx h c = apply_unstake tx h c"
  "nType tx = OPOI_RENEW_TX_TYPE \<Longrightarrow> ApplyOPoITransaction e pp tx h c = apply_renew tx h c"
  "nType tx = OPOI_CHALLENGE_TX_TYPE \<Longrightarrow> ApplyOPoITransaction e pp tx h c =
     (if opoiChallengePhase tx = 0 then apply_challenge_commit tx h c else apply_challenge_reveal pp tx c)"
  "nType tx = OPOI_MODEL_REGISTER_TX_TYPE \<Longrightarrow> ApplyOPoITransaction e pp tx h c = apply_model_register e pp tx h c"
  "nType tx = OPOI_MODEL_VOTE_TX_TYPE \<Longrightarrow> ApplyOPoITransaction e pp tx h c = apply_model_vote tx h c"
  "nType tx = OPOI_COORDINATOR_CLAIM_TX_TYPE \<Longrightarrow> ApplyOPoITransaction e pp tx h c = apply_coordinator_claim tx h c"
  "nType tx = OPOI_SHARD_RESULT_TX_TYPE \<Longrightarrow> ApplyOPoITransaction e pp tx h c = apply_shard_result tx h c"
  "nType tx = OPOI_AUDITOR_VERIFY_TX_TYPE \<Longrightarrow> ApplyOPoITransaction e pp tx h c = apply_auditor_verify tx h c"
  by (simp_all add: ApplyOPoITransaction_def opoi_types)

lemma check_cases:
  "nType tx = OPOI_REQUEST_TX_TYPE \<Longrightarrow> check_by_type e params c tx = check_request e params c tx"
  "nType tx = OPOI_RESPONSE_TX_TYPE \<Longrightarrow> check_by_type e params c tx = check_response e params c tx"
  "nType tx = OPOI_STAKE_TX_TYPE \<Longrightarrow> check_by_type e params c tx = check_stake e c tx"
  "nType tx = OPOI_UNSTAKE_TX_TYPE \<Longrightarrow> check_by_type e params c tx = check_unstake e c tx"
  "nType tx = OPOI_RENEW_TX_TYPE \<Longrightarrow> check_by_type e params c tx = check_renew e c tx"
  "nType tx = OPOI_CHALLENGE_TX_TYPE \<Longrightarrow> check_by_type e params c tx = check_challenge e c tx"
  "nType tx = OPOI_MODEL_REGISTER_TX_TYPE \<Longrightarrow> check_by_type e params c tx = check_model_register e c tx"
  "nType tx = OPOI_MODEL_VOTE_TX_TYPE \<Longrightarrow> check_by_type e params c tx = check_model_vote e c tx"
  "nType tx = OPOI_COORDINATOR_CLAIM_TX_TYPE \<Longrightarrow> check_by_type e params c tx = check_coordinator_claim e params c tx"
  "nType tx = OPOI_SHARD_RESULT_TX_TYPE \<Longrightarrow> check_by_type e params c tx = check_shard_result e params c tx"
  "nType tx = OPOI_AUDITOR_VERIFY_TX_TYPE \<Longrightarrow> check_by_type e params c tx = check_auditor_verify e params c tx"
  by (simp_all add: check_by_type_def opoi_types)

lemma accepted_by_type:
  assumes "CheckOPoITransaction e params c tx = None" "nVersion tx = OPOI_TX_VERSION"
  shows "CheckOPoITransaction e params c' tx = check_by_type e params c' tx"
  using assms by (simp add: CheckOPoITransaction_def split: if_splits)


lemma sample_verifiable_inv: "cache_inv sample_verifiable"
  by (simp add: sample_verifiable_def cache_inv_def OPoICache_init_def wf_map_def request_ok_def sm_ok_def
      sample_request_def locks.accounted_def IsLockedUTXO_def GetLockingTxHash_def split: if_splits)


section \<open>Fields outside the signature\<close>

text \<open>
  An auditor's signature does not cover the verdict: from an accepted \<^verbatim>\<open>AUDITOR_VERIFY\<close>
  transaction anybody can make one with either of the other verdicts, under the auditor's name
  and collateral, which is accepted as well. Whichever is mined first decides.
\<close>

theorem auditor_verdict_open:
  assumes "nVersion tx = OPOI_TX_VERSION" "nType tx = OPOI_AUDITOR_VERIFY_TX_TYPE"
    and "CheckOPoITransaction e params c tx = None"
    and "r \<in> {AUDITOR_VERIFY_PASS, AUDITOR_VERIFY_FAIL, AUDITOR_VERIFY_TIMEOUT}"
  shows "CheckOPoITransaction e params c (tx\<lparr>opoiAuditorVerifyResult := r, tx_hash := h\<rparr>) = None"
proof -
  let ?tx = "tx\<lparr>opoiAuditorVerifyResult := r, tx_hash := h\<rparr>"
  have old: "check_auditor_verify e params c tx = None"
    using assms(1-3) accepted_by_type [OF assms(3,1), of c] by (simp add: check_cases)
  have "auditor_verify_sigMsg ?tx = auditor_verify_sigMsg tx" "check_auditor_target params c ?tx = check_auditor_target params c tx"
    by (simp_all add: auditor_verify_sigMsg_def check_auditor_target_def cong: option.case_cong if_cong)
  with old assms(4) have "check_auditor_verify e params c ?tx = None"
    by (auto simp: check_auditor_verify_def split: if_splits)
  with assms(1-3) show ?thesis
    by (auto simp: CheckOPoITransaction_def check_cases split: if_splits)
qed

theorem auditor_verdict_open_witness:
  "CheckOPoITransaction sample_env regtest_params sample_verifiable
     (sample_audit_tx\<lparr>opoiAuditorVerifyResult := AUDITOR_VERIFY_FAIL, tx_hash := [4]\<rparr>) = None"
  by (rule auditor_verdict_open [OF _ _ sample_audit_accepted]) (simp_all add: sample_audit_tx_def)

text \<open>
  A request's signature does not fix its terms: the token limit, the payment and the fee per
  token are signed as one run of digits. Any other division of the same digits with a positive
  payment that meets the fee floors is accepted with the requester's signature.
\<close>

theorem request_terms_open:
  assumes "nVersion tx = OPOI_TX_VERSION" "nType tx = OPOI_REQUEST_TX_TYPE"
    and "CheckOPoITransaction e params c tx = None"
    and "dec_u32 m @ dec_int p @ dec_int f = dec_u32 (opoiMaxTokens tx) @ dec_int (opoiPayment tx) @ dec_int (opoiFeePerToken tx)"
    and "0 < p" "wrap64 (nOPoIFeeBase params + wrap64 (uint (opoiPromptTokenCount tx) * nOPoIFeePerToken params)) \<le> p"
    and "opoiFeePerToken tx \<le> f"
  shows "CheckOPoITransaction e params c (tx\<lparr>opoiMaxTokens := m, opoiPayment := p, opoiFeePerToken := f, tx_hash := h\<rparr>) = None"
proof -
  let ?tx = "tx\<lparr>opoiMaxTokens := m, opoiPayment := p, opoiFeePerToken := f, tx_hash := h\<rparr>"
  have old: "check_request e params c tx = None"
    using assms(1-3) accepted_by_type [OF assms(3,1), of c] by (simp add: check_cases)
  let ?before = "opoiRequestId tx @ opoiRequester tx @ opoiModel tx @ GetHex (opoiPromptHash tx)"
  let ?after = "dec_int (opoiTaskType tx) @ dec_u8 (opoiTaskClass tx) @ GetHex (opoiTestSuite tx)
     @ dec_u32 (opoiPromptTokenCount tx) @ dec_u8 (opoiIsCanary tx)"
  have "request_sigMsg ?tx = ?before @ (dec_u32 m @ dec_int p @ dec_int f) @ ?after"
    by (simp add: request_sigMsg_def)
  moreover have "request_sigMsg tx =
      ?before @ (dec_u32 (opoiMaxTokens tx) @ dec_int (opoiPayment tx) @ dec_int (opoiFeePerToken tx)) @ ?after"
    by (simp add: request_sigMsg_def)
  ultimately have "request_sigMsg ?tx = request_sigMsg tx" by (simp only: assms(4))
  note sig = this
  have "GetRequest c (opoiRequestId tx) = None \<or> fIsVerifying e"
    using old by (auto simp: check_request_def split: option.splits if_splits)
  with old assms(5-7) have "check_request e params c ?tx = None"
    by (cases "active_manifest c (opoiModel tx)") (simp_all add: check_request_def sig, auto)
  with assms(1-3) show ?thesis
    by (auto simp: CheckOPoITransaction_def check_cases split: if_splits)
qed

definition sample_request_tx :: CTransaction where
  "sample_request_tx = CTransaction_init\<lparr>nVersion := OPOI_TX_VERSION, nType := OPOI_REQUEST_TX_TYPE, tx_hash := [3],
     opoiRequestId := ''q'', opoiRequester := ''u'', opoiModel := ''m'', opoiPromptHash := [1], opoiMaxTokens := 1,
     opoiPayment := 234567, opoiFeePerToken := 0, opoiSig := str_bytes ''u''\<rparr>"

theorem request_terms_open_witness:
  "CheckOPoITransaction sample_env regtest_params OPoICache_init
     (sample_request_tx\<lparr>opoiMaxTokens := 12, opoiPayment := 34567, opoiFeePerToken := 0, tx_hash := [4]\<rparr>) = None"
proof (rule request_terms_open)
  show "CheckOPoITransaction sample_env regtest_params OPoICache_init sample_request_tx = None"
    by (simp add: CheckOPoITransaction_def check_cases check_request_def sample_signature sample_request_tx_def
        CTransaction_init_def OPoICache_init_def uint256_IsNull_def GetRequest_def active_manifest_def GetModelManifest_def
        OPOI_TASK_VERIFIABLE_def regtest_params_def wrap64_def str_bytes_def)
  show "dec_u32 12 @ dec_int 34567 @ dec_int 0 = dec_u32 (opoiMaxTokens sample_request_tx) @ dec_int (opoiPayment sample_request_tx) @
      dec_int (opoiFeePerToken sample_request_tx)"
    by (simp add: sample_request_tx_def dec_u32_def dec_int_def dec_nat.simps)
qed (simp_all add: sample_request_tx_def CTransaction_init_def regtest_params_def wrap64_def)

end
