(* ===== verification/Csapp.thy ===== *)
theory Csapp
  imports Opoi_Check
begin

text \<open>
  The registry of CSApps (\<^verbatim>\<open>csapp/csapp.h\<close>, \<^verbatim>\<open>csapp/csapp.cpp\<close>) and the checks of
  \<^verbatim>\<open>CheckTransaction\<close> on its transactions. The lemmas show that the record of a deployment is a
  function of the transactions that name it, what disconnecting a transaction leaves behind,
  and that no check ties a transaction to the owner of the deployment it changes.
\<close>

section \<open>The registry\<close>

definition CSAPP_TX_VERSION :: int where "CSAPP_TX_VERSION = 7"
definition CSAPP_REGISTER_TX_TYPE :: int where "CSAPP_REGISTER_TX_TYPE = 1"
definition CSAPP_UPDATE_TX_TYPE :: int where "CSAPP_UPDATE_TX_TYPE = 2"
definition CSAPP_STOP_TX_TYPE :: int where "CSAPP_STOP_TX_TYPE = 3"

lemmas csapp_types = CSAPP_TX_VERSION_def CSAPP_REGISTER_TX_TYPE_def CSAPP_UPDATE_TX_TYPE_def CSAPP_STOP_TX_TYPE_def

datatype csapp_status = CSAPP_STATUS_RUNNING | CSAPP_STATUS_STOPPED | CSAPP_STATUS_EXPIRED

record CSAppData =
  ap_deploymentId :: string
  ap_owner :: string
  ap_specJson :: string
  ap_ip :: string
  ap_registeredAt :: u32
  ap_updatedAt :: u32
  ap_status :: csapp_status
  ap_lockedCscoin :: int
  ap_txHash :: uint256
  ap_lastTxHash :: uint256

type_synonym CSAppCache = "(string, CSAppData) smap"

definition AddApp :: "CSAppData \<Rightarrow> CSAppCache \<Rightarrow> CSAppCache" where
  "AddApp data apps = sm_put (ap_deploymentId data) data apps"

fun str_find :: "string \<Rightarrow> string \<Rightarrow> bool" where
  "str_find pat [] = (pat = [])"
| "str_find pat (x # xs) = (take (length pat) (x # xs) = pat \<or> str_find pat xs)"

definition csapp_resume :: "string \<Rightarrow> bool" where
  "csapp_resume specJson \<longleftrightarrow>
     str_find ([CHR 0x22] @ ''csapp_resume'' @ [CHR 0x22] @ '':true'') specJson \<or>
     str_find ([CHR 0x22] @ ''csapp_resume'' @ [CHR 0x22] @ '': true'') specJson"

definition update_app :: "string \<Rightarrow> u32 \<Rightarrow> uint256 \<Rightarrow> CSAppData \<Rightarrow> CSAppData" where
  "update_app specJson blockHeight txHash a =
     a\<lparr>ap_specJson := specJson, ap_updatedAt := blockHeight, ap_lastTxHash := txHash,
       ap_status := (if csapp_resume specJson then CSAPP_STATUS_RUNNING else ap_status a)\<rparr>"

definition UpdateApp :: "string \<Rightarrow> string \<Rightarrow> u32 \<Rightarrow> uint256 \<Rightarrow> CSAppCache \<Rightarrow> CSAppCache" where
  "UpdateApp deploymentId specJson blockHeight txHash apps =
     sm_modify deploymentId (update_app specJson blockHeight txHash) apps"

definition stop_app :: "u32 \<Rightarrow> uint256 \<Rightarrow> bool \<Rightarrow> CSAppData \<Rightarrow> CSAppData" where
  "stop_app blockHeight txHash expired a =
     a\<lparr>ap_status := (if expired then CSAPP_STATUS_EXPIRED else CSAPP_STATUS_STOPPED),
       ap_updatedAt := blockHeight, ap_lastTxHash := txHash\<rparr>"

definition StopApp :: "string \<Rightarrow> u32 \<Rightarrow> uint256 \<Rightarrow> bool \<Rightarrow> CSAppCache \<Rightarrow> CSAppCache" where
  "StopApp deploymentId blockHeight txHash expired apps =
     sm_modify deploymentId (stop_app blockHeight txHash expired) apps"

definition GetApp :: "CSAppCache \<Rightarrow> string \<Rightarrow> CSAppData option" where
  "GetApp apps deploymentId = sm_find apps deploymentId"

definition ListApps :: "csapp_status option \<Rightarrow> CSAppCache \<Rightarrow> CSAppData list" where
  "ListApps statusFilter apps =
     filter (\<lambda>a. case statusFilter of None \<Rightarrow> True | Some st \<Rightarrow> ap_status a = st) (map snd apps)"

definition registered_app :: "CTransaction \<Rightarrow> u32 \<Rightarrow> CSAppData" where
  "registered_app tx blockHeight =
     \<lparr>ap_deploymentId = csappDeploymentId tx, ap_owner = csappOwner tx, ap_specJson = csappSpecJson tx,
      ap_ip = csappIp tx, ap_registeredAt = blockHeight, ap_updatedAt = blockHeight,
      ap_status = CSAPP_STATUS_RUNNING, ap_lockedCscoin = csappLockedAmount tx,
      ap_txHash = tx_hash tx, ap_lastTxHash = tx_hash tx\<rparr>"

definition ProcessCSAppTransaction :: "CTransaction \<Rightarrow> u32 \<Rightarrow> bool \<Rightarrow> CSAppCache \<Rightarrow> CSAppCache" where
  "ProcessCSAppTransaction tx blockHeight fUndo apps =
     (if nVersion tx \<noteq> CSAPP_TX_VERSION then apps
      else if fUndo then
        (if nType tx = CSAPP_REGISTER_TX_TYPE then sm_erase (csappDeploymentId tx) apps
         else if nType tx = CSAPP_UPDATE_TX_TYPE \<or> nType tx = CSAPP_STOP_TX_TYPE then
           sm_modify (csappDeploymentId tx) (\<lambda>a. a\<lparr>ap_status := CSAPP_STATUS_RUNNING\<rparr>) apps
         else apps)
      else if nType tx = CSAPP_REGISTER_TX_TYPE then AddApp (registered_app tx blockHeight) apps
      else if nType tx = CSAPP_UPDATE_TX_TYPE then
        UpdateApp (csappDeploymentId tx) (csappSpecJson tx) blockHeight (tx_hash tx) apps
      else if nType tx = CSAPP_STOP_TX_TYPE then
        StopApp (csappDeploymentId tx) blockHeight (tx_hash tx) False apps
      else apps)"

text \<open>The chain as the loop reads it: the blocks that could be read, with their heights.\<close>

definition RebuildCSAppCache :: "(u32 \<times> CTransaction list) list \<Rightarrow> CSAppCache" where
  "RebuildCSAppCache chain =
     fold (\<lambda>(h, vtx). fold (\<lambda>tx. ProcessCSAppTransaction tx h False)
        (filter (\<lambda>tx. nVersion tx = CSAPP_TX_VERSION) vtx)) chain []"

definition IsCSAppTx :: "CTransaction \<Rightarrow> bool" where
  "IsCSAppTx tx \<longleftrightarrow> nVersion tx = CSAPP_TX_VERSION"

definition CheckCSAppTransaction :: "CTransaction \<Rightarrow> reject option" where
  "CheckCSAppTransaction tx =
     (if \<not> IsCSAppTx tx then None
      else first_reject
        [reject_if (vout tx \<noteq> [] \<or> vin tx \<noteq> [] \<or> vJoinSplit tx \<noteq> []) (DoS 10 ''bad-txns-csapp-tx-not-empty''),
         reject_if (csappDeploymentId tx = []) (DoS 10 ''bad-txns-csapp-tx-no-deployment-id''),
         reject_if (csappOwner tx = []) (DoS 10 ''bad-txns-csapp-tx-no-owner''),
         reject_if (nType tx \<noteq> CSAPP_REGISTER_TX_TYPE \<and> nType tx \<noteq> CSAPP_UPDATE_TX_TYPE \<and>
             nType tx \<noteq> CSAPP_STOP_TX_TYPE)
           (DoS 10 ''bad-txns-csapp-tx-invalid-type'')])"

section \<open>What a record depends on\<close>

text \<open>One transaction seen from one deployment id.\<close>

definition app_step :: "string \<Rightarrow> CTransaction \<Rightarrow> u32 \<Rightarrow> CSAppData option \<Rightarrow> CSAppData option" where
  "app_step i tx h a =
     (if nVersion tx \<noteq> CSAPP_TX_VERSION \<or> csappDeploymentId tx \<noteq> i then a
      else if nType tx = CSAPP_REGISTER_TX_TYPE then Some (registered_app tx h)
      else if nType tx = CSAPP_UPDATE_TX_TYPE then map_option (update_app (csappSpecJson tx) h (tx_hash tx)) a
      else if nType tx = CSAPP_STOP_TX_TYPE then map_option (stop_app h (tx_hash tx) False) a
      else a)"

lemma GetApp_Process: "GetApp (ProcessCSAppTransaction tx h False apps) i = app_step i tx h (GetApp apps i)"
  by (simp add: GetApp_def ProcessCSAppTransaction_def app_step_def AddApp_def UpdateApp_def StopApp_def
      registered_app_def)

lemma GetApp_block: "GetApp (fold (\<lambda>tx. ProcessCSAppTransaction tx h False) txs apps) i =
    fold (\<lambda>tx. app_step i tx h) txs (GetApp apps i)"
  by (induction txs arbitrary: apps) (simp_all add: GetApp_Process)

lemma app_step_filter:
  "fold (\<lambda>tx. app_step i tx h) (filter (\<lambda>tx. nVersion tx = CSAPP_TX_VERSION) txs) a =
     fold (\<lambda>tx. app_step i tx h) (filter (\<lambda>tx. nVersion tx = CSAPP_TX_VERSION \<and> csappDeploymentId tx = i) txs) a"
  by (induction txs arbitrary: a) (auto simp: app_step_def)

lemma app_step_filter_id:
  "fold (\<lambda>tx. app_step i tx h) (filter (\<lambda>tx. nVersion tx = CSAPP_TX_VERSION)
       (filter (\<lambda>tx. csappDeploymentId tx = i) txs)) a =
     fold (\<lambda>tx. app_step i tx h) (filter (\<lambda>tx. nVersion tx = CSAPP_TX_VERSION) txs) a"
  by (simp add: app_step_filter conj_ac)

lemma GetApp_chain:
  "GetApp (fold (\<lambda>(h, vtx). fold (\<lambda>tx. ProcessCSAppTransaction tx h False)
       (filter (\<lambda>tx. nVersion tx = CSAPP_TX_VERSION) vtx)) chain apps) i =
     fold (\<lambda>(h, vtx). fold (\<lambda>tx. app_step i tx h) (filter (\<lambda>tx. nVersion tx = CSAPP_TX_VERSION) vtx))
       chain (GetApp apps i)"
  by (induction chain arbitrary: apps) (auto simp: GetApp_block)

text \<open>
  The record of a deployment after replaying the chain is determined by the CSApp
  transactions that name the deployment, in their order, and by no other transaction.
\<close>

theorem csapp_record_local:
  "GetApp (RebuildCSAppCache chain) i =
     GetApp (RebuildCSAppCache (map (\<lambda>(h, vtx). (h, filter (\<lambda>tx. csappDeploymentId tx = i) vtx)) chain)) i"
proof -
  have "fold (\<lambda>(h, vtx). fold (\<lambda>tx. app_step i tx h) (filter (\<lambda>tx. nVersion tx = CSAPP_TX_VERSION) vtx)) chain a =
      fold (\<lambda>(h, vtx). fold (\<lambda>tx. app_step i tx h) (filter (\<lambda>tx. nVersion tx = CSAPP_TX_VERSION) vtx))
        (map (\<lambda>(h, vtx). (h, filter (\<lambda>tx. csappDeploymentId tx = i) vtx)) chain) a" for a
    by (induction chain arbitrary: a) (auto simp: app_step_filter_id simp del: filter_filter)
  then show ?thesis by (simp only: RebuildCSAppCache_def GetApp_chain)
qed

section \<open>Who may change a deployment\<close>

definition foreign_stop :: "string \<Rightarrow> string \<Rightarrow> CTransaction" where
  "foreign_stop i who = CTransaction_init\<lparr>nVersion := CSAPP_TX_VERSION, nType := CSAPP_STOP_TX_TYPE,
     csappDeploymentId := i, csappOwner := who\<rparr>"

text \<open>
  The checks accept a STOP of any deployment from anybody: whatever owner it names and
  without a signature, the transaction passes, and when it is connected the deployment is
  stopped while its record still shows the owner who registered it.
\<close>

theorem csapp_owner_unchecked:
  assumes "GetApp apps i = Some a" and "i \<noteq> []" and "who \<noteq> []"
  shows "CheckCSAppTransaction (foreign_stop i who) = None \<and> csappSig (foreign_stop i who) = [] \<and>
    (\<exists>a'. GetApp (ProcessCSAppTransaction (foreign_stop i who) h False apps) i = Some a' \<and>
       ap_status a' = CSAPP_STATUS_STOPPED \<and> ap_owner a' = ap_owner a)"
  using assms
  by (simp add: CheckCSAppTransaction_def IsCSAppTx_def foreign_stop_def CTransaction_init_def reject_if_def
      csapp_types GetApp_Process app_step_def stop_app_def)

definition sample_app_tx :: CTransaction where
  "sample_app_tx = CTransaction_init\<lparr>nVersion := 7, nType := 1, tx_hash := [1], csappDeploymentId := ''a'', csappOwner := ''o''\<rparr>"

theorem csapp_owner_unchecked_witness:
  "\<exists>a'. GetApp (ProcessCSAppTransaction (foreign_stop ''a'' ''x'') 8 False
       (ProcessCSAppTransaction sample_app_tx 7 False [])) ''a'' = Some a' \<and>
     ap_status a' = CSAPP_STATUS_STOPPED \<and> ap_owner a' = ''o''"
proof -
  have "GetApp (ProcessCSAppTransaction sample_app_tx 7 False []) ''a'' = Some (registered_app sample_app_tx 7)"
    by code_simp
  moreover have "ap_owner (registered_app sample_app_tx 7) = ''o''" by code_simp
  ultimately show ?thesis
    using csapp_owner_unchecked [of "ProcessCSAppTransaction sample_app_tx 7 False []" "''a''"
        "registered_app sample_app_tx 7" "''x''" 8] by auto
qed

text \<open>Undoing a REGISTER of a new deployment is exact; undoing an UPDATE keeps the new specification.\<close>

lemma csapp_undo_register:
  assumes "sm_ok apps" "GetApp apps (csappDeploymentId tx) = None" "nType tx = CSAPP_REGISTER_TX_TYPE"
  shows "ProcessCSAppTransaction tx h True (ProcessCSAppTransaction tx h False apps) = apps"
  using assms sm.erase_put_fresh [of apps "csappDeploymentId tx"]
  by (simp add: ProcessCSAppTransaction_def AddApp_def registered_app_def GetApp_def)

lemma csapp_undo_update:
  assumes "GetApp apps (csappDeploymentId tx) = Some a" "IsCSAppTx tx" "nType tx = CSAPP_UPDATE_TX_TYPE"
  shows "map_option ap_specJson (GetApp (ProcessCSAppTransaction tx h True (ProcessCSAppTransaction tx h False apps))
    (csappDeploymentId tx)) = Some (csappSpecJson tx)"
  using assms
  by (simp add: ProcessCSAppTransaction_def GetApp_def UpdateApp_def update_app_def IsCSAppTx_def csapp_types)

end
