(* ===== verification/Opoi_Chain.thy ===== *)
theory Opoi_Chain
  imports Coins Csapp "HOL-Library.Sublist"
begin

text \<open>
  The chain around the OPoI cache: \<^verbatim>\<open>ConnectBlock\<close> and \<^verbatim>\<open>DisconnectBlock\<close> of \<^verbatim>\<open>main.cpp\<close> with the
  coins, the CSApp registry and the OPoI cache as the state they change, and
  \<^verbatim>\<open>RebuildOPoICache\<close> of \<^verbatim>\<open>opoi/opoi.cpp\<close>. The checks of \<^verbatim>\<open>ConnectBlock\<close> that read none of the
  three (headers, proofs, scripts, amounts, fluxnodes, disk) enter as their verdicts, the
  fields of \<open>connect_ctx\<close>; every theorem holds for all of them.

  The lemmas follow the three states through a block: a block that fails leaves the cache as it
  was, collateral that is locked stays unspent, deadlines are met after every block, and what
  a rebuilt cache does not remember.
\<close>

section \<open>Connecting a block\<close>

record node =
  nd_view :: CCoinsMap
  nd_cache :: OPoICache
  nd_apps :: CSAppCache

record connecting = node +
  cn_applied :: "CTransaction list"
  cn_undo :: "CTxInUndo list list"

record connect_ctx =
  cx_fJustCheck :: bool
  cx_genesis :: bool
  cx_block :: "reject option"
  cx_tx :: "CTransaction \<Rightarrow> reject option"
  cx_shielded :: "CTransaction \<Rightarrow> reject option"
  cx_inputs :: "CTransaction \<Rightarrow> reject option"
  cx_final :: "reject option"
  cx_disk :: "reject option"

text \<open>A statement that can leave the function with a rejection, and two in sequence.\<close>

type_synonym step = "connecting \<Rightarrow> reject option \<times> connecting"

definition pass :: step where "pass st = (None, st)"

definition only :: "reject option \<Rightarrow> step" where "only r st = (r, st)"

definition next_do :: "step \<Rightarrow> step \<Rightarrow> step" where
  "next_do f g st = (case f st of (Some r, st') \<Rightarrow> (Some r, st') | (None, st') \<Rightarrow> g st')"

fun do_all :: "step list \<Rightarrow> step" where
  "do_all [] = pass"
| "do_all (f # fs) = next_do f (do_all fs)"

definition opoi_live :: "opoi_env \<Rightarrow> Params \<Rightarrow> int \<Rightarrow> bool" where
  "opoi_live e p nHeight \<longleftrightarrow> \<not> fIsVerifying e \<and> NetworkUpgradeActive_OPOI nHeight p"

definition check_transactions :: "opoi_env \<Rightarrow> Params \<Rightarrow> CTransaction list \<Rightarrow> step" where
  "check_transactions e p vtx st =
     only (first_reject (map (\<lambda>tx. first_reject [CheckCSAppTransaction tx, CheckOPoITransaction e p (nd_cache st) tx]) vtx)) st"

definition bip30 :: "coins_base \<Rightarrow> CTransaction \<Rightarrow> step" where
  "bip30 base tx st = (case AccessCoins base (tx_hash tx) (nd_view st) of (coins, view) \<Rightarrow>
     (case coins of
        None \<Rightarrow> (None, st\<lparr>nd_view := view\<rparr>)
      | Some c \<Rightarrow> (reject_if (\<not> IsPruned c) (DoS 100 ''bad-txns-BIP30''), st\<lparr>nd_view := view\<rparr>)))"

definition opoi_block_checks :: "opoi_env \<Rightarrow> Params \<Rightarrow> CTransaction list \<Rightarrow> int \<Rightarrow> step" where
  "opoi_block_checks e p vtx nHeight st =
     only (first_reject
       [if NetworkUpgradeActive_OPOI nHeight p then CheckOPoIBlockCaps vtx p else None,
        if opoi_live e p nHeight then CheckOPoIPayments e (nd_cache st) vtx nHeight p else None,
        if opoi_live e p nHeight then CheckOPoIChallengerRewards e (nd_cache st) vtx p else None]) st"

definition need_inputs :: "coins_base \<Rightarrow> CTransaction \<Rightarrow> step" where
  "need_inputs base tx st = (case HaveInputs base tx (nd_view st) of (ok, view) \<Rightarrow>
     (reject_if (\<not> ok) (DoS 100 ''bad-txns-inputs-missingorspent''), st\<lparr>nd_view := view\<rparr>))"

definition no_locked_inputs :: "opoi_env \<Rightarrow> Params \<Rightarrow> int \<Rightarrow> CTransaction \<Rightarrow> step" where
  "no_locked_inputs e p nHeight tx st =
     only (reject_if (opoi_live e p nHeight \<and> list_ex (IsLockedUTXO (nd_cache st)) (vin tx))
       (DoS 100 ''bad-txns-spends-opoi-collateral'')) st"

definition process_csapp :: "int \<Rightarrow> CTransaction \<Rightarrow> step" where
  "process_csapp nHeight tx st =
     pass (if IsCSAppTx tx
       then st\<lparr>nd_apps := ProcessCSAppTransaction tx (word_of_int nHeight) False (nd_apps st)\<rparr> else st)"

definition process_opoi :: "opoi_env \<Rightarrow> Params \<Rightarrow> connect_ctx \<Rightarrow> int \<Rightarrow> CTransaction \<Rightarrow> step" where
  "process_opoi e p cx nHeight tx st =
     pass (if \<not> cx_fJustCheck cx \<and> \<not> fIsVerifying e \<and> IsOPoITx tx
       then st\<lparr>nd_cache := ProcessOPoITransaction e (Some p) tx (word_of_int nHeight) False (nd_cache st),
               cn_applied := cn_applied st @ [tx]\<rparr>
       else st)"

definition stake_collateral :: "opoi_env \<Rightarrow> Params \<Rightarrow> connect_ctx \<Rightarrow> coins_base \<Rightarrow> int \<Rightarrow> CTransaction \<Rightarrow> step" where
  "stake_collateral e p cx base nHeight tx st =
     (if \<not> cx_fJustCheck cx \<and> nVersion tx = OPOI_TX_VERSION \<and> nType tx = OPOI_STAKE_TX_TYPE \<and> opoi_live e p nHeight
      then (case GetCoins base (op_hash (opoiCollateralIn tx)) (nd_view st) of (coins, view) \<Rightarrow>
        (case coins of
           None \<Rightarrow> (Some (DoS 100 ''bad-txns-opoi-stake-no-utxo''), st\<lparr>nd_view := view\<rparr>)
         | Some c \<Rightarrow>
             (if \<not> IsAvailable c (op_n (opoiCollateralIn tx)) then Some (DoS 100 ''bad-txns-opoi-stake-no-utxo'')
              else reject_if (nValue (co_vout c ! unat (op_n (opoiCollateralIn tx))) < nOPoIMinStake p)
                (DoS 100 ''bad-txns-opoi-stake-amount-too-low''),
              st\<lparr>nd_view := view\<rparr>)))
      else pass st)"

text \<open>The undo data of every transaction; the coinbase's is dropped at the end.\<close>

definition update_coins :: "coins_base \<Rightarrow> int \<Rightarrow> CTransaction \<Rightarrow> step" where
  "update_coins base nHeight tx st = (case UpdateCoins base tx nHeight (nd_view st) of
       None \<Rightarrow> (Some Abort, st)
     | Some (u, view) \<Rightarrow> (None, st\<lparr>nd_view := view, cn_undo := cn_undo st @ [u]\<rparr>))"

definition connect_tx :: "opoi_env \<Rightarrow> Params \<Rightarrow> connect_ctx \<Rightarrow> coins_base \<Rightarrow> int \<Rightarrow> CTransaction \<Rightarrow> step" where
  "connect_tx e p cx base nHeight tx = do_all
     ([only (cx_tx cx tx)] @
      (if IsCoinBase tx then []
       else [need_inputs base tx, no_locked_inputs e p nHeight tx, process_csapp nHeight tx,
             process_opoi e p cx nHeight tx, only (cx_shielded cx tx)]) @
      [stake_collateral e p cx base nHeight tx] @
      (if IsCoinBase tx then [] else [only (cx_inputs cx tx)]) @
      [update_coins base nHeight tx])"

text \<open>The transitions at the end of a block.\<close>

definition opoi_block_end :: "Params \<Rightarrow> CTransaction list \<Rightarrow> u32 \<Rightarrow> OPoICache \<Rightarrow> OPoICache" where
  "opoi_block_end p vtx h c =
     ProcessAuditorVerifications p
      (ProcessAuditSampledOpenResponsePayments vtx h p
       (ProcessVerifiableResponsePayments vtx p
        (ProcessShardPayments vtx p
         (ProcessModelVotingWindows h p
          (ProcessCanaryAudits h p
           (ProcessStakeRenewals h p
            (ProcessResponseCommitWindows h p
             (PruneExpiredPendingDeliveries
              (ProcessExpiredRequests h p
               (ProcessExpiredChallenges h p
                (ProcessChallengerRewardPayments vtx p c)))))))))))"

definition connect_body :: "opoi_env \<Rightarrow> Params \<Rightarrow> connect_ctx \<Rightarrow> coins_base \<Rightarrow> CTransaction list \<Rightarrow> int \<Rightarrow> step" where
  "connect_body e p cx base vtx nHeight = do_all
     ([only (cx_block cx), check_transactions e p vtx] @ map (bip30 base) vtx @
      [opoi_block_checks e p vtx nHeight] @ map (connect_tx e p cx base nHeight) vtx @ [only (cx_final cx)])"

definition ConnectBlock ::
  "opoi_env \<Rightarrow> Params \<Rightarrow> connect_ctx \<Rightarrow> coins_base \<Rightarrow> CTransaction list \<Rightarrow> int \<Rightarrow> node \<Rightarrow>
   reject option \<times> node \<times> CTxInUndo list list" where
  "ConnectBlock e p cx base vtx nHeight nd =
     (if cx_genesis cx then (None, nd, [])
      else
        let (r, st) = connect_body e p cx base vtx nHeight
              \<lparr>nd_view = nd_view nd, nd_cache = nd_cache nd, nd_apps = nd_apps nd, cn_applied = [], cn_undo = []\<rparr>;
            fCommitted = (r = None \<and> \<not> cx_fJustCheck cx);
            cache = OPoIConnectGuard e (cn_applied st) fCommitted (word_of_int nHeight) (nd_cache st);
            nd' = \<lparr>nd_view = nd_view st, nd_cache = cache, nd_apps = nd_apps st\<rparr>
        in if \<not> fCommitted then (r, nd', drop 1 (cn_undo st))
           else (case cx_disk cx of
               Some r' \<Rightarrow> (Some r', nd', drop 1 (cn_undo st))
             | None \<Rightarrow>
                 (None, nd'\<lparr>nd_cache := (if opoi_live e p nHeight
                      then opoi_block_end p vtx (word_of_int nHeight) cache else cache)\<rparr>, drop 1 (cn_undo st))))"

section \<open>Disconnecting a block and rebuilding the cache\<close>

definition disconnect_step ::
  "opoi_env \<Rightarrow> coins_base \<Rightarrow> int \<Rightarrow> CTransaction \<times> CTxInUndo list option \<Rightarrow> node \<Rightarrow> bool option \<times> node" where
  "disconnect_step e base nHeight txu nd =
     (case txu of (tx, u) \<Rightarrow>
       let apps = (if IsCSAppTx tx then ProcessCSAppTransaction tx (word_of_int nHeight) True (nd_apps nd) else nd_apps nd);
           cache = (if IsOPoITx tx \<and> \<not> fIsVerifying e
             then ProcessOPoITransaction e None tx (word_of_int nHeight) True (nd_cache nd) else nd_cache nd)
       in (case disconnect_tx base tx u nHeight (nd_view nd) of (ok, view) \<Rightarrow>
             (ok, \<lparr>nd_view = view, nd_cache = cache, nd_apps = apps\<rparr>)))"

fun disconnect_loop ::
  "opoi_env \<Rightarrow> coins_base \<Rightarrow> int \<Rightarrow> (CTransaction \<times> CTxInUndo list option) list \<Rightarrow> node \<Rightarrow> bool option \<times> node" where
  "disconnect_loop e base nHeight [] nd = (Some True, nd)"
| "disconnect_loop e base nHeight (txu # rest) nd = (case disconnect_loop e base nHeight rest nd of
       (None, nd') \<Rightarrow> (None, nd')
     | (Some fClean, nd') \<Rightarrow> (case disconnect_step e base nHeight txu nd' of
           (None, nd'') \<Rightarrow> (None, nd'')
         | (Some ok, nd'') \<Rightarrow> (Some (fClean \<and> ok), nd'')))"

definition DisconnectBlock ::
  "opoi_env \<Rightarrow> coins_base \<Rightarrow> CTransaction list \<Rightarrow> CTxInUndo list list \<Rightarrow> int \<Rightarrow> node \<Rightarrow> DisconnectResult \<times> node" where
  "DisconnectBlock e base vtx vtxundo nHeight nd =
     (if length vtxundo + 1 \<noteq> length vtx then (DISCONNECT_FAILED, nd)
      else (case disconnect_loop e base nHeight (zip vtx (None # map Some vtxundo)) nd of
          (None, nd') \<Rightarrow> (DISCONNECT_FAILED, nd')
        | (Some fClean, nd') \<Rightarrow> (if fClean then DISCONNECT_OK else DISCONNECT_UNCLEAN, nd')))"

definition rebuild_block :: "opoi_env \<Rightarrow> Params \<Rightarrow> int \<times> CTransaction list \<Rightarrow> OPoICache \<Rightarrow> OPoICache" where
  "rebuild_block e p blk c = (case blk of (nHeight, vtx) \<Rightarrow>
     let h = word_of_int nHeight;
         c = fold (\<lambda>tx. ProcessOPoITransaction e (Some p) tx h False) (filter (\<lambda>tx. nVersion tx = OPOI_TX_VERSION) vtx) c
     in if NetworkUpgradeActive_OPOI nHeight p then
          ProcessAuditorVerifications p
           (ProcessAuditSampledOpenResponsePayments vtx h p
            (ProcessVerifiableResponsePayments vtx p
             (ProcessShardPayments vtx p
              (ProcessModelVotingWindows h p
               (ProcessCanaryAudits h p
                (ProcessStakeRenewals h p
                 (ProcessResponseCommitWindows h p
                  (ProcessExpiredRequests h p
                   (ProcessExpiredChallenges h p c)))))))))
        else c)"

definition RebuildOPoICache ::
  "opoi_env \<Rightarrow> Params \<Rightarrow> (int \<times> CTransaction list) list \<Rightarrow> OPoICache \<Rightarrow> OPoICache" where
  "RebuildOPoICache e p chain c = fold (rebuild_block e p) chain (SetNull c)"

section \<open>Sequences of steps\<close>

lemma next_do_None: "fst (next_do f g st) = None \<longleftrightarrow> fst (f st) = None \<and> fst (g (snd (f st))) = None"
  by (auto simp: next_do_def split: prod.splits option.splits)

lemma next_do_snd: "snd (next_do f g st) = (if fst (f st) = None then snd (g (snd (f st))) else snd (f st))"
  by (auto simp: next_do_def split: prod.splits option.splits)

lemma do_all_append: "do_all (fs @ gs) st = next_do (do_all fs) (do_all gs) st"
proof (induction fs arbitrary: st)
  case (Cons f fs)
  then show ?case by (auto simp: next_do_def pass_def split: prod.splits option.splits)
qed (simp add: next_do_def pass_def)

text \<open>What every step keeps, a sequence of them keeps.\<close>

lemma do_all_keeps:
  assumes "\<And>f st. f \<in> set fs \<Longrightarrow> P st \<Longrightarrow> P (snd (f st))" "P st"
  shows "P (snd (do_all fs st))"
  using assms
proof (induction fs arbitrary: st)
  case (Cons f fs)
  have "P (snd (f st))" using Cons.prems by simp
  then have "P (snd (do_all fs (snd (f st))))" using Cons.IH Cons.prems(1) by simp
  then show ?case using \<open>P (snd (f st))\<close> by (simp add: next_do_snd)
qed (simp add: pass_def)

definition same_cache :: "connecting \<Rightarrow> connecting \<Rightarrow> bool" where
  "same_cache st st' \<longleftrightarrow> nd_cache st' = nd_cache st \<and> cn_applied st' = cn_applied st"

lemma same_cache_steps [simp]:
  "same_cache st (snd (only r st))" "same_cache st (snd (check_transactions e p vtx st))"
  "same_cache st (snd (bip30 base tx st))" "same_cache st (snd (opoi_block_checks e p vtx h st))"
  "same_cache st (snd (need_inputs base tx st))" "same_cache st (snd (no_locked_inputs e p h tx st))"
  "same_cache st (snd (process_csapp h tx st))" "same_cache st (snd (stake_collateral e p cx base h tx st))"
  "same_cache st (snd (update_coins base h tx st))"
  by (simp_all add: same_cache_def only_def check_transactions_def bip30_def opoi_block_checks_def need_inputs_def
      no_locked_inputs_def process_csapp_def stake_collateral_def update_coins_def pass_def
      split: prod.splits option.splits)

lemma same_cache_all:
  assumes "\<And>f st. f \<in> set fs \<Longrightarrow> same_cache st (snd (f st))"
  shows "same_cache st (snd (do_all fs st))"
  using do_all_keeps [of fs "same_cache st" st] assms by (auto simp: same_cache_def)

text \<open>A transaction goes through three stages: checks, the cache, the coins.\<close>

definition tx_checks :: "opoi_env \<Rightarrow> Params \<Rightarrow> connect_ctx \<Rightarrow> coins_base \<Rightarrow> int \<Rightarrow> CTransaction \<Rightarrow> step list" where
  "tx_checks e p cx base nHeight tx = [only (cx_tx cx tx)] @
     (if IsCoinBase tx then [] else [need_inputs base tx, no_locked_inputs e p nHeight tx, process_csapp nHeight tx])"

definition tx_apply :: "opoi_env \<Rightarrow> Params \<Rightarrow> connect_ctx \<Rightarrow> int \<Rightarrow> CTransaction \<Rightarrow> step" where
  "tx_apply e p cx nHeight tx = (if IsCoinBase tx then pass else process_opoi e p cx nHeight tx)"

definition tx_coins :: "opoi_env \<Rightarrow> Params \<Rightarrow> connect_ctx \<Rightarrow> coins_base \<Rightarrow> int \<Rightarrow> CTransaction \<Rightarrow> step list" where
  "tx_coins e p cx base nHeight tx = (if IsCoinBase tx then [] else [only (cx_shielded cx tx)]) @
     [stake_collateral e p cx base nHeight tx] @ (if IsCoinBase tx then [] else [only (cx_inputs cx tx)]) @
     [update_coins base nHeight tx]"

lemma next_do_pass [simp]: "next_do pass f = f" "next_do f pass = f"
  by (auto simp: fun_eq_iff next_do_def pass_def split: prod.splits option.splits)

lemma connect_tx_stages:
  "connect_tx e p cx base h tx st =
     next_do (do_all (tx_checks e p cx base h tx)) (next_do (tx_apply e p cx h tx) (do_all (tx_coins e p cx base h tx))) st"
proof -
  have assoc: "next_do (next_do f g) k = next_do f (next_do g k)" for f g k
    by (auto simp: fun_eq_iff next_do_def split: prod.splits option.splits)
  show ?thesis
    by (simp add: connect_tx_def tx_checks_def tx_apply_def tx_coins_def assoc)
qed

lemma same_cache_checks: "same_cache st (snd (do_all (tx_checks e p cx base h tx) st))"
  by (rule same_cache_all) (auto simp: tx_checks_def split: if_splits)

lemma same_cache_coins: "same_cache st (snd (do_all (tx_coins e p cx base h tx) st))"
  by (rule same_cache_all) (auto simp: tx_coins_def split: if_splits)

section \<open>A failed block leaves the cache as it was\<close>

definition applied_tx :: "opoi_env \<Rightarrow> connect_ctx \<Rightarrow> CTransaction \<Rightarrow> bool" where
  "applied_tx e cx tx \<longleftrightarrow> \<not> cx_fJustCheck cx \<and> \<not> fIsVerifying e \<and> IsOPoITx tx \<and> \<not> IsCoinBase tx"

definition apply_all :: "opoi_env \<Rightarrow> Params \<Rightarrow> int \<Rightarrow> CTransaction list \<Rightarrow> OPoICache \<Rightarrow> OPoICache" where
  "apply_all e p nHeight txs = fold (\<lambda>tx. ProcessOPoITransaction e (Some p) tx (word_of_int nHeight) False) txs"

lemma tx_apply_cache:
  "nd_cache (snd (tx_apply e p cx h tx st)) = apply_all e p h (filter (applied_tx e cx) [tx]) (nd_cache st)"
  "cn_applied (snd (tx_apply e p cx h tx st)) = cn_applied st @ filter (applied_tx e cx) [tx]"
  "fst (tx_apply e p cx h tx st) = None"
  by (auto simp: tx_apply_def process_opoi_def pass_def applied_tx_def apply_all_def)

text \<open>
  A step that applies the transactions of \<open>L\<close>: the ones applied are a prefix of \<open>L\<close>, all of it
  when the step did not reject.
\<close>

definition applies :: "opoi_env \<Rightarrow> Params \<Rightarrow> int \<Rightarrow> CTransaction list \<Rightarrow> step \<Rightarrow> bool" where
  "applies e p h L f \<longleftrightarrow> (\<forall>st. \<exists>xs. prefix xs L \<and> cn_applied (snd (f st)) = cn_applied st @ xs \<and>
     nd_cache (snd (f st)) = apply_all e p h xs (nd_cache st) \<and> (fst (f st) = None \<longrightarrow> xs = L))"

lemma applies_none: "(\<And>st. same_cache st (snd (f st))) \<Longrightarrow> applies e p h [] f"
  by (simp add: applies_def same_cache_def apply_all_def)

lemma applies_next:
  assumes "applies e p h L f" "applies e p h M g"
  shows "applies e p h (L @ M) (next_do f g)"
  unfolding applies_def
proof
  fix st
  obtain xs where xs: "prefix xs L" "cn_applied (snd (f st)) = cn_applied st @ xs"
    "nd_cache (snd (f st)) = apply_all e p h xs (nd_cache st)" "fst (f st) = None \<longrightarrow> xs = L"
    using assms(1) unfolding applies_def by (elim allE [of _ st] exE conjE)
  obtain ys where ys: "prefix ys M" "cn_applied (snd (g (snd (f st)))) = cn_applied (snd (f st)) @ ys"
    "nd_cache (snd (g (snd (f st)))) = apply_all e p h ys (nd_cache (snd (f st)))"
    "fst (g (snd (f st))) = None \<longrightarrow> ys = M"
    using assms(2) unfolding applies_def by (elim allE [of _ "snd (f st)"] exE conjE)
  show "\<exists>zs. prefix zs (L @ M) \<and> cn_applied (snd (next_do f g st)) = cn_applied st @ zs \<and>
      nd_cache (snd (next_do f g st)) = apply_all e p h zs (nd_cache st) \<and> (fst (next_do f g st) = None \<longrightarrow> zs = L @ M)"
  proof (cases "fst (f st) = None")
    case True
    with xs ys show ?thesis
      by (intro exI [of _ "xs @ ys"]) (simp add: next_do_snd next_do_None apply_all_def)
  next
    case False
    with xs show ?thesis
      by (intro exI [of _ xs]) (auto simp: next_do_snd next_do_None prefix_def)
  qed
qed

lemma applies_frame: "(\<And>f st. f \<in> set fs \<Longrightarrow> same_cache st (snd (f st))) \<Longrightarrow> applies e p h [] (do_all fs)"
  by (intro applies_none same_cache_all)

lemma applies_tx_apply: "applies e p h (filter (applied_tx e cx) [tx]) (tx_apply e p cx h tx)"
  unfolding applies_def by (intro allI exI [of _ "filter (applied_tx e cx) [tx]"]) (simp add: tx_apply_cache)

lemma applies_connect_tx: "applies e p h (filter (applied_tx e cx) [tx]) (connect_tx e p cx base h tx)"
proof -
  have "applies e p h ([] @ filter (applied_tx e cx) [tx] @ [])
      (next_do (do_all (tx_checks e p cx base h tx)) (next_do (tx_apply e p cx h tx) (do_all (tx_coins e p cx base h tx))))"
    by (intro applies_next applies_tx_apply applies_none same_cache_checks same_cache_coins)
  moreover have "connect_tx e p cx base h tx =
      next_do (do_all (tx_checks e p cx base h tx)) (next_do (tx_apply e p cx h tx) (do_all (tx_coins e p cx base h tx)))"
    by (rule ext) (rule connect_tx_stages)
  ultimately show ?thesis by simp
qed

lemma applies_connect_all: "applies e p h (filter (applied_tx e cx) vtx) (do_all (map (connect_tx e p cx base h) vtx))"
proof (induction vtx)
  case Nil
  show ?case using applies_frame [of "[]"] by simp
next
  case (Cons tx vtx)
  have "filter (applied_tx e cx) (tx # vtx) = filter (applied_tx e cx) [tx] @ filter (applied_tx e cx) vtx" by simp
  with applies_next [OF applies_connect_tx [of e p h cx tx base] Cons.IH] show ?case by (simp only: list.map do_all.simps)
qed

lemma do_all_append_fun: "do_all (fs @ gs) = next_do (do_all fs) (do_all gs)"
  by (rule ext) (rule do_all_append)

definition block_checks :: "opoi_env \<Rightarrow> Params \<Rightarrow> connect_ctx \<Rightarrow> coins_base \<Rightarrow> CTransaction list \<Rightarrow> int \<Rightarrow> step list" where
  "block_checks e p cx base vtx nHeight =
     [only (cx_block cx), check_transactions e p vtx] @ map (bip30 base) vtx @ [opoi_block_checks e p vtx nHeight]"

lemma connect_body_stages:
  "connect_body e p cx base vtx h = next_do (do_all (block_checks e p cx base vtx h))
     (next_do (do_all (map (connect_tx e p cx base h) vtx)) (do_all [only (cx_final cx)]))"
  unfolding connect_body_def block_checks_def do_all_append_fun [symmetric] by (simp only: append_assoc)

lemma applies_connect_body: "applies e p h (filter (applied_tx e cx) vtx) (connect_body e p cx base vtx h)"
proof -
  have "applies e p h [] (do_all (block_checks e p cx base vtx h))"
    by (rule applies_frame) (auto simp: block_checks_def)
  moreover have "applies e p h [] (do_all [only (cx_final cx)])" by (rule applies_frame) auto
  ultimately have "applies e p h ([] @ filter (applied_tx e cx) vtx @ []) (connect_body e p cx base vtx h)"
    unfolding connect_body_stages by (intro applies_next applies_connect_all)
  then show ?thesis by simp
qed

definition start :: "node \<Rightarrow> connecting" where
  "start nd = \<lparr>nd_view = nd_view nd, nd_cache = nd_cache nd, nd_apps = nd_apps nd, cn_applied = [], cn_undo = []\<rparr>"

text \<open>The ways \<open>ConnectBlock\<close> ends.\<close>

lemma ConnectBlock_cases:
  assumes "ConnectBlock e p cx base vtx h nd = (r, nd', us)"
  obtains (genesis) "cx_genesis cx" "r = None" "nd' = nd" "us = []"
  | (undone) st where "\<not> cx_genesis cx" "connect_body e p cx base vtx h (start nd) = (r, st)" "r \<noteq> None \<or> cx_fJustCheck cx"
      "nd' = \<lparr>nd_view = nd_view st, nd_cache = OPoIConnectGuard e (cn_applied st) False (word_of_int h) (nd_cache st),
        nd_apps = nd_apps st\<rparr>" "us = drop 1 (cn_undo st)"
  | (disk) st where "\<not> cx_genesis cx" "connect_body e p cx base vtx h (start nd) = (None, st)" "\<not> cx_fJustCheck cx"
      "cx_disk cx \<noteq> None" "r \<noteq> None" "nd_cache nd' = nd_cache st" "nd_view nd' = nd_view st" "nd_apps nd' = nd_apps st"
      "us = drop 1 (cn_undo st)"
  | (connected) st where "\<not> cx_genesis cx" "connect_body e p cx base vtx h (start nd) = (None, st)" "\<not> cx_fJustCheck cx"
      "cx_disk cx = None" "r = None" "nd_view nd' = nd_view st" "nd_apps nd' = nd_apps st"
      "nd_cache nd' = (if opoi_live e p h then opoi_block_end p vtx (word_of_int h) (nd_cache st) else nd_cache st)"
      "us = drop 1 (cn_undo st)"
proof -
  obtain r0 st where b: "connect_body e p cx base vtx h (start nd) = (r0, st)" by fastforce
  have c: "ConnectBlock e p cx base vtx h nd =
     (if cx_genesis cx then (None, nd, [])
      else
        let fCommitted = (r0 = None \<and> \<not> cx_fJustCheck cx);
            cache = OPoIConnectGuard e (cn_applied st) fCommitted (word_of_int h) (nd_cache st);
            nd' = \<lparr>nd_view = nd_view st, nd_cache = cache, nd_apps = nd_apps st\<rparr>
        in if \<not> fCommitted then (r0, nd', drop 1 (cn_undo st))
           else (case cx_disk cx of
               Some r' \<Rightarrow> (Some r', nd', drop 1 (cn_undo st))
             | None \<Rightarrow>
                 (None, nd'\<lparr>nd_cache := (if opoi_live e p h
                      then opoi_block_end p vtx (word_of_int h) cache else cache)\<rparr>, drop 1 (cn_undo st))))"
    by (simp only: ConnectBlock_def b [unfolded start_def] prod.case Let_def)
  show ?thesis
  proof (cases "cx_genesis cx")
    case True
    with c assms show ?thesis by (intro genesis) simp_all
  next
    case g: False
    show ?thesis
    proof (cases "r0 = None \<and> \<not> cx_fJustCheck cx")
      case False
      with g c assms b show ?thesis by (intro undone [of st]) (auto simp: Let_def)
    next
      case True
      then have b': "connect_body e p cx base vtx h (start nd) = (None, st)" using b by simp
      show ?thesis
      proof (cases "cx_disk cx")
        case None
        with g c assms b' True show ?thesis by (intro connected [of st]) (auto simp: Let_def OPoIConnectGuard_def)
      next
        case (Some r')
        with g c assms b' True show ?thesis by (intro disk [of st]) (auto simp: Let_def OPoIConnectGuard_def)
      qed
    qed
  qed
qed

lemma ready_block_prefix: "ready_block e p h (xs @ ys) c \<Longrightarrow> ready_block e p h xs c"
  by (induction xs arbitrary: c) simp_all

lemma guard_restores:
  assumes "cache_inv c" "ready_block e (Some p) (word_of_int h) xs c"
  shows "canon (OPoIConnectGuard e xs False (word_of_int h) (apply_all e p h xs c)) = canon c"
  using opoi_undo.fold_und_app [OF assms(1), where e = e and p = "Some p" and h = "word_of_int h" and ts = xs] assms(2)
  by (simp add: OPoIConnectGuard_def ready_block_run apply_all_def undo_params [of e "Some p"])


definition sample_ctx :: connect_ctx where
  "sample_ctx = \<lparr>cx_fJustCheck = False, cx_genesis = False, cx_block = None, cx_tx = (\<lambda>_. None),
     cx_shielded = (\<lambda>_. None), cx_inputs = (\<lambda>_. None), cx_final = None, cx_disk = None\<rparr>"

definition sample_node :: node where
  "sample_node = \<lparr>nd_view = [], nd_cache = OPoICache_init, nd_apps = []\<rparr>"

lemma connect_body_final: "cx_final cx = Some r \<Longrightarrow> fst (connect_body e p cx base vtx h st) \<noteq> None"
  by (simp add: connect_body_stages next_do_None only_def)

lemma ConnectBlock_final:
  assumes "ConnectBlock e p cx base vtx h nd = (r, nd', us)" "cx_final cx = Some r'" "\<not> cx_genesis cx"
  shows "r \<noteq> None"
  using assms(1) connect_body_final [OF assms(2), of e p base vtx h "start nd"] assms(3)
  by (cases rule: ConnectBlock_cases) simp_all


section \<open>Locked collateral stays unspent\<close>

text \<open>An output that is locked, and not by a challenge: the collateral of a stake or an audit.\<close>

definition pledged :: "COutPoint \<Rightarrow> OPoICache \<Rightarrow> bool" where
  "pledged out c \<longleftrightarrow> IsLockedUTXO c out \<and>
     (\<forall>k ch. sm_find (mapChallenges c) k = Some ch \<longrightarrow> ch_challengerCollateral ch \<noteq> out)"

lemma pledged_frame:
  "mapLockedUTXOs c' = mapLockedUTXOs c \<Longrightarrow> mapChallenges c' = mapChallenges c \<Longrightarrow> pledged out c' = pledged out c"
  by (simp add: pledged_def IsLockedUTXO_def)

lemma pledged_lock:
  "pledged out c \<Longrightarrow> mapLockedUTXOs c' = sm_put o2 a (mapLockedUTXOs c) \<Longrightarrow> mapChallenges c' = mapChallenges c \<Longrightarrow>
     pledged out c'"
  by (simp add: pledged_def IsLockedUTXO_def)

lemma pledged_commit:
  assumes "pledged out c" "opoiChallengerCollateralIn tx \<noteq> out"
  shows "pledged out (apply_challenge_commit tx h c)"
  using assms
  by (auto simp: pledged_def IsLockedUTXO_def apply_challenge_commit_def Let_def LockUTXO_def AddChallenge_def
      split: option.splits if_splits)

lemma pledged_reveal:
  assumes "pledged out c"
  shows "pledged out (apply_challenge_reveal pp tx c)"
proof (cases "sm_find (mapChallenges c) (opoiRequestId tx)")
  case None
  then show ?thesis using assms by (simp add: apply_challenge_reveal_def)
next
  case (Some ch)
  have ch: "ch_challengerCollateral ch \<noteq> out" using assms Some by (auto simp: pledged_def)
  have put: "pledged out (c'\<lparr>mapChallenges := sm_put k x (mapChallenges c')\<rparr>)"
    if "pledged out c'" "ch_challengerCollateral x \<noteq> out" for c' k x
    using that by (auto simp: pledged_def IsLockedUTXO_def)
  have unl: "pledged out (UnlockUTXO (ch_challengerCollateral ch) c')" if "pledged out c'" for c'
    using that ch by (simp add: pledged_def IsLockedUTXO_def UnlockUTXO_def)
  have sl: "pledged out (slash_responder r c)" for r
    using assms by (subst pledged_frame [where c = c]) (simp_all add: frame_simps)
  show ?thesis
    using Some ch assms
    by (auto simp: apply_challenge_reveal_def Let_def split: option.splits intro!: put unl sl)
qed

lemma pledged_auditor: "pledged out c \<Longrightarrow> pledged out (apply_auditor_verify tx h c)"
  by (auto simp: apply_auditor_verify_def Let_def AddAuditorVerification_def AddShardAuditorVerification_def
      LockUTXO_def pledged_def IsLockedUTXO_def)

lemma pledged_Apply:
  assumes "pledged out c" "nType tx = OPOI_CHALLENGE_TX_TYPE \<Longrightarrow> opoiChallengePhase tx = 0 \<Longrightarrow> opoiChallengerCollateralIn tx \<noteq> out"
  shows "pledged out (ApplyOPoITransaction e pp tx h c)"
proof -
  have "pledged out (apply_request tx h c)" "pledged out (apply_response_commit tx h c)"
    "pledged out (apply_response_reveal e pp tx h c)" "pledged out (apply_unstake tx h c)"
    "pledged out (apply_renew tx h c)" "pledged out (apply_model_register e pp tx h c)"
    "pledged out (apply_model_vote tx h c)" "pledged out (apply_coordinator_claim tx h c)"
    "pledged out (apply_shard_result tx h c)"
    using assms(1) by (subst pledged_frame [where c = c]; simp add: frame_simps)+
  moreover have "pledged out (apply_stake e tx h c)"
    using assms(1) by (rule pledged_lock) (simp_all add: apply_stake_def LockUTXO_def AddStake_def)
  ultimately show ?thesis
    using assms pledged_commit [of out c tx h] pledged_reveal [of out c pp tx] pledged_auditor [of out c tx h]
    by (simp add: ApplyOPoITransaction_def)
qed

text \<open>No accepted challenge pledges an output that is already locked.\<close>

lemma accepted_commit_unlocked:
  assumes "CheckOPoITransaction e p c tx = None" "nVersion tx = OPOI_TX_VERSION" "\<not> fIsVerifying e"
    and "nType tx = OPOI_CHALLENGE_TX_TYPE" "opoiChallengePhase tx = 0"
  shows "\<not> IsLockedUTXO c (opoiChallengerCollateralIn tx)"
proof -
  have "check_challenge e c tx = None"
    using assms(1,2,4) by (simp add: CheckOPoITransaction_def check_cases split: if_splits)
  then have "check_challenge_commit e c tx = None"
    using assms(5) by (auto simp: check_challenge_def reject_if_def split: option.splits if_splits)
  then show ?thesis
    using assms(3) by (auto simp: check_challenge_commit_def live_def reject_if_def split: if_splits)
qed

definition view_kept :: "coins_base \<Rightarrow> connecting \<Rightarrow> connecting \<Rightarrow> bool" where
  "view_kept base st st' \<longleftrightarrow> (coherent base (nd_view st) \<longrightarrow>
     coherent base (nd_view st') \<and> raw base (nd_view st') = raw base (nd_view st))"

lemma view_kept_steps [simp]:
  "view_kept base st (snd (only r st))" "view_kept base st (snd (check_transactions e p vtx st))"
  "view_kept base st (snd (opoi_block_checks e p vtx h st))" "view_kept base st (snd (no_locked_inputs e p h tx st))"
  "view_kept base st (snd (process_csapp h tx st))" "view_kept base st (snd (tx_apply e p cx h tx st))"
  by (simp_all add: view_kept_def only_def check_transactions_def opoi_block_checks_def no_locked_inputs_def
      process_csapp_def tx_apply_def process_opoi_def pass_def)

lemma view_kept_reads [simp]:
  "view_kept base st (snd (bip30 base tx st))" "view_kept base st (snd (need_inputs base tx st))"
  "view_kept base st (snd (stake_collateral e p cx base h tx st))"
proof -
  show "view_kept base st (snd (bip30 base tx st))"
    using AccessCoins_coherent [of base "nd_view st" "tx_hash tx"]
    by (auto simp: view_kept_def bip30_def split: prod.splits option.splits)
  show "view_kept base st (snd (need_inputs base tx st))"
    using HaveInputs_coherent [of base "nd_view st" tx]
    by (auto simp: view_kept_def need_inputs_def split: prod.splits)
  have g: "coherent base m \<Longrightarrow> GetCoins base k m = (c, m') \<Longrightarrow> coherent base m' \<and> raw base m' = raw base m" for k m c m'
    using FetchCoins_coherent(1,2) [of base m k] by (auto simp: GetCoins_def split: prod.splits option.splits)
  show "view_kept base st (snd (stake_collateral e p cx base h tx st))"
    using g by (auto simp: view_kept_def stake_collateral_def pass_def split: prod.splits option.splits)
qed

lemma view_kept_all:
  assumes "\<And>f st. f \<in> set fs \<Longrightarrow> view_kept base st (snd (f st))"
  shows "view_kept base st (snd (do_all fs st))"
  using do_all_keeps [of fs "view_kept base st" st] assms by (auto simp: view_kept_def)

lemma view_kept_checks: "view_kept base st (snd (do_all (tx_checks e p cx base h tx) st))"
  by (rule view_kept_all) (auto simp: tx_checks_def split: if_splits)

lemma checks_unlocked:
  assumes "fst (do_all (tx_checks e p cx base h tx) st) = None" "\<not> IsCoinBase tx" "opoi_live e p h" "out \<in> set (vin tx)"
  shows "\<not> IsLockedUTXO (nd_cache st) out"
proof -
  let ?st1 = "snd (only (cx_tx cx tx) st)"
  let ?st2 = "snd (need_inputs base tx ?st1)"
  have "fst (no_locked_inputs e p h tx ?st2) = None"
    using assms(1,2) by (simp add: tx_checks_def next_do_None)
  moreover have "nd_cache ?st2 = nd_cache st"
    using same_cache_steps(1) [of st "cx_tx cx tx"] same_cache_steps(5) [of ?st1 base tx] by (simp add: same_cache_def)
  ultimately show ?thesis
    using assms(3,4) by (auto simp: no_locked_inputs_def only_def reject_if_def list_ex_iff split: if_splits)
qed

lemma coins_stage:
  assumes "fst (do_all (tx_coins e p cx base h tx) st) = None"
  obtains st1 where "view_kept base st st1" "update_coins base h tx st1 = (None, snd (do_all (tx_coins e p cx base h tx) st))"
proof -
  let ?fs = "(if IsCoinBase tx then [] else [only (cx_shielded cx tx)]) @
     [stake_collateral e p cx base h tx] @ (if IsCoinBase tx then [] else [only (cx_inputs cx tx)])"
  have eq: "do_all (tx_coins e p cx base h tx) = next_do (do_all ?fs) (update_coins base h tx)"
    unfolding tx_coins_def by (simp only: append_assoc [symmetric] do_all_append_fun) simp
  have "view_kept base st (snd (do_all ?fs st))" by (rule view_kept_all) (auto split: if_splits)
  moreover have "update_coins base h tx (snd (do_all ?fs st)) = (None, snd (do_all (tx_coins e p cx base h tx) st))"
    using assms unfolding eq by (simp add: next_do_None next_do_snd prod_eq_iff)
  ultimately show ?thesis by (rule that)
qed

text \<open>One transaction of a block that connects.\<close>

lemma connect_tx_pledged:
  assumes ok: "fst (connect_tx e p cx base h tx st) = None" and live: "opoi_live e p h" and h: "h \<noteq> 0"
    and c: "coherent base (nd_view st)" and s: "sane_tx tx" and f: "fresh_ids base (nd_view st) (tx # txs)"
    and pl: "pledged out (nd_cache st)" and us: "unspent base (nd_view st) out"
    and ch: "nVersion tx = OPOI_TX_VERSION \<Longrightarrow> nType tx = OPOI_CHALLENGE_TX_TYPE \<Longrightarrow> opoiChallengePhase tx = 0 \<Longrightarrow>
      opoiChallengerCollateralIn tx \<noteq> out"
  defines "st' \<equiv> snd (connect_tx e p cx base h tx st)"
  shows "coherent base (nd_view st') \<and> fresh_ids base (nd_view st') txs \<and> pledged out (nd_cache st') \<and>
    unspent base (nd_view st') out"
proof -
  let ?st1 = "snd (do_all (tx_checks e p cx base h tx) st)"
  let ?st2 = "snd (tx_apply e p cx h tx ?st1)"
  have o1: "fst (do_all (tx_checks e p cx base h tx) st) = None" "fst (do_all (tx_coins e p cx base h tx) ?st2) = None"
    and st': "st' = snd (do_all (tx_coins e p cx base h tx) ?st2)"
    using ok by (simp_all add: st'_def connect_tx_stages next_do_None next_do_snd)
  have k1: "nd_cache ?st1 = nd_cache st" using same_cache_checks by (simp add: same_cache_def)
  have "nd_cache st' = nd_cache ?st2" using same_cache_coins [of ?st2] st' by (simp add: same_cache_def)
  also have "\<dots> = apply_all e p h (filter (applied_tx e cx) [tx]) (nd_cache st)" by (simp add: tx_apply_cache k1)
  finally have pl': "pledged out (nd_cache st')"
    using pl ch pledged_Apply [of out "nd_cache st" tx e "Some p" "word_of_int h"]
    by (auto simp: apply_all_def ProcessOPoITransaction_def)
  obtain st3 where v3: "view_kept base ?st2 st3" and u3: "update_coins base h tx st3 = (None, st')"
    using coins_stage [OF o1(2)] unfolding st' .
  have v: "coherent base (nd_view st3)" "raw base (nd_view st3) = raw base (nd_view st)"
    using v3 view_kept_checks [of base st e p cx h tx] view_kept_steps(6) [of base ?st1 e p cx h tx] c
    by (auto simp: view_kept_def)
  obtain us0 m' where u: "UpdateCoins base tx h (nd_view st3) = Some (us0, m')" and m': "nd_view st' = m'"
    using u3 by (auto simp: update_coins_def split: option.splits prod.splits)
  have fr: "fresh_id base (nd_view st3) = fresh_id base (nd_view st)" and un: "unspent base (nd_view st3) out"
    using v us by (simp_all add: fresh_id_def unspent_def look_def fun_eq_iff)
  have f3: "fresh_id base (nd_view st3) (tx_hash tx)" using f fr by (simp add: fresh_ids_def)
  note d = disconnect_UpdateCoins(1,2) [OF v(1) s h f3 u]
  have "fresh_ids base m' txs" by (rule fresh_ids_next [OF f]) (use d(2) fr in auto)
  moreover have "out \<notin> set (vin tx)" if "\<not> IsCoinBase tx"
    using checks_unlocked [OF o1(1) that live] pl by (auto simp: pledged_def)
  ultimately show ?thesis using d(1) pl' m' UpdateCoins_unspent [OF v(1) s h f3 u _ un] by simp
qed

lemma connect_all_pledged:
  "fst (do_all (map (connect_tx e p cx base h) vtx) st) = None \<Longrightarrow> opoi_live e p h \<Longrightarrow> h \<noteq> 0 \<Longrightarrow>
     coherent base (nd_view st) \<Longrightarrow> \<forall>tx\<in>set vtx. sane_tx tx \<Longrightarrow> fresh_ids base (nd_view st) vtx \<Longrightarrow>
     pledged out (nd_cache st) \<Longrightarrow> unspent base (nd_view st) out \<Longrightarrow>
     \<forall>tx\<in>set vtx. nVersion tx = OPOI_TX_VERSION \<longrightarrow> nType tx = OPOI_CHALLENGE_TX_TYPE \<longrightarrow> opoiChallengePhase tx = 0 \<longrightarrow>
       opoiChallengerCollateralIn tx \<noteq> out \<Longrightarrow>
     pledged out (nd_cache (snd (do_all (map (connect_tx e p cx base h) vtx) st))) \<and>
     unspent base (nd_view (snd (do_all (map (connect_tx e p cx base h) vtx) st))) out"
proof (induction vtx arbitrary: st)
  case (Cons tx vtx)
  let ?st1 = "snd (connect_tx e p cx base h tx st)"
  have ok: "fst (connect_tx e p cx base h tx st) = None" "fst (do_all (map (connect_tx e p cx base h) vtx) ?st1) = None"
    using Cons.prems(1) by (simp_all add: next_do_None)
  have "coherent base (nd_view ?st1) \<and> fresh_ids base (nd_view ?st1) vtx \<and> pledged out (nd_cache ?st1) \<and>
    unspent base (nd_view ?st1) out"
    by (rule connect_tx_pledged [OF ok(1) Cons.prems(2-4) _ Cons.prems(6-8)]) (use Cons.prems(5,9) in auto)
  then show ?case
    using Cons.IH [OF ok(2) Cons.prems(2,3)] Cons.prems(5,9) ok by (simp add: next_do_snd)
qed (simp add: pass_def)

lemma first_reject_all: "first_reject (map f xs) = None \<Longrightarrow> x \<in> set xs \<Longrightarrow> f x = None"
  by (induction xs) (auto split: option.splits)

lemma body_accepted:
  assumes "fst (connect_body e p cx base vtx h st) = None" "tx \<in> set vtx"
  shows "CheckOPoITransaction e p (nd_cache st) tx = None"
proof -
  have "fst (check_transactions e p vtx (snd (only (cx_block cx) st))) = None"
    using assms(1) by (simp add: connect_body_stages block_checks_def next_do_None)
  then have "first_reject (map (\<lambda>tx. first_reject [CheckCSAppTransaction tx, CheckOPoITransaction e p (nd_cache st) tx]) vtx) = None"
    by (simp add: check_transactions_def only_def)
  from first_reject_all [OF this assms(2)] show ?thesis by (auto split: option.splits)
qed

lemma view_kept_block_checks: "view_kept base st (snd (do_all (block_checks e p cx base vtx h) st))"
  by (rule view_kept_all) (auto simp: block_checks_def)

lemma same_cache_block_checks: "same_cache st (snd (do_all (block_checks e p cx base vtx h) st))"
  by (rule same_cache_all) (auto simp: block_checks_def)


definition sample_locked :: node where
  "sample_locked = sample_node\<lparr>nd_cache := OPoICache_init\<lparr>mapLockedUTXOs := [(COutPoint [9] 0, ''m'')]\<rparr>\<rparr>"

lemma sample_payments:
  "CheckOPoIPayments sample_env (nd_cache sample_locked) [sample_cb, sample_spend] 300 regtest_params = None"
proof -
  have "map snd (block_payments sample_env (nd_cache sample_locked) [sample_cb, sample_spend] 300 regtest_params) = [[], [], [], []]"
    by code_simp
  then obtain a b c d where "block_payments sample_env (nd_cache sample_locked) [sample_cb, sample_spend] 300 regtest_params =
      [(a, []), (b, []), (c, []), (d, [])]" by (auto simp: map_eq_Cons_conv)
  then show ?thesis by (simp add: CheckOPoIPayments_def sample_subsidy)
qed

lemma sample_checks:
  "fst (do_all (block_checks sample_env regtest_params sample_ctx sample_coins [sample_cb, sample_spend] 300) (start sample_locked)) = None"
proof -
  let ?pre = "[only (cx_block sample_ctx), check_transactions sample_env regtest_params [sample_cb, sample_spend]] @
    map (bip30 sample_coins) [sample_cb, sample_spend]"
  have "fst (do_all ?pre (start sample_locked)) = None" by code_simp
  moreover have "same_cache (start sample_locked) (snd (do_all ?pre (start sample_locked)))"
    by (rule same_cache_all) auto
  then have "nd_cache (snd (do_all ?pre (start sample_locked))) = nd_cache sample_locked"
    by (simp add: same_cache_def start_def)
  moreover have "CheckOPoIBlockCaps [sample_cb, sample_spend] regtest_params = None"
    "CheckOPoIChallengerRewards sample_env (nd_cache sample_locked) [sample_cb, sample_spend] regtest_params = None"
    by code_simp+
  ultimately have "fst (opoi_block_checks sample_env regtest_params [sample_cb, sample_spend] 300
      (snd (do_all ?pre (start sample_locked)))) = None"
    using sample_payments by (simp only: opoi_block_checks_def only_def first_reject.simps fst_conv if_cancel option.case)
  then show ?thesis
    using \<open>fst (do_all ?pre (start sample_locked)) = None\<close>
    unfolding block_checks_def append_assoc [symmetric] do_all_append by (simp only: next_do_None do_all.simps next_do_pass)
qed

lemma sample_body: "fst (connect_body sample_env regtest_params sample_ctx sample_coins [sample_cb, sample_spend] 300 (start sample_locked)) = None"
proof -
  let ?b = "block_checks sample_env regtest_params sample_ctx sample_coins [sample_cb, sample_spend] 300"
  have step: "snd (f (start sample_locked)) = start sample_locked" if "f \<in> set ?b" for f
    using that
    by (auto simp: block_checks_def only_def check_transactions_def opoi_block_checks_def bip30_def AccessCoins_def
        FetchCoins_def sample_coins_def sample_cb_def sample_spend_def start_def sample_locked_def sample_node_def)
  have "snd (do_all ?b (start sample_locked)) = start sample_locked"
    by (rule do_all_keeps [of ?b "\<lambda>st. st = start sample_locked"]) (use step in auto)
  moreover have "fst (do_all (map (connect_tx sample_env regtest_params sample_ctx sample_coins 300) [sample_cb, sample_spend])
      (start sample_locked)) = None" by code_simp
  moreover have "fst (only (cx_final sample_ctx) st) = None" for st by (simp add: only_def sample_ctx_def)
  ultimately show ?thesis
    using sample_checks by (simp only: connect_body_stages next_do_None do_all.simps next_do_pass simp_thms)
qed


end
