(* ===== verification/Opoi_Relay.thy ===== *)
theory Opoi_Relay
  imports Opoi_Check
begin

text \<open>
  The two relay messages of the OPoI subsystem (\<^verbatim>\<open>ProcessOPoIDataMessage\<close> and
  \<^verbatim>\<open>ProcessOPoIContentMessage\<close> of \<^verbatim>\<open>opoi/opoi.cpp\<close>) and their peer-to-peer handlers in \<^verbatim>\<open>main.cpp\<close>:
  deliveries to one staker, authorized by a signature, and content that any auditor reads,
  authorized by a hash on the chain. The lemmas show which role signed a stored delivery, that
  a flooded message is pushed to a peer once, and which parts of a message nothing fixes.
\<close>

section \<open>Deliveries\<close>

definition OPOI_DELIVERY_PROMPT :: u8 where "OPOI_DELIVERY_PROMPT = 0"
definition OPOI_DELIVERY_SHARD_ASSIGN :: u8 where "OPOI_DELIVERY_SHARD_ASSIGN = 1"
definition OPOI_DELIVERY_SHARD_RESULT :: u8 where "OPOI_DELIVERY_SHARD_RESULT = 2"
definition OPOI_DELIVERY_MODEL_CHUNK_REQUEST :: u8 where "OPOI_DELIVERY_MODEL_CHUNK_REQUEST = 3"
definition OPOI_DELIVERY_MODEL_CHUNK :: u8 where "OPOI_DELIVERY_MODEL_CHUNK = 4"
definition OPOI_DELIVERY_MAX_PAYLOAD_HEX :: nat where "OPOI_DELIVERY_MAX_PAYLOAD_HEX = 131072"

record COPoIDataMsg =
  dm_destStakeAddress :: address
  dm_requestId :: string
  dm_kind :: u8
  dm_senderAddress :: address
  dm_payloadHex :: string
  dm_sigTime :: u32
  dm_sig :: bytes

definition ser_vec :: "bytes \<Rightarrow> bytes" where
  "ser_vec bs = WriteCompactSize (length bs) @ bs"

definition COPoIDataMsg_GetHash :: "opoi_env \<Rightarrow> COPoIDataMsg \<Rightarrow> uint256" where
  "COPoIDataMsg_GetHash e m = hash256 e
     (ser_string (dm_destStakeAddress m) @ ser_string (dm_requestId m) @ [dm_kind m] @
      ser_string (dm_senderAddress m) @ ser_string (dm_payloadHex m) @ ser_u32 (dm_sigTime m) @ ser_vec (dm_sig m))"

text \<open>The address whose signature a delivery needs, or the reason it is refused.\<close>

definition expected_signer :: "OPoICache \<Rightarrow> OPoIRequest \<Rightarrow> COPoIDataMsg \<Rightarrow> string + address" where
  "expected_signer c req msg =
     (if dm_kind msg = OPOI_DELIVERY_PROMPT then Inr (rq_requester req)
      else if dm_kind msg = OPOI_DELIVERY_SHARD_ASSIGN then
        (if dm_senderAddress msg = [] \<or> \<not> IsClaimedCoordinator c (dm_requestId msg) (dm_senderAddress msg)
         then Inl ''not-a-coordinator'' else Inr (dm_senderAddress msg))
      else if dm_kind msg = OPOI_DELIVERY_SHARD_RESULT \<or> dm_kind msg = OPOI_DELIVERY_MODEL_CHUNK_REQUEST \<or>
              dm_kind msg = OPOI_DELIVERY_MODEL_CHUNK then
        (if dm_senderAddress msg = [] \<or> \<not> IsActiveStaker c (dm_senderAddress msg)
         then Inl ''not-an-active-staker'' else Inr (dm_senderAddress msg))
      else Inl ''bad-kind'')"

definition data_sigMsg :: "COPoIDataMsg \<Rightarrow> string" where
  "data_sigMsg msg = ''OPOIDATA'' @ dm_requestId msg @ dm_destStakeAddress msg @ dec_u8 (dm_kind msg) @
     dm_senderAddress msg @ dm_payloadHex msg"

definition delivery_of :: "COPoIDataMsg \<Rightarrow> PendingDelivery" where
  "delivery_of msg = \<lparr>pd_requestId = dm_requestId msg, pd_kind = dm_kind msg, pd_payloadHex = dm_payloadHex msg,
     pd_sigTime = dm_sigTime msg, pd_senderAddress = dm_senderAddress msg\<rparr>"

text \<open>The reason of the refusal, or the cache with the delivery.\<close>

definition ProcessOPoIDataMessage :: "opoi_env \<Rightarrow> COPoIDataMsg \<Rightarrow> OPoICache \<Rightarrow> string + OPoICache" where
  "ProcessOPoIDataMessage e msg c =
     (if dm_destStakeAddress msg = [] \<or> dm_requestId msg = [] then Inl ''missing-fields''
      else if length (dm_payloadHex msg) > OPOI_DELIVERY_MAX_PAYLOAD_HEX then Inl ''payload-too-large''
      else case GetRequest c (dm_requestId msg) of
        None \<Rightarrow> Inl ''unknown-request''
      | Some req \<Rightarrow>
          if \<not> rq_IsPending req then Inl ''request-not-pending''
          else case expected_signer c req msg of
            Inl reason \<Rightarrow> Inl reason
          | Inr who \<Rightarrow>
              if VerifyOPoISig e who (data_sigMsg msg) (dm_sig msg) = None then Inl ''bad-sig''
              else Inr (AddPendingDelivery (dm_destStakeAddress msg) (delivery_of msg) c))"

section \<open>Content\<close>

definition OPOI_CONTENT_TEST_SUITE :: u8 where "OPOI_CONTENT_TEST_SUITE = 0"
definition OPOI_CONTENT_RESPONSE :: u8 where "OPOI_CONTENT_RESPONSE = 1"

record COPoIContentMsg =
  cm_requestId :: string
  cm_kind :: u8
  cm_payloadHex :: string

definition expected_content :: "OPoICache \<Rightarrow> COPoIContentMsg \<Rightarrow> string + uint256" where
  "expected_content c msg =
     (if cm_kind msg = OPOI_CONTENT_TEST_SUITE then
        (case GetRequest c (cm_requestId msg) of
           None \<Rightarrow> Inl ''unknown-or-not-verifiable-request''
         | Some req \<Rightarrow>
             if rq_taskType req \<noteq> OPOI_TASK_VERIFIABLE then Inl ''unknown-or-not-verifiable-request''
             else Inr (rq_testSuite req))
      else if cm_kind msg = OPOI_CONTENT_RESPONSE then
        (case GetResponse c (cm_requestId msg) of
           None \<Rightarrow> Inl ''no-revealed-response''
         | Some resp \<Rightarrow> if \<not> rs_IsRevealed resp then Inl ''no-revealed-response'' else Inr (rs_responseHash resp))
      else Inl ''bad-kind'')"

definition ProcessOPoIContentMessage :: "opoi_env \<Rightarrow> COPoIContentMsg \<Rightarrow> OPoICache \<Rightarrow> string + OPoICache" where
  "ProcessOPoIContentMessage e msg c =
     (if cm_requestId msg = [] then Inl ''missing-fields''
      else if length (cm_payloadHex msg) > OPOI_DELIVERY_MAX_PAYLOAD_HEX then Inl ''payload-too-large''
      else if HasContent c (cm_requestId msg) (cm_kind msg) then Inl ''already-known''
      else case expected_content c msg of
        Inl reason \<Rightarrow> Inl reason
      | Inr expectedHash \<Rightarrow>
          if uint256_IsNull expectedHash then Inl ''no-expected-hash''
          else if HexStr (sha256 e (ParseHex (cm_payloadHex msg))) \<noteq> GetHex expectedHash then Inl ''hash-mismatch''
          else Inr (AddContent (cm_requestId msg) (cm_kind msg) (cm_payloadHex msg) c))"

section \<open>Flooding\<close>

text \<open>
  The peers a node is connected to, each with the hashes it is known to have (\<^verbatim>\<open>setKnown\<close>).
  A handler returns the peers it pushes the message to.
\<close>

type_synonym peers = "(nat \<times> uint256 set) list"

definition mark_known :: "nat \<Rightarrow> uint256 \<Rightarrow> peers \<Rightarrow> peers" where
  "mark_known pfrom h ps = map (\<lambda>(n, known). (n, if n = pfrom then insert h known else known)) ps"

definition push_all :: "uint256 \<Rightarrow> peers \<Rightarrow> nat list \<times> peers" where
  "push_all h ps = (map fst (filter (\<lambda>(n, known). h \<notin> known) ps), map (\<lambda>(n, known). (n, insert h known)) ps)"

definition handle_opoidata ::
  "opoi_env \<Rightarrow> nat \<Rightarrow> COPoIDataMsg \<Rightarrow> OPoICache \<times> peers \<Rightarrow> nat list \<times> OPoICache \<times> peers" where
  "handle_opoidata e pfrom msg s = (case s of (c, ps) \<Rightarrow>
     let msgHash = COPoIDataMsg_GetHash e msg; ps = mark_known pfrom msgHash ps in
     if HasKnownOPoIDataHash c msgHash then ([], c, ps)
     else case ProcessOPoIDataMessage e msg c of
       Inl _ \<Rightarrow> ([], c, ps)
     | Inr c' \<Rightarrow> (case push_all msgHash ps of (pushed, ps') \<Rightarrow> (pushed, MarkOPoIDataHashKnown msgHash c', ps')))"

definition COPoIContentMsg_GetHash :: "opoi_env \<Rightarrow> COPoIContentMsg \<Rightarrow> uint256" where
  "COPoIContentMsg_GetHash e m = hash256 e (ser_string (cm_requestId m) @ [cm_kind m] @ ser_string (cm_payloadHex m))"

definition handle_opoicontent ::
  "opoi_env \<Rightarrow> nat \<Rightarrow> COPoIContentMsg \<Rightarrow> OPoICache \<times> peers \<Rightarrow> nat list \<times> OPoICache \<times> peers" where
  "handle_opoicontent e pfrom msg s = (case s of (c, ps) \<Rightarrow>
     let msgHash = COPoIContentMsg_GetHash e msg; ps = mark_known pfrom msgHash ps in
     case ProcessOPoIContentMessage e msg c of
       Inl _ \<Rightarrow> ([], c, ps)
     | Inr c' \<Rightarrow> (case push_all msgHash ps of (pushed, ps') \<Rightarrow> (pushed, c', ps')))"

lemma inv_relay:
  assumes "cache_inv c"
  shows "ProcessOPoIDataMessage e msg c = Inr c1 \<Longrightarrow> cache_inv c1"
    "ProcessOPoIContentMessage e cmsg c = Inr c2 \<Longrightarrow> cache_inv c2"
    "cache_inv (fst (snd (handle_opoidata e pfrom msg (c, ps))))"
    "cache_inv (fst (snd (handle_opoicontent e pfrom cmsg (c, ps))))"
proof -
  show d: "cache_inv c1" if "ProcessOPoIDataMessage e msg c = Inr c1" for c1
    using that assms inv_AddPendingDelivery
    by (auto simp: ProcessOPoIDataMessage_def split: if_splits option.splits sum.splits)
  show k: "cache_inv c2" if "ProcessOPoIContentMessage e cmsg c = Inr c2" for c2
    using that assms inv_AddContent
    by (auto simp: ProcessOPoIContentMessage_def split: if_splits option.splits sum.splits)
  have m: "cache_inv (MarkOPoIDataHashKnown h c1) = cache_inv c1" for h c1
    by (simp add: inv_registers)
  show "cache_inv (fst (snd (handle_opoidata e pfrom msg (c, ps))))"
    using assms d m by (auto simp: handle_opoidata_def Let_def split: sum.splits prod.splits)
  show "cache_inv (fst (snd (handle_opoicontent e pfrom cmsg (c, ps))))"
    using assms k by (auto simp: handle_opoicontent_def Let_def split: sum.splits prod.splits)
qed

section \<open>A message is pushed to a peer once\<close>

datatype relay_event = DataFrom nat COPoIDataMsg | ContentFrom nat COPoIContentMsg

fun event_hash :: "opoi_env \<Rightarrow> relay_event \<Rightarrow> uint256" where
  "event_hash e (DataFrom pfrom msg) = COPoIDataMsg_GetHash e msg"
| "event_hash e (ContentFrom pfrom msg) = COPoIContentMsg_GetHash e msg"

fun handle :: "opoi_env \<Rightarrow> relay_event \<Rightarrow> OPoICache \<times> peers \<Rightarrow> nat list \<times> OPoICache \<times> peers" where
  "handle e (DataFrom pfrom msg) s = handle_opoidata e pfrom msg s"
| "handle e (ContentFrom pfrom msg) s = handle_opoicontent e pfrom msg s"

text \<open>The pushes of a run of incoming messages: the peer and the hash of the message.\<close>

fun pushes :: "opoi_env \<Rightarrow> relay_event list \<Rightarrow> OPoICache \<times> peers \<Rightarrow> (nat \<times> uint256) list" where
  "pushes e [] s = []"
| "pushes e (ev # evs) s = (case handle e ev s of (pushed, s') \<Rightarrow>
     map (\<lambda>n. (n, event_hash e ev)) pushed @ pushes e evs s')"

definition known_by :: "peers \<Rightarrow> (nat \<times> uint256) set" where
  "known_by ps = {(n, h). \<exists>known. (n, known) \<in> set ps \<and> h \<in> known}"

lemma known_mark: "known_by ps \<subseteq> known_by (mark_known pfrom h ps)"
  by (force simp: known_by_def mark_known_def)

lemma mark_names [simp]: "map fst (mark_known pfrom h ps) = map fst ps"
  by (induction ps) (auto simp: mark_known_def)

lemma push_all_facts:
  assumes "distinct (map fst ps)" "push_all h ps = (pushed, ps')"
  shows "map fst ps' = map fst ps" "distinct pushed" "known_by ps \<subseteq> known_by ps'"
    "\<And>n. n \<in> set pushed \<Longrightarrow> (n, h) \<in> known_by ps' \<and> (n, h) \<notin> known_by ps"
proof -
  have p: "pushed = map fst (filter (\<lambda>(n, known). h \<notin> known) ps)" "ps' = map (\<lambda>(n, known). (n, insert h known)) ps"
    using assms(2) by (auto simp: push_all_def)
  show "map fst ps' = map fst ps" unfolding p by (induction ps) auto
  show "distinct pushed" unfolding p using assms(1) by (rule distinct_map_filter)
  show "known_by ps \<subseteq> known_by ps'" unfolding p known_by_def by force
  fix n assume "n \<in> set pushed"
  then obtain known where k: "(n, known) \<in> set ps" "h \<notin> known" unfolding p by auto
  then have "(n, insert h known) \<in> set ps'" unfolding p by force
  then have "(n, h) \<in> known_by ps'" unfolding known_by_def by auto
  moreover have "(n, h) \<notin> known_by ps"
  proof
    assume "(n, h) \<in> known_by ps"
    then obtain known' where "(n, known') \<in> set ps" "h \<in> known'" unfolding known_by_def by blast
    moreover from this(1) have "known' = known" by (rule eq_key_imp_eq_value [OF assms(1) _ k(1)])
    ultimately show False using k(2) by simp
  qed
  ultimately show "(n, h) \<in> known_by ps' \<and> (n, h) \<notin> known_by ps" by (rule conjI)
qed

lemma data_cases:
  assumes "handle_opoidata e pfrom msg (c, ps) = (pushed, c', ps')"
  shows "pushed = [] \<and> ps' = mark_known pfrom (COPoIDataMsg_GetHash e msg) ps \<or>
    push_all (COPoIDataMsg_GetHash e msg) (mark_known pfrom (COPoIDataMsg_GetHash e msg) ps) = (pushed, ps')"
proof (cases "HasKnownOPoIDataHash c (COPoIDataMsg_GetHash e msg)")
  case False
  then show ?thesis
    using assms by (cases "ProcessOPoIDataMessage e msg c") (simp_all add: handle_opoidata_def Let_def split: prod.splits)
qed (use assms in \<open>simp add: handle_opoidata_def\<close>)

lemma content_cases:
  assumes "handle_opoicontent e pfrom msg (c, ps) = (pushed, c', ps')"
  shows "pushed = [] \<and> ps' = mark_known pfrom (COPoIContentMsg_GetHash e msg) ps \<or>
    push_all (COPoIContentMsg_GetHash e msg) (mark_known pfrom (COPoIContentMsg_GetHash e msg) ps) = (pushed, ps')"
  using assms
  by (cases "ProcessOPoIContentMessage e msg c") (simp_all add: handle_opoicontent_def Let_def split: prod.splits)

lemma handle_cases:
  assumes "handle e ev (c, ps) = (pushed, c', ps')"
  obtains (stop) pfrom where "pushed = []" "ps' = mark_known pfrom (event_hash e ev) ps"
  | (push) pfrom where "push_all (event_hash e ev) (mark_known pfrom (event_hash e ev) ps) = (pushed, ps')"
  using assms data_cases content_cases by (cases ev) (simp_all, blast+)

lemma handle_facts:
  assumes "distinct (map fst ps)" "handle e ev (c, ps) = (pushed, c', ps')"
  shows "map fst ps' = map fst ps \<and> distinct pushed \<and> known_by ps \<subseteq> known_by ps' \<and>
    (\<forall>n\<in>set pushed. (n, event_hash e ev) \<in> known_by ps' \<and> (n, event_hash e ev) \<notin> known_by ps)"
  using assms(2)
proof (cases rule: handle_cases)
  case (stop pfrom)
  then show ?thesis using known_mark by simp
next
  case (push pfrom)
  have d: "distinct (map fst (mark_known pfrom (event_hash e ev) ps))" using assms(1) by simp
  show ?thesis using push_all_facts [OF d push] known_mark [of ps pfrom "event_hash e ev"] by auto
qed

lemma pushes_fresh:
  "distinct (map fst ps) \<Longrightarrow> distinct (pushes e evs (c, ps)) \<and> set (pushes e evs (c, ps)) \<inter> known_by ps = {}"
proof (induction evs arbitrary: c ps)
  case (Cons ev evs)
  obtain pushed c' ps' where h: "handle e ev (c, ps) = (pushed, c', ps')" by (rule prod_cases3)
  note f = handle_facts [OF Cons.prems h]
  have "distinct (map fst ps')" using f Cons.prems by simp
  from Cons.IH [OF this, of c'] have IH: "distinct (pushes e evs (c', ps'))"
    "set (pushes e evs (c', ps')) \<inter> known_by ps' = {}" by auto
  have "distinct (map (\<lambda>n. (n, event_hash e ev)) pushed)" using f by (simp add: distinct_map inj_on_def)
  with h f IH show ?case by auto
qed simp

text \<open>
  However often, from whomever and in whatever order relay messages arrive, a node pushes a
  message to a peer at most once, and never to a peer that is known to have it; so a flood of
  finitely many messages ends.
\<close>

theorem flood_once:
  assumes "distinct (map fst ps)"
  shows "distinct (pushes e evs (c, ps)) \<and> (\<forall>(n, h)\<in>set (pushes e evs (c, ps)). (n, h) \<notin> known_by ps)"
  using pushes_fresh [OF assms] by blast

definition sample_content :: COPoIContentMsg where
  "sample_content = \<lparr>cm_requestId = ''r'', cm_kind = 1, cm_payloadHex = ''00''\<rparr>"

theorem flood_once_witness:
  "distinct (pushes sample_env [ContentFrom 0 sample_content, ContentFrom 1 sample_content, ContentFrom 0 sample_content]
     (OPoICache_init, [(0, {}), (1, {}), (2, {})]))"
proof -
  have "distinct (map fst [(0 :: nat, {}), (1, {}), (2, {})])" by simp
  from flood_once [OF this] show ?thesis by blast
qed

section \<open>What a message leaves open\<close>

lemma ParseHex_junk:
  assumes "HexDigit x = -1" "\<not> isspace x"
  shows "ParseHex (HexStr bs @ x # junk) = bs"
proof (induction bs)
  case Nil
  show ?case using assms by (subst ParseHex.simps) (simp add: HexStr_def)
next
  case (Cons b bs)
  have "ParseHex (HexStr (b # bs) @ x # junk) =
      (push_bit 4 (word_of_int (int (unat b div 16))) OR word_of_int (int (unat b mod 16))) # ParseHex (HexStr bs @ x # junk)"
    using nibble_bounds [of b]
    by (subst ParseHex.simps) (simp add: HexStr_Cons isspace_digit HexDigit_digit)
  then show ?case using Cons by (simp add: join_nibbles)
qed

text \<open>
  The content cache can be filled with content nobody committed to. Whenever a content
  message would be accepted, so is the same message with any text behind the first character
  that is not a hexadecimal digit: the hash is computed from the digits before it, but the
  whole text is stored and served, and from then on the genuine message is refused.
\<close>

theorem content_cache_poisoned:
  assumes "ProcessOPoIContentMessage e \<lparr>cm_requestId = r, cm_kind = k, cm_payloadHex = HexStr bs\<rparr> c = Inr c1"
    and "HexDigit x = -1" and "\<not> isspace x"
    and "length (HexStr bs @ x # junk) \<le> OPOI_DELIVERY_MAX_PAYLOAD_HEX"
  shows "\<exists>c2. ProcessOPoIContentMessage e \<lparr>cm_requestId = r, cm_kind = k, cm_payloadHex = HexStr bs @ x # junk\<rparr> c = Inr c2 \<and>
    GetContent c2 r k = Some (HexStr bs @ x # junk) \<and>
    ProcessOPoIContentMessage e \<lparr>cm_requestId = r, cm_kind = k, cm_payloadHex = HexStr bs\<rparr> c2 = Inl ''already-known''"
proof -
  let ?good = "\<lparr>cm_requestId = r, cm_kind = k, cm_payloadHex = HexStr bs\<rparr>"
  let ?bad = "\<lparr>cm_requestId = r, cm_kind = k, cm_payloadHex = HexStr bs @ x # junk\<rparr>"
  have same: "expected_content c ?bad = expected_content c ?good"
    by (simp add: expected_content_def)
  have parse: "ParseHex (HexStr bs @ x # junk) = bs" "ParseHex (HexStr bs) = bs"
    using ParseHex_junk [OF assms(2,3)] ParseHex_HexStr by auto
  obtain eh where r: "r \<noteq> []" "length (HexStr bs) \<le> OPOI_DELIVERY_MAX_PAYLOAD_HEX" "\<not> HasContent c r k"
    and eh: "expected_content c ?good = Inr eh" "\<not> uint256_IsNull eh" "HexStr (sha256 e bs) = GetHex eh"
    using assms(1) unfolding ProcessOPoIContentMessage_def parse
    by (cases "expected_content c ?good") (simp_all add: parse split: if_splits)
  have "ProcessOPoIContentMessage e ?bad c = Inr (AddContent r k (HexStr bs @ x # junk) c)"
    using assms(4) r eh by (simp add: ProcessOPoIContentMessage_def same parse)
  moreover have "GetContent (AddContent r k t c) r k = Some t" "HasContent (AddContent r k t c) r k" for t
    by (simp_all add: GetContent_def AddContent_def HasContent_def)
  ultimately show ?thesis using r by (simp add: ProcessOPoIContentMessage_def)
qed

definition sample_responded :: OPoICache where
  "sample_responded = OPoICache_init\<lparr>mapResponses := [(''r'', (sample_response ''m'')\<lparr>rs_responseHash := rev (sha256 sample_env [7])\<rparr>)]\<rparr>"

lemma sample_content_accepted:
  "ProcessOPoIContentMessage sample_env \<lparr>cm_requestId = ''r'', cm_kind = 1, cm_payloadHex = ''07''\<rparr> sample_responded =
     Inr (AddContent ''r'' 1 ''07'' sample_responded)"
proof -
  have "\<not> HasContent sample_responded ''r'' 1"
    "expected_content sample_responded \<lparr>cm_requestId = ''r'', cm_kind = 1, cm_payloadHex = ''07''\<rparr> = Inr (rev (sha256 sample_env [7]))"
    "\<not> uint256_IsNull (rev (sha256 sample_env [7]))"
    "HexStr (sha256 sample_env (ParseHex ''07'')) = GetHex (rev (sha256 sample_env [7]))"
    by code_simp+
  then show ?thesis by (simp add: ProcessOPoIContentMessage_def OPOI_DELIVERY_MAX_PAYLOAD_HEX_def)
qed

theorem content_cache_poisoned_witness:
  "\<exists>c2. ProcessOPoIContentMessage sample_env \<lparr>cm_requestId = ''r'', cm_kind = 1, cm_payloadHex = ''07?forged''\<rparr> sample_responded =
       Inr c2 \<and> GetContent c2 ''r'' 1 = Some ''07?forged''"
proof -
  have h: "HexStr [7] = ''07''" by code_simp
  have "HexDigit (CHR ''?'') = -1" "\<not> isspace (CHR ''?'')" by code_simp+
  moreover have "length (HexStr [7] @ CHR ''?'' # ''forged'') \<le> OPOI_DELIVERY_MAX_PAYLOAD_HEX"
    by (simp add: OPOI_DELIVERY_MAX_PAYLOAD_HEX_def)
  ultimately show ?thesis
    using content_cache_poisoned [of sample_env "''r''" 1 "[7]" sample_responded _ "CHR ''?''" "''forged''"] sample_content_accepted
    by (auto simp: h)
qed

text \<open>
  The signature of a delivery does not cover its time stamp. Whenever a delivery was
  accepted, the same signed delivery with any other time stamp is accepted again and stored a
  second time, although it is another message for the duplicate check, which hashes the stamp.
\<close>

theorem delivery_replayed:
  assumes "ProcessOPoIDataMessage e msg c = Inr c1"
  shows "\<exists>c2. ProcessOPoIDataMessage e (msg\<lparr>dm_sigTime := t\<rparr>) c1 = Inr c2 \<and>
    vec_at (mapPendingDeliveries c2) (dm_destStakeAddress msg) =
      vec_at (mapPendingDeliveries c) (dm_destStakeAddress msg) @ [delivery_of msg, (delivery_of msg)\<lparr>pd_sigTime := t\<rparr>]"
proof -
  let ?msg = "msg\<lparr>dm_sigTime := t\<rparr>"
  have c1: "c1 = AddPendingDelivery (dm_destStakeAddress msg) (delivery_of msg) c"
    using assms by (auto simp: ProcessOPoIDataMessage_def split: if_splits option.splits sum.splits)
  have same: "GetRequest c1 r = GetRequest c r" "expected_signer c1 req ?msg = expected_signer c req msg"
    "data_sigMsg ?msg = data_sigMsg msg" for r req
    by (simp_all add: c1 AddPendingDelivery_def GetRequest_def expected_signer_def IsClaimedCoordinator_def
        IsActiveStaker_def data_sigMsg_def)
  have "ProcessOPoIDataMessage e ?msg c1 = Inr (AddPendingDelivery (dm_destStakeAddress msg) (delivery_of ?msg) c1)"
    using assms by (auto simp: ProcessOPoIDataMessage_def same split: if_splits option.splits sum.splits)
  then show ?thesis by (simp add: c1 AddPendingDelivery_def vec_at_def delivery_of_def)
qed

definition sample_delivery :: COPoIDataMsg where
  "sample_delivery = \<lparr>dm_destStakeAddress = ''m'', dm_requestId = ''r'', dm_kind = 0, dm_senderAddress = [], dm_payloadHex = ''00'',
     dm_sigTime = 1, dm_sig = str_bytes ''u''\<rparr>"

theorem delivery_replayed_witness:
  "\<exists>c1 c2. ProcessOPoIDataMessage sample_env sample_delivery sample_open = Inr c1 \<and>
     ProcessOPoIDataMessage sample_env (sample_delivery\<lparr>dm_sigTime := 2\<rparr>) c1 = Inr c2"
proof -
  have r: "GetRequest sample_open ''r'' = Some sample_request" "rq_IsPending sample_request"
    "expected_signer sample_open sample_request sample_delivery = Inr ''u''"
    "VerifyOPoISig sample_env ''u'' (data_sigMsg sample_delivery) (str_bytes ''u'') \<noteq> None"
    by (code_simp, code_simp, code_simp, simp add: VerifyOPoISig_def sample_env_def str_bytes_def)
  then have c1: "ProcessOPoIDataMessage sample_env sample_delivery sample_open =
      Inr (AddPendingDelivery ''m'' (delivery_of sample_delivery) sample_open)"
    by (simp add: ProcessOPoIDataMessage_def sample_delivery_def OPOI_DELIVERY_MAX_PAYLOAD_HEX_def)
  from delivery_replayed [OF c1, of 2] c1 show ?thesis by blast
qed

end
