(* ===== verification/Opoi_Reach.thy ===== *)
theory Opoi_Reach
  imports Opoi_Chain Opoi_Relay
begin

text \<open>
  The node as a state machine. A step connects or disconnects a block, rebuilds one of the two
  caches from the chain, receives a relay message, hands a miner its deliveries or starts a new
  view of the coins; a state is reachable when finitely many steps lead to it from the empty node.

  The lemmas show that every reachable state is well formed, that no deadline is missed after
  a connected block, what a rebuilt cache does not remember and what a disconnected block leaves
  behind.
\<close>

section \<open>Reachable states\<close>

inductive node_step :: "node \<Rightarrow> node \<Rightarrow> bool" where
  connect: "ConnectBlock e p cx base vtx h nd = (r, nd', us) \<Longrightarrow> node_step nd nd'"
| disconnect: "DisconnectBlock e base vtx us h nd = (r, nd') \<Longrightarrow> node_step nd nd'"
| rebuild: "node_step nd (nd\<lparr>nd_cache := RebuildOPoICache e p chain (nd_cache nd)\<rparr>)"
| rebuild_apps: "node_step nd (nd\<lparr>nd_apps := RebuildCSAppCache achain\<rparr>)"
| relay: "handle e ev (nd_cache nd, ps) = (pushed, c', ps') \<Longrightarrow> node_step nd (nd\<lparr>nd_cache := c'\<rparr>)"
| collect: "GetAndDrainPendingDeliveries a (nd_cache nd) = (ds, c') \<Longrightarrow> node_step nd (nd\<lparr>nd_cache := c'\<rparr>)"
| new_view: "node_step nd (nd\<lparr>nd_view := m\<rparr>)"

definition empty_node :: node where
  "empty_node = \<lparr>nd_view = [], nd_cache = OPoICache_init, nd_apps = []\<rparr>"

inductive reachable :: "node \<Rightarrow> bool" where
  init: "reachable empty_node"
| step: "reachable nd \<Longrightarrow> node_step nd nd' \<Longrightarrow> reachable nd'"

definition apps_ok :: "CSAppCache \<Rightarrow> bool" where
  "apps_ok = wf_map (\<lambda>k a. ap_deploymentId a = k)"

definition well_formed :: "node \<Rightarrow> bool" where
  "well_formed nd \<longleftrightarrow> cache_inv (nd_cache nd) \<and> apps_ok (nd_apps nd)"

section \<open>Every reachable state is well formed\<close>

lemma inv_SetNull: "cache_inv c \<Longrightarrow> cache_inv (SetNull c)"
  by (simp add: cache_inv_def SetNull_def locks.accounted_def IsLockedUTXO_def)

lemma inv_apply_all: "cache_inv c \<Longrightarrow> cache_inv (apply_all e p h txs c)"
  unfolding apply_all_def by (rule fold_invariant) (simp_all add: inv_Process)

lemma inv_guard: "cache_inv c \<Longrightarrow> cache_inv (OPoIConnectGuard e v b h c)"
  unfolding OPoIConnectGuard_def by (auto intro!: fold_invariant [where P = cache_inv] inv_Process)

lemmas inv_block_end = inv_payments inv_blocks inv_ProcessAuditorVerifications inv_Prune

lemma inv_opoi_block_end: "cache_inv c \<Longrightarrow> cache_inv (opoi_block_end p vtx h c)"
  by (simp add: opoi_block_end_def inv_block_end)

lemma inv_rebuild: "cache_inv c \<Longrightarrow> cache_inv (RebuildOPoICache e p chain c)"
proof -
  have "cache_inv (rebuild_block e p blk c)" if "cache_inv c" for blk c
  proof -
    have "cache_inv (fold (\<lambda>tx. ProcessOPoITransaction e (Some p) tx h False) txs c)" for h txs
      using that by (rule fold_invariant) (rule inv_Process)
    then show ?thesis by (simp add: rebuild_block_def Let_def inv_block_end split: prod.splits)
  qed
  then show "cache_inv c \<Longrightarrow> ?thesis"
    unfolding RebuildOPoICache_def by (intro fold_invariant [where P = cache_inv] inv_SetNull)
qed

lemma apps_ok_Process: "apps_ok apps \<Longrightarrow> apps_ok (ProcessCSAppTransaction tx h undo apps)"
  by (auto simp: apps_ok_def ProcessCSAppTransaction_def AddApp_def UpdateApp_def StopApp_def registered_app_def
      update_app_def stop_app_def intro!: wf_put wf_erase wf_modify)

lemma apps_ok_Nil: "apps_ok []"
  by (simp add: apps_ok_def)

lemma apps_ok_rebuild: "apps_ok (RebuildCSAppCache chain)"
  unfolding RebuildCSAppCache_def
  by (rule fold_invariant [where P = apps_ok])
    (auto intro!: apps_ok_Nil fold_invariant [where P = apps_ok] apps_ok_Process split: prod.splits)

text \<open>What one step of connecting a block, and a block that is disconnected, do to the registry.\<close>

lemma apps_ok_connect_tx: "apps_ok (nd_apps st) \<Longrightarrow> apps_ok (nd_apps (snd (connect_tx e p cx base h tx st)))"
  unfolding connect_tx_def
  by (rule do_all_keeps [where P = "\<lambda>st. apps_ok (nd_apps st)"])
    (auto simp: only_def need_inputs_def no_locked_inputs_def process_csapp_def process_opoi_def stake_collateral_def
      update_coins_def pass_def apps_ok_Process split: if_splits prod.splits option.splits)

lemma apps_ok_connect_body:
  assumes "apps_ok (nd_apps st)"
  shows "apps_ok (nd_apps (snd (connect_body e p cx base vtx h st)))"
  unfolding connect_body_def
  by (rule do_all_keeps [where P = "\<lambda>st. apps_ok (nd_apps st)"])
    (auto simp: assms only_def check_transactions_def bip30_def opoi_block_checks_def apps_ok_connect_tx
      split: prod.splits option.splits)

lemma disconnect_snd:
  "snd (disconnect_loop e base h (txu # txus) nd) =
     (if fst (disconnect_loop e base h txus nd) = None then snd (disconnect_loop e base h txus nd)
      else snd (disconnect_step e base h txu (snd (disconnect_loop e base h txus nd))))"
  "snd (DisconnectBlock e base vtx us h nd) =
     (if length us + 1 \<noteq> length vtx then nd else snd (disconnect_loop e base h (zip vtx (None # map Some us)) nd))"
  by (auto simp: DisconnectBlock_def split: prod.splits option.splits)

lemma wf_disconnect: "well_formed nd \<Longrightarrow> well_formed (snd (DisconnectBlock e base vtx us h nd))"
proof -
  assume wf: "well_formed nd"
  have "well_formed (snd (disconnect_step e base h txu nd'))" if "well_formed nd'" for txu nd'
    using that by (auto simp: well_formed_def disconnect_step_def Let_def inv_Process apps_ok_Process split: prod.splits)
  then have "well_formed (snd (disconnect_loop e base h txus nd))" for txus
    by (induction txus) (simp_all add: wf disconnect_snd(1) del: disconnect_loop.simps(2))
  with wf show ?thesis by (simp add: disconnect_snd(2))
qed

lemma wf_connect:
  assumes "well_formed nd" "ConnectBlock e p cx base vtx h nd = (r, nd', us)"
  shows "well_formed nd'"
proof -
  let ?st = "snd (connect_body e p cx base vtx h (start nd))"
  have "nd_cache (start nd) = nd_cache nd" "nd_apps (start nd) = nd_apps nd" by (simp_all add: start_def)
  with assms(1) have "cache_inv (nd_cache ?st)" "apps_ok (nd_apps ?st)"
    using applies_connect_body [of e p h cx vtx base] apps_ok_connect_body [of "start nd"]
    by (auto simp: well_formed_def applies_def dest!: spec [of _ "start nd"] intro: inv_apply_all)
  with assms(2) show ?thesis
    by (cases rule: ConnectBlock_cases) (use assms(1) in \<open>auto simp: well_formed_def inv_guard inv_opoi_block_end\<close>)
qed

lemma inv_handle: "cache_inv c \<Longrightarrow> cache_inv (fst (snd (handle e ev (c, ps))))"
  by (cases ev) (simp_all add: inv_relay(3,4))

lemma wf_step:
  assumes "node_step nd nd'" "well_formed nd"
  shows "well_formed nd'"
  using assms
proof (induction rule: node_step.induct)
  case (connect e p cx base vtx h nd r nd' us)
  then show ?case using wf_connect by blast
next
  case (disconnect e base vtx us h nd r nd')
  with wf_disconnect [of nd e base vtx us h] show ?case by simp
next
  case (relay e ev nd ps pushed c' ps')
  with inv_handle [of "nd_cache nd" e ev ps] show ?case by (simp add: well_formed_def)
next
  case (collect a nd ds c')
  with inv_Drain [of "nd_cache nd" a] show ?case by (simp add: well_formed_def)
qed (simp_all add: well_formed_def inv_rebuild apps_ok_rebuild)

lemma wf_reachable: "reachable nd \<Longrightarrow> well_formed nd"
proof (induction rule: reachable.induct)
  case init
  show ?case by (simp add: well_formed_def empty_node_def cache_inv_init apps_ok_Nil)
next
  case (step nd nd')
  then show ?case by (blast intro: wf_step)
qed

text \<open>
  C15. Whatever blocks are connected, rejected and disconnected, whatever messages arrive and
  however often the caches are rebuilt, the state of the node stays well formed: every record is
  stored under its own identifier, every address has at most one vote, claim, result or verdict
  per subject, every locked coin has the transaction that locked it on record, and every app is
  stored under its deployment id.
\<close>

theorem reachable_well_formed:
  assumes "reachable nd"
  shows "cache_inv (nd_cache nd) \<and> apps_ok (nd_apps nd)"
  using wf_reachable [OF assms] by (simp only: well_formed_def)

theorem reachable_well_formed_witness:
  "cache_inv (RebuildOPoICache sample_env regtest_params [(300, sample_block)] OPoICache_init)"
proof -
  let ?nd = "empty_node\<lparr>nd_cache := RebuildOPoICache sample_env regtest_params [(300, sample_block)] (nd_cache empty_node)\<rparr>"
  have "reachable ?nd" by (rule reachable.step [OF reachable.init node_step.rebuild])
  from reachable_well_formed [OF this] show ?thesis by (simp add: empty_node_def)
qed

section \<open>Deadlines\<close>

text \<open>What the transitions at the end of a block look for.\<close>

definition request_overdue :: "Params \<Rightarrow> u32 \<Rightarrow> OPoIRequest \<Rightarrow> bool" where
  "request_overdue p h r \<longleftrightarrow>
     rq_IsPending r \<and> 0 < nOPoIRequestExpiryBlocks p \<and> nOPoIRequestExpiryBlocks p \<le> sint (h - rq_blockHeight r)"

definition window_overdue :: "Params \<Rightarrow> u32 \<Rightarrow> OPoIRequest \<Rightarrow> bool" where
  "window_overdue p h r \<longleftrightarrow>
     \<not> rq_commitWindowClosed r \<and> 0 < nOPoIResponseCommitWindowBlocks p \<and>
     word_of_int (nOPoIResponseCommitWindowBlocks p) \<le> h - rq_blockHeight r"

definition renewal_overdue :: "Params \<Rightarrow> u32 \<Rightarrow> OPoIStake \<Rightarrow> bool" where
  "renewal_overdue p h s \<longleftrightarrow>
     st_IsActive s \<and> 0 < nOPoIStakeRenewalBlocks p \<and>
     word_of_int (nOPoIStakeRenewalBlocks p) \<le> h - max (st_blockHeight s) (st_lastRenewalHeight s)"

definition release_overdue :: "Params \<Rightarrow> u32 \<Rightarrow> OPoIStake \<Rightarrow> bool" where
  "release_overdue p h s \<longleftrightarrow>
     st_IsUnstaking s \<and> nOPoIUnstakeCooldownBlocks p \<le> sint (h - st_unstakeHeight s)"

definition challenge_overdue :: "Params \<Rightarrow> u32 \<Rightarrow> OPoICache \<Rightarrow> OPoIChallenge \<Rightarrow> bool" where
  "challenge_overdue p h c ch \<longleftrightarrow>
     ch_IsOpen ch \<and> nOPoIChallengeCommitRevealBlocks p \<le> sint (h - ch_commitHeight ch) \<or>
     ch_IsPendingResolution ch \<and>
       GetAuditorMajorityResult c (ch_requestId ch) (nOPoIMinAuditors p) \<in> {uint AUDITOR_VERIFY_PASS, uint AUDITOR_VERIFY_FAIL}"

definition vote_overdue :: "u32 \<Rightarrow> ModelManifest \<Rightarrow> bool" where
  "vote_overdue h m \<longleftrightarrow> mm_IsVoting m \<and> mm_voteWindowEndHeight m \<le> h"

definition nothing_overdue :: "Params \<Rightarrow> u32 \<Rightarrow> OPoICache \<Rightarrow> bool" where
  "nothing_overdue p h c \<longleftrightarrow>
     list_all (\<lambda>(_, r). \<not> request_overdue p h r \<and> \<not> window_overdue p h r) (mapRequests c) \<and>
     list_all (\<lambda>(_, s). \<not> renewal_overdue p h s \<and> \<not> release_overdue p h s) (mapStakes c) \<and>
     list_all (\<lambda>(_, ch). \<not> challenge_overdue p h c ch) (mapChallenges c) \<and>
     list_all (\<lambda>(_, m). \<not> vote_overdue h m) (mapModelManifests c)"

text \<open>Which of the four maps each transition leaves alone.\<close>

lemma frame_UnlockUTXO [frame_simps]:
  "mapRequests (UnlockUTXO out c) = mapRequests c" "mapStakes (UnlockUTXO out c) = mapStakes c"
  "mapChallenges (UnlockUTXO out c) = mapChallenges c" "mapModelManifests (UnlockUTXO out c) = mapModelManifests c"
  "mapAuditorVerifications (UnlockUTXO out c) = mapAuditorVerifications c"
  "setPaidChallengerRewards (UnlockUTXO out c) = setPaidChallengerRewards c"
  by (simp_all add: UnlockUTXO_def)

lemma frame_expire_challenge [frame_simps]:
  "mapModelManifests (expire_challenge h p k c) = mapModelManifests c"
  "setPaidChallengerRewards (expire_challenge h p k c) = setPaidChallengerRewards c"
  by (simp_all add: expire_challenge_def Let_def frame_simps split: option.splits)

lemma frame_release_stake [frame_simps]:
  "mapModelManifests (release_stake h p k c) = mapModelManifests c"
  "setPaidChallengerRewards (release_stake h p k c) = setPaidChallengerRewards c"
  by (simp_all add: release_stake_def split: option.splits)

lemma frame_expired_challenges [frame_simps]:
  "mapRequests (ProcessExpiredChallenges h p c) = mapRequests c"
  "mapAuditorVerifications (ProcessExpiredChallenges h p c) = mapAuditorVerifications c"
  "mapModelManifests (ProcessExpiredChallenges h p c) = mapModelManifests c"
  "setPaidChallengerRewards (ProcessExpiredChallenges h p c) = setPaidChallengerRewards c"
  unfolding ProcessExpiredChallenges_def Let_def
  by (subst fold_unchanged; (subst fold_unchanged)?; simp add: frame_simps)+

lemma frame_marks [frame_simps]:
  "mapRequests (MarkShardPaid i k c) = mapRequests c" "mapStakes (MarkShardPaid i k c) = mapStakes c"
  "mapChallenges (MarkShardPaid i k c) = mapChallenges c" "mapModelManifests (MarkShardPaid i k c) = mapModelManifests c"
  "mapAuditorVerifications (MarkShardPaid i k c) = mapAuditorVerifications c"
  "setPaidChallengerRewards (MarkShardPaid i k c) = setPaidChallengerRewards c"
  "mapRequests (MarkResponsePaid i c) = mapRequests c" "mapStakes (MarkResponsePaid i c) = mapStakes c"
  "mapChallenges (MarkResponsePaid i c) = mapChallenges c" "mapModelManifests (MarkResponsePaid i c) = mapModelManifests c"
  "mapAuditorVerifications (MarkResponsePaid i c) = mapAuditorVerifications c"
  "setPaidChallengerRewards (MarkResponsePaid i c) = setPaidChallengerRewards c"
  by (simp_all add: MarkShardPaid_def MarkResponsePaid_def)

lemma frame_payments [frame_simps]:
  "mapRequests (ProcessShardPayments vtx p c) = mapRequests c"
  "mapStakes (ProcessShardPayments vtx p c) = mapStakes c"
  "mapChallenges (ProcessShardPayments vtx p c) = mapChallenges c"
  "mapModelManifests (ProcessShardPayments vtx p c) = mapModelManifests c"
  "mapAuditorVerifications (ProcessShardPayments vtx p c) = mapAuditorVerifications c"
  "setPaidChallengerRewards (ProcessShardPayments vtx p c) = setPaidChallengerRewards c"
  unfolding ProcessShardPayments_def by (subst fold_unchanged; simp add: frame_simps split_beta)+

lemma frame_verifiable_payments [frame_simps]:
  "mapRequests (ProcessVerifiableResponsePayments vtx p c) = mapRequests c"
  "mapStakes (ProcessVerifiableResponsePayments vtx p c) = mapStakes c"
  "mapChallenges (ProcessVerifiableResponsePayments vtx p c) = mapChallenges c"
  "mapModelManifests (ProcessVerifiableResponsePayments vtx p c) = mapModelManifests c"
  "mapAuditorVerifications (ProcessVerifiableResponsePayments vtx p c) = mapAuditorVerifications c"
  "setPaidChallengerRewards (ProcessVerifiableResponsePayments vtx p c) = setPaidChallengerRewards c"
  unfolding ProcessVerifiableResponsePayments_def by (subst fold_unchanged; simp add: frame_simps split_beta)+

lemma frame_sampled_payments [frame_simps]:
  "mapRequests (ProcessAuditSampledOpenResponsePayments vtx h p c) = mapRequests c"
  "mapStakes (ProcessAuditSampledOpenResponsePayments vtx h p c) = mapStakes c"
  "mapChallenges (ProcessAuditSampledOpenResponsePayments vtx h p c) = mapChallenges c"
  "mapModelManifests (ProcessAuditSampledOpenResponsePayments vtx h p c) = mapModelManifests c"
  "mapAuditorVerifications (ProcessAuditSampledOpenResponsePayments vtx h p c) = mapAuditorVerifications c"
  "setPaidChallengerRewards (ProcessAuditSampledOpenResponsePayments vtx h p c) = setPaidChallengerRewards c"
  unfolding ProcessAuditSampledOpenResponsePayments_def by (subst fold_unchanged; simp add: frame_simps split_beta)+

lemma frame_rewards [frame_simps]:
  "mapRequests (ProcessChallengerRewardPayments vtx p c) = mapRequests c"
  "mapStakes (ProcessChallengerRewardPayments vtx p c) = mapStakes c"
  "mapChallenges (ProcessChallengerRewardPayments vtx p c) = mapChallenges c"
  "mapModelManifests (ProcessChallengerRewardPayments vtx p c) = mapModelManifests c"
  "mapAuditorVerifications (ProcessChallengerRewardPayments vtx p c) = mapAuditorVerifications c"
  unfolding ProcessChallengerRewardPayments_def
  by (subst fold_unchanged; simp add: MarkChallengerRewardPaid_def split_beta)+

lemma frame_requests_stakes [frame_simps]:
  "mapStakes (ProcessExpiredRequests h p c) = mapStakes c"
  "mapChallenges (ProcessExpiredRequests h p c) = mapChallenges c"
  "mapModelManifests (ProcessExpiredRequests h p c) = mapModelManifests c"
  "mapAuditorVerifications (ProcessExpiredRequests h p c) = mapAuditorVerifications c"
  "setPaidChallengerRewards (ProcessExpiredRequests h p c) = setPaidChallengerRewards c"
  "mapStakes (ProcessResponseCommitWindows h p c) = mapStakes c"
  "mapChallenges (ProcessResponseCommitWindows h p c) = mapChallenges c"
  "mapModelManifests (ProcessResponseCommitWindows h p c) = mapModelManifests c"
  "mapAuditorVerifications (ProcessResponseCommitWindows h p c) = mapAuditorVerifications c"
  "setPaidChallengerRewards (ProcessResponseCommitWindows h p c) = setPaidChallengerRewards c"
  "mapRequests (ProcessStakeRenewals h p c) = mapRequests c"
  "mapChallenges (ProcessStakeRenewals h p c) = mapChallenges c"
  "mapModelManifests (ProcessStakeRenewals h p c) = mapModelManifests c"
  "mapAuditorVerifications (ProcessStakeRenewals h p c) = mapAuditorVerifications c"
  "setPaidChallengerRewards (ProcessStakeRenewals h p c) = setPaidChallengerRewards c"
  "mapRequests (ProcessCanaryAudits h p c) = mapRequests c"
  "mapChallenges (ProcessCanaryAudits h p c) = mapChallenges c"
  "mapModelManifests (ProcessCanaryAudits h p c) = mapModelManifests c"
  "mapAuditorVerifications (ProcessCanaryAudits h p c) = mapAuditorVerifications c"
  "setPaidChallengerRewards (ProcessCanaryAudits h p c) = setPaidChallengerRewards c"
  by (simp_all add: ProcessExpiredRequests_def ProcessResponseCommitWindows_def ProcessStakeRenewals_def
      ProcessCanaryAudits_def Let_def)

lemma frame_prune [frame_simps]:
  "mapRequests (PruneExpiredPendingDeliveries c) = mapRequests c"
  "mapStakes (PruneExpiredPendingDeliveries c) = mapStakes c"
  "mapChallenges (PruneExpiredPendingDeliveries c) = mapChallenges c"
  "mapModelManifests (PruneExpiredPendingDeliveries c) = mapModelManifests c"
  "mapAuditorVerifications (PruneExpiredPendingDeliveries c) = mapAuditorVerifications c"
  by (simp_all add: PruneExpiredPendingDeliveries_def Let_def)

lemma frame_manifest_status [frame_simps]:
  "mapRequests (SetModelManifestStatus i st act c) = mapRequests c"
  "mapChallenges (SetModelManifestStatus i st act c) = mapChallenges c"
  "mapAuditorVerifications (SetModelManifestStatus i st act c) = mapAuditorVerifications c"
  "setPaidChallengerRewards (SetModelManifestStatus i st act c) = setPaidChallengerRewards c"
  by (simp_all add: SetModelManifestStatus_def)

lemma frame_tally [frame_simps]:
  "mapRequests (tally_manifest h p m c) = mapRequests c"
  "mapChallenges (tally_manifest h p m c) = mapChallenges c"
  "mapAuditorVerifications (tally_manifest h p m c) = mapAuditorVerifications c"
  "setPaidChallengerRewards (tally_manifest h p m c) = setPaidChallengerRewards c"
  "mapRequests (activate_manifest h m c) = mapRequests c"
  "mapStakes (activate_manifest h m c) = mapStakes c"
  "mapChallenges (activate_manifest h m c) = mapChallenges c"
  "mapAuditorVerifications (activate_manifest h m c) = mapAuditorVerifications c"
  "setPaidChallengerRewards (activate_manifest h m c) = setPaidChallengerRewards c"
  by (simp_all add: tally_manifest_def activate_manifest_def split_beta Let_def frame_simps)

lemma frame_voting [frame_simps]:
  "mapRequests (ProcessModelVotingWindows h p c) = mapRequests c"
  "mapStakes (ProcessModelVotingWindows h p c) = mapStakes c"
  "mapChallenges (ProcessModelVotingWindows h p c) = mapChallenges c"
  "mapAuditorVerifications (ProcessModelVotingWindows h p c) = mapAuditorVerifications c"
  "setPaidChallengerRewards (ProcessModelVotingWindows h p c) = setPaidChallengerRewards c"
  unfolding ProcessModelVotingWindows_def Let_def
  by (subst fold_unchanged; (subst fold_unchanged)?; simp add: frame_simps)+

lemma frame_settle [frame_simps]:
  "mapRequests (settle_votes m vs c) = mapRequests c" "mapStakes (settle_votes m vs c) = mapStakes c"
  "mapChallenges (settle_votes m vs c) = mapChallenges c" "mapModelManifests (settle_votes m vs c) = mapModelManifests c"
  "mapAuditorVerifications (settle_votes m vs c) = mapAuditorVerifications c"
  "mapResponses (settle_votes m vs c) = mapResponses c"
  "setPaidChallengerRewards (settle_votes m vs c) = setPaidChallengerRewards c"
  unfolding settle_votes_def by (subst fold_unchanged; simp add: UnlockUTXO_def)+

lemma frame_canary_verdict [frame_simps]:
  "mapRequests (canary_verdict r m c) = mapRequests c"
  "mapChallenges (canary_verdict r m c) = mapChallenges c"
  "mapModelManifests (canary_verdict r m c) = mapModelManifests c"
  "mapAuditorVerifications (canary_verdict r m c) = mapAuditorVerifications c"
  "setPaidChallengerRewards (canary_verdict r m c) = setPaidChallengerRewards c"
  by (simp_all add: canary_verdict_def split: option.splits)

lemma frame_resolve [frame_simps]:
  "mapRequests (resolve_request p r c) = mapRequests c"
  "mapChallenges (resolve_request p r c) = mapChallenges c"
  "mapModelManifests (resolve_request p r c) = mapModelManifests c"
  "setPaidChallengerRewards (resolve_request p r c) = setPaidChallengerRewards c"
  "mapRequests (resolve_shard p r c) = mapRequests c"
  "mapStakes (resolve_shard p r c) = mapStakes c"
  "mapChallenges (resolve_shard p r c) = mapChallenges c"
  "mapModelManifests (resolve_shard p r c) = mapModelManifests c"
  "mapAuditorVerifications (resolve_shard p r c) = mapAuditorVerifications c"
  "setPaidChallengerRewards (resolve_shard p r c) = setPaidChallengerRewards c"
  by (simp_all add: resolve_request_def resolve_shard_def Let_def frame_simps MarkAuditorResolved_def
      MarkShardAuditorResolved_def split: list.splits)

lemma frame_auditors [frame_simps]:
  "mapRequests (ProcessAuditorVerifications p c) = mapRequests c"
  "mapChallenges (ProcessAuditorVerifications p c) = mapChallenges c"
  "mapModelManifests (ProcessAuditorVerifications p c) = mapModelManifests c"
  "setPaidChallengerRewards (ProcessAuditorVerifications p c) = setPaidChallengerRewards c"
  unfolding ProcessAuditorVerifications_def Let_def
  by (subst fold_unchanged; (subst fold_unchanged)?; simp add: frame_simps)+

text \<open>Settling votes does not change what they say.\<close>

lemma majority_resolve: "GetAuditorMajorityResult (resolve_request p r c) k n = GetAuditorMajorityResult c k n"
  by (auto simp: GetAuditorMajorityResult_def resolve_request_def Let_def frame_simps MarkAuditorResolved_def
      majority_settled split: option.splits)

lemma majority_auditors: "GetAuditorMajorityResult (ProcessAuditorVerifications p c) k n = GetAuditorMajorityResult c k n"
  unfolding ProcessAuditorVerifications_def Let_def
  by (subst fold_unchanged [where g = "\<lambda>c. GetAuditorMajorityResult c k n"])
    (simp add: GetAuditorMajorityResult_def frame_simps,
     rule fold_unchanged [where g = "\<lambda>c. GetAuditorMajorityResult c k n"], rule majority_resolve)

text \<open>
  The stakes of a later state are those of an earlier one, with the same heights and the same
  status, or suspended.
\<close>

definition calmer :: "OPoIStake \<Rightarrow> OPoIStake \<Rightarrow> bool" where
  "calmer s s' \<longleftrightarrow> st_blockHeight s' = st_blockHeight s \<and> st_lastRenewalHeight s' = st_lastRenewalHeight s \<and>
     st_unstakeHeight s' = st_unstakeHeight s \<and> (st_stakeStatus s' = st_stakeStatus s \<or> st_stakeStatus s' = ST_SUSPENDED)"

definition eased :: "(address, OPoIStake) smap \<Rightarrow> (address, OPoIStake) smap \<Rightarrow> bool" where
  "eased m m' \<longleftrightarrow> (\<forall>(k, s')\<in>set m'. \<exists>s. (k, s) \<in> set m \<and> calmer s s')"

lemma calmer_refl [simp]: "calmer s s"
  by (simp add: calmer_def)

lemma eased_refl [simp]: "eased m m"
  by (force simp: eased_def)

lemma eased_trans: "eased m m' \<Longrightarrow> eased m' m'' \<Longrightarrow> eased m m''"
  unfolding eased_def calmer_def by fastforce

lemma eased_modify: "(\<And>s. calmer s (f s)) \<Longrightarrow> eased m (sm_modify k f m)"
  by (force simp: eased_def sm_modify_def)

lemma eased_update: "(\<And>s. calmer s (f s)) \<Longrightarrow> eased m (sm_update_all f m)"
  by (force simp: eased_def sm_update_all_def)

lemma calmer_steps:
  "calmer s (suspend_overdue h p s)" "calmer s (strike_missed h s)" "calmer s (strike_canary s)"
  "calmer s (clear_obligation s)" "calmer s (s\<lparr>st_canaryObligationDeadline := d\<rparr>)"
  by (auto simp: calmer_def suspend_overdue_def strike_missed_def strike_canary_def clear_obligation_def Let_def)

lemma eased_canary: "eased (mapStakes c) (mapStakes (ProcessCanaryAudits h p c))"
proof -
  let ?m = "sm_update_all (strike_missed h) (mapStakes c)"
  have "eased (mapStakes c) ?m" by (rule eased_update) (rule calmer_steps)
  moreover have "eased ?m (sm_modify a (\<lambda>s. s\<lparr>st_canaryObligationDeadline := d\<rparr>) ?m)" for a d
    by (rule eased_modify) (rule calmer_steps)
  ultimately show ?thesis by (auto simp: ProcessCanaryAudits_def Let_def intro: eased_trans)
qed

lemma eased_auditors: "eased (mapStakes c) (mapStakes (ProcessAuditorVerifications p c))"
proof -
  have r: "eased (mapStakes c) (mapStakes (resolve_request p r c))" for r c
    by (auto simp: resolve_request_def canary_verdict_def Let_def MarkAuditorResolved_def frame_simps calmer_steps
        split: option.splits intro!: eased_modify)
  have "eased (mapStakes c) (mapStakes (fold (resolve_request p) rs c))" for rs
    by (rule fold_invariant [where P = "\<lambda>c'. eased (mapStakes c) (mapStakes c')"]) (auto intro: eased_trans r)
  then show ?thesis
    unfolding ProcessAuditorVerifications_def Let_def by (subst fold_unchanged [where g = mapStakes]) (simp_all add: frame_simps)
qed

text \<open>Each transition settles its own deadlines.\<close>

definition released_stake :: "u32 \<Rightarrow> Params \<Rightarrow> OPoIStake \<Rightarrow> OPoIStake" where
  "released_stake h p s = (if release_overdue p h s then s\<lparr>st_stakeStatus := ST_RELEASED\<rparr> else s)"

lemma release_stake_local:
  assumes "sm_ok (mapStakes c)"
  shows "mapStakes (release_stake h p k c) = sm_modify k (released_stake h p) (mapStakes c)"
proof (cases "sm_find (mapStakes c) k")
  case None
  then have "sm_modify k f (mapStakes c) = mapStakes c" for f using assms by (intro sm.modify_id) auto
  with None show ?thesis by (simp add: release_stake_def)
next
  case (Some s)
  have cong: "sm_modify k f (mapStakes c) = sm_modify k g (mapStakes c)" if "f s = g s" for f g
    using that assms Some by (intro sm.find_ext) auto
  have same: "sm_modify k f (mapStakes c) = mapStakes c" if "f s = s" for f
    using that assms Some by (intro sm.modify_id) auto
  show ?thesis
  proof (cases "release_overdue p h s")
    case True
    with Some show ?thesis
      by (auto simp: release_stake_def release_overdue_def intro!: cong) (simp add: released_stake_def release_overdue_def)
  next
    case False
    with Some have "mapStakes (release_stake h p k c) = mapStakes c"
      by (auto simp: release_stake_def release_overdue_def)
    moreover from False have "sm_modify k (released_stake h p) (mapStakes c) = mapStakes c"
      by (intro same) (simp add: released_stake_def)
    ultimately show ?thesis by simp
  qed
qed

lemma released_none:
  assumes "cache_inv c" "(k, s) \<in> set (mapStakes (ProcessExpiredChallenges h p c))"
  shows "\<not> release_overdue p h s"
proof -
  let ?c1 = "fold (expire_challenge h p) (sm_keys (mapChallenges c)) c"
  have "cache_inv ?c1" by (rule fold_invariant [where P = cache_inv]) (simp_all add: assms inv_expire_challenge)
  then have ok: "sm_ok (mapStakes ?c1)" by (simp add: inv_sm_ok)
  have "mapStakes (fold (release_stake h p) (sm_keys (mapStakes ?c1)) ?c1) =
      fold (\<lambda>k. sm_modify k (released_stake h p)) (sm_keys (mapStakes ?c1)) (mapStakes ?c1)"
    by (rule fold_local [where Q = "\<lambda>s. sm_ok (mapStakes s)"]) (simp_all add: release_stake_local ok)
  also have "\<dots> = map (\<lambda>(k, s). (k, released_stake h p s)) (mapStakes ?c1)" by (rule fold_modify_keys [OF ok])
  finally have "(k, s) \<in> (\<lambda>(k, s). (k, released_stake h p s)) ` set (mapStakes ?c1)"
    using assms(2) by (simp add: ProcessExpiredChallenges_def Let_def)
  then show ?thesis by (auto simp: released_stake_def release_overdue_def st_IsUnstaking_def split: if_splits)
qed

lemma settled_requests:
  assumes "(k, r) \<in> set (mapRequests (ProcessResponseCommitWindows h p (PruneExpiredPendingDeliveries
      (ProcessExpiredRequests h p c))))"
  shows "\<not> request_overdue p h r \<and> \<not> window_overdue p h r"
  using assms
  by (auto simp: ProcessResponseCommitWindows_def ProcessExpiredRequests_def frame_simps sm_update_all_def
      close_window_def expire_request_def request_overdue_def window_overdue_def rq_IsPending_def split: if_splits)

lemma settled_renewals:
  "(k, s) \<in> set (mapStakes (ProcessStakeRenewals h p c)) \<Longrightarrow> \<not> renewal_overdue p h s"
  by (auto simp: ProcessStakeRenewals_def sm_update_all_def suspend_overdue_def renewal_overdue_def st_IsActive_def
      split: if_splits)

lemma settled_challenges:
  assumes "cache_inv c" "(k, ch) \<in> set (mapChallenges (ProcessExpiredChallenges h p c))"
    "\<And>r n. GetAuditorMajorityResult c' r n = GetAuditorMajorityResult c r n"
  shows "\<not> challenge_overdue p h c' ch"
  using assms(2) unfolding challenges_after [OF assms(1)] challenge_overdue_def assms(3)
  by (auto simp: sm_update_all_def resolved_status_def Let_def ch_IsOpen_def ch_IsPendingResolution_def split: if_splits)

lemma settled_votes:
  assumes "cache_inv c" "(k, m) \<in> set (mapModelManifests (ProcessModelVotingWindows h p c))"
  shows "\<not> vote_overdue h m"
  using assms(2) unfolding manifests_after [OF assms(1)] vote_overdue_def
  by (auto simp: sm_update_all_def voting_effect_def tally_effect_def set_manifest_status_def Let_def mm_IsVoting_def
      split: if_splits)

lemma eased_deadlines:
  assumes "eased m m'" "\<forall>(k, s)\<in>set m. \<not> renewal_overdue p h s \<and> \<not> release_overdue p h s" "(k, s') \<in> set m'"
  shows "\<not> renewal_overdue p h s' \<and> \<not> release_overdue p h s'"
proof -
  obtain s where "(k, s) \<in> set m" "calmer s s'" using assms(1,3) by (auto simp: eased_def)
  with assms(2) show ?thesis
    by (auto simp: calmer_def renewal_overdue_def release_overdue_def st_IsActive_def st_IsUnstaking_def)
qed

lemma block_end_settles:
  assumes "cache_inv c"
  shows "nothing_overdue p h (opoi_block_end p vtx h c)"
proof -
  define c1 where "c1 = ProcessChallengerRewardPayments vtx p c"
  define c2 where "c2 = ProcessExpiredChallenges h p c1"
  define c3 where "c3 = ProcessResponseCommitWindows h p (PruneExpiredPendingDeliveries (ProcessExpiredRequests h p c2))"
  define c4 where "c4 = ProcessCanaryAudits h p (ProcessStakeRenewals h p c3)"
  define c5 where "c5 = ProcessModelVotingWindows h p c4"
  define c6 where "c6 = ProcessAuditSampledOpenResponsePayments vtx h p
    (ProcessVerifiableResponsePayments vtx p (ProcessShardPayments vtx p c5))"
  have e: "opoi_block_end p vtx h c = ProcessAuditorVerifications p c6"
    by (simp add: opoi_block_end_def c6_def c5_def c4_def c3_def c2_def c1_def)
  have inv: "cache_inv c1" "cache_inv c4"
    using assms by (simp_all add: c4_def c3_def c2_def c1_def inv_block_end)
  have "\<not> request_overdue p h r \<and> \<not> window_overdue p h r"
    if "(k, r) \<in> set (mapRequests (ProcessAuditorVerifications p c6))" for k r
    using that settled_requests [of k r h p c2] by (simp add: frame_simps c6_def c5_def c4_def c3_def)
  moreover have "\<not> renewal_overdue p h s \<and> \<not> release_overdue p h s"
    if "(k, s) \<in> set (mapStakes (ProcessAuditorVerifications p c6))" for k s
  proof -
    have "mapStakes c3 = mapStakes c2" by (simp add: c3_def frame_simps)
    moreover have "eased (mapStakes c3) (mapStakes (ProcessStakeRenewals h p c3))"
      by (auto simp: ProcessStakeRenewals_def intro!: eased_update calmer_steps)
    ultimately have "\<forall>(k, s)\<in>set (mapStakes (ProcessStakeRenewals h p c3)). \<not> renewal_overdue p h s \<and> \<not> release_overdue p h s"
      using released_none [OF inv(1), of _ _ h p] settled_renewals [of _ _ h p c3]
      by (fastforce simp: eased_def c2_def calmer_def release_overdue_def st_IsUnstaking_def)
    moreover have "mapStakes c6 = mapStakes c4" by (simp add: c6_def c5_def frame_simps)
    then have "eased (mapStakes (ProcessStakeRenewals h p c3)) (mapStakes (ProcessAuditorVerifications p c6))"
      using eased_trans [OF eased_canary [of "ProcessStakeRenewals h p c3" h p] eased_auditors [of c6 p, unfolded \<open>mapStakes c6 = mapStakes c4\<close>, unfolded c4_def]]
      by (simp add: c4_def)
    ultimately show ?thesis using that by (blast dest: eased_deadlines)
  qed
  moreover have "\<not> challenge_overdue p h (ProcessAuditorVerifications p c6) ch"
    if "(k, ch) \<in> set (mapChallenges (ProcessAuditorVerifications p c6))" for k ch
  proof (rule settled_challenges [OF inv(1)])
    show "(k, ch) \<in> set (mapChallenges (ProcessExpiredChallenges h p c1))"
      using that by (simp add: frame_simps c6_def c5_def c4_def c3_def c2_def)
    show "GetAuditorMajorityResult (ProcessAuditorVerifications p c6) r n = GetAuditorMajorityResult c1 r n" for r n
      unfolding majority_auditors by (simp add: GetAuditorMajorityResult_def frame_simps c6_def c5_def c4_def c3_def c2_def)
  qed
  moreover have "\<not> vote_overdue h m"
    if "(k, m) \<in> set (mapModelManifests (ProcessAuditorVerifications p c6))" for k m
    using that settled_votes [OF inv(2), of k m h p] by (simp add: frame_simps c6_def c5_def)
  ultimately show ?thesis unfolding e nothing_overdue_def list_all_iff by blast
qed

text \<open>
  C14. After every block that is connected while the OPoI rules are active nothing is overdue:
  no request past its expiry is still pending and no commit window past its end is open, no
  stake that missed its renewal is active and no unstaked one past the cool-down still holds its
  collateral, no challenge waits past its deadline or after the auditors reached a verdict, and
  no model vote outlasts its window. So what waits for a deadline is always settled by the first
  block that reaches it, whatever happened before.
\<close>

theorem deadlines_met:
  assumes "reachable nd" and "ConnectBlock e p cx base vtx nHeight nd = (None, nd', us)"
    and "\<not> cx_fJustCheck cx" and "\<not> cx_genesis cx" and "opoi_live e p nHeight"
  shows "nothing_overdue p (word_of_int nHeight) (nd_cache nd')"
proof -
  have "cache_inv (nd_cache nd)" using wf_reachable [OF assms(1)] by (simp add: well_formed_def)
  then have b: "cache_inv (nd_cache (snd (connect_body e p cx base vtx nHeight (start nd))))"
    using applies_connect_body [of e p nHeight cx vtx base]
    by (auto simp: start_def applies_def dest!: spec [of _ "start nd"] intro: inv_apply_all)
  show ?thesis
    using assms(2) by (cases rule: ConnectBlock_cases) (use b assms(3-5) in \<open>auto simp: block_end_settles\<close>)
qed

text \<open>A block of a coinbase alone, on an empty view.\<close>

lemma connect_coinbase:
  assumes "IsCoinBase cb" "\<not> IsOPoITx cb" "\<not> IsCSAppTx cb" "base (tx_hash cb) = None" "nd_view nd = []"
    "opoi_live e p h" "CheckOPoIBlockCaps [cb] p = None" "CheckOPoIPayments e (nd_cache nd) [cb] h p = None"
    "CheckOPoIChallengerRewards e (nd_cache nd) [cb] p = None"
  shows "fst (ConnectBlock e p sample_ctx base [cb] h nd) = None \<and>
    nd_cache (fst (snd (ConnectBlock e p sample_ctx base [cb] h nd))) = opoi_block_end p [cb] (word_of_int h) (nd_cache nd)"
proof -
  have v: "nVersion cb \<noteq> OPOI_TX_VERSION" using assms(2) by (simp add: IsOPoITx_def)
  have "CheckOPoITransaction e p (nd_cache nd) cb = None" "CheckCSAppTransaction cb = None"
    using assms(3) v by (simp_all add: CheckOPoITransaction_def CheckCSAppTransaction_def)
  with assms v show ?thesis
    by (simp add: ConnectBlock_def connect_body_def connect_tx_def next_do_def pass_def only_def sample_ctx_def
        check_transactions_def bip30_def AccessCoins_def FetchCoins_def opoi_block_checks_def stake_collateral_def
        update_coins_def UpdateCoins_def OPoIConnectGuard_def opoi_live_def first_reject.simps)
qed

text \<open>A request that waits since height 280, and the block at height 300 that ends the wait.\<close>

definition sample_wait :: CTransaction where
  "sample_wait = CTransaction_init\<lparr>nVersion := 8, nType := 1, tx_hash := [2], opoiRequestId := ''r'', opoiRequester := ''u'',
     opoiPayment := 500\<rparr>"

definition sample_pending :: OPoICache where
  "sample_pending = apply_request sample_wait 280 OPoICache_init"

lemma sample_pending_maps:
  "mapStakes sample_pending = []" "mapChallenges sample_pending = []" "mapModelManifests sample_pending = []"
  "mapAuditorVerifications sample_pending = []" "mapShardAuditorVerifications sample_pending = []"
  by (simp_all add: sample_pending_def apply_request_def AddRequest_def OPoICache_init_def)

lemma sample_quiet:
  "ProcessExpiredChallenges h regtest_params sample_pending = sample_pending"
  "ProcessExpiredRequests 280 regtest_params sample_pending = sample_pending"
  "ProcessResponseCommitWindows 280 regtest_params sample_pending = sample_pending"
  "ProcessStakeRenewals 280 regtest_params sample_pending = sample_pending"
  "ProcessCanaryAudits 280 regtest_params sample_pending = sample_pending"
  "ProcessModelVotingWindows 280 regtest_params sample_pending = sample_pending"
  "ProcessAuditorVerifications regtest_params sample_pending = sample_pending"
proof -
  have r: "mapRequests sample_pending = sm_update_all (expire_request 280 regtest_params) (mapRequests sample_pending)"
   "mapRequests sample_pending = sm_update_all (close_window 280 regtest_params) (mapRequests sample_pending)" by code_simp+
  show "ProcessExpiredRequests 280 regtest_params sample_pending = sample_pending"
   "ProcessResponseCommitWindows 280 regtest_params sample_pending = sample_pending"
    unfolding ProcessExpiredRequests_def  ProcessResponseCommitWindows_def r [symmetric] by simp_all
qed (simp_all add: ProcessExpiredChallenges_def ProcessStakeRenewals_def ProcessCanaryAudits_def
  ProcessModelVotingWindows_def ProcessAuditorVerifications_def sample_pending_maps Let_def sm_update_all_def activeAddrs_def
  ListManifestsDueForTally_def ListModelManifests_def)

lemma sample_pays:
  "ProcessShardPayments [sample_wait] regtest_params sample_pending = sample_pending"
  "ProcessVerifiableResponsePayments [sample_wait] regtest_params sample_pending = sample_pending"
  "ProcessAuditSampledOpenResponsePayments [sample_wait] 280 regtest_params sample_pending = sample_pending"
proof -
 have "GetShardPaymentsForBlock sample_pending [sample_wait] regtest_params = []" 
  "GetVerifiablePaymentsForBlock sample_pending [sample_wait] regtest_params = []" 
  "GetAuditSampledOpenPaymentsForBlock sample_pending [sample_wait] 280 regtest_params = []" by code_simp+
 then show 
  "ProcessShardPayments [sample_wait] regtest_params sample_pending = sample_pending"
  "ProcessVerifiableResponsePayments [sample_wait] regtest_params sample_pending = sample_pending"
  "ProcessAuditSampledOpenResponsePayments [sample_wait] 280 regtest_params sample_pending = sample_pending"
 by (simp_all add: ProcessShardPayments_def ProcessVerifiableResponsePayments_def ProcessAuditSampledOpenResponsePayments_def)
qed

lemma sample_rebuilt:
  "RebuildOPoICache sample_env regtest_params [(280, [sample_wait])] OPoICache_init = sample_pending"
proof -
  have "SetNull OPoICache_init = OPoICache_init" by (simp add: SetNull_def OPoICache_init_def)
  moreover have "ProcessOPoITransaction sample_env (Some regtest_params) sample_wait 280 False OPoICache_init = sample_pending"
   by (simp add: ProcessOPoITransaction_def ApplyOPoITransaction_def sample_pending_def sample_wait_def CTransaction_init_def opoi_types)
  moreover have "nVersion sample_wait = OPOI_TX_VERSION" "NetworkUpgradeActive_OPOI 280 regtest_params" by code_simp+
  ultimately show ?thesis by (simp add: RebuildOPoICache_def rebuild_block_def sample_pays sample_quiet)
qed

definition sample_waiting :: node where
  "sample_waiting = empty_node\<lparr>nd_cache := sample_pending\<rparr>"

lemma sample_waiting_reachable: "reachable sample_waiting"
  using reachable.step [OF reachable.init node_step.rebuild [of empty_node sample_env regtest_params "[(280, [sample_wait])]"]]
  by (simp add: sample_waiting_def empty_node_def sample_rebuilt)

lemma sample_waiting_connects:
  "fst (ConnectBlock sample_env regtest_params sample_ctx sample_coins [sample_cb] 300 sample_waiting) = None"
proof -
  have "map snd (block_payments sample_env (nd_cache sample_waiting) [sample_cb] 300 regtest_params) = [[], [], [], []]"
    by code_simp
  then obtain a b c d where "block_payments sample_env (nd_cache sample_waiting) [sample_cb] 300 regtest_params =
      [(a, []), (b, []), (c, []), (d, [])]" by (auto simp: map_eq_Cons_conv)
  then have "CheckOPoIPayments sample_env (nd_cache sample_waiting) [sample_cb] 300 regtest_params = None"
    by (simp add: CheckOPoIPayments_def sample_subsidy)
  moreover have "IsCoinBase sample_cb" "\<not> IsOPoITx sample_cb" "\<not> IsCSAppTx sample_cb" "sample_coins (tx_hash sample_cb) = None"
    "nd_view sample_waiting = []" "opoi_live sample_env regtest_params 300" "CheckOPoIBlockCaps [sample_cb] regtest_params = None"
    "CheckOPoIChallengerRewards sample_env (nd_cache sample_waiting) [sample_cb] regtest_params = None"
    by code_simp+
  ultimately show ?thesis using connect_coinbase by blast
qed

theorem deadlines_met_witness:
  "\<not> nothing_overdue regtest_params 300 (nd_cache sample_waiting) \<and>
   nothing_overdue regtest_params 300 (nd_cache (fst (snd
     (ConnectBlock sample_env regtest_params sample_ctx sample_coins [sample_cb] 300 sample_waiting))))"
proof -
  obtain r nd' us where c: "ConnectBlock sample_env regtest_params sample_ctx sample_coins [sample_cb] 300 sample_waiting = (r, nd', us)"
    by (rule prod_cases3)
  then have r: "r = None" using sample_waiting_connects by simp
  have "opoi_live sample_env regtest_params 300" by code_simp
  then have "nothing_overdue regtest_params (word_of_int 300) (nd_cache nd')"
    using deadlines_met [OF sample_waiting_reachable c [unfolded r]] by (simp add: sample_ctx_def)
  moreover have "\<not> nothing_overdue regtest_params 300 (nd_cache sample_waiting)" by code_simp
  ultimately show ?thesis by (simp add: c)
qed

section \<open>What a disconnected block leaves behind\<close>

lemma disconnect_cache:
  assumes "\<forall>tx\<in>set vtx. \<not> IsOPoITx tx"
  shows "nd_cache (snd (DisconnectBlock e base vtx us h nd)) = nd_cache nd"
proof -
  have "nd_cache (snd (disconnect_loop e base h txus nd)) = nd_cache nd" if "\<forall>(tx, u)\<in>set txus. \<not> IsOPoITx tx" for txus
    using that
    by (induction txus) (auto simp: disconnect_snd(1) disconnect_step_def Let_def simp del: disconnect_loop.simps(2) split: prod.splits)
  moreover have "\<forall>(tx, u)\<in>set (zip vtx us'). \<not> IsOPoITx tx" for us' :: "CTxInUndo list option list"
    using assms by (auto dest: set_zip_leftD)
  ultimately show ?thesis by (simp add: disconnect_snd(2))
qed

lemma connect_cache:
  assumes "ConnectBlock e p cx base vtx h nd = (None, nd', us)" "\<not> cx_fJustCheck cx" "\<not> cx_genesis cx"
    "opoi_live e p h" "\<forall>tx\<in>set vtx. \<not> IsOPoITx tx"
  shows "nd_cache nd' = opoi_block_end p vtx (word_of_int h) (nd_cache nd)"
proof -
  have "filter (applied_tx e cx) vtx = []" using assms(5) by (simp add: filter_empty_conv applied_tx_def)
  then have "nd_cache (snd (connect_body e p cx base vtx h (start nd))) = nd_cache nd"
    using applies_connect_body [of e p h cx vtx base]
    by (auto simp: start_def applies_def apply_all_def dest!: spec [of _ "start nd"])
  with assms(1) show ?thesis by (cases rule: ConnectBlock_cases) (use assms(2-4) in auto)
qed

lemma block_end_requests:
  "sm_find (mapRequests (opoi_block_end p vtx h c)) k = map_option
     (\<lambda>r. (if nOPoIResponseCommitWindowBlocks p \<le> 0 then id else close_window h p)
           ((if nOPoIRequestExpiryBlocks p \<le> 0 then id else expire_request h p) r)) (sm_find (mapRequests c) k)"
  by (simp add: opoi_block_end_def frame_simps ProcessResponseCommitWindows_def ProcessExpiredRequests_def
      option.map_comp comp_def option.map_id option.map_ident)

text \<open>
  C39. \<^verbatim>\<open>DisconnectBlock\<close> takes back the transactions of a block but none of the transitions that ran
  at its end: a request that the block expired stays expired after the block is disconnected,
  although it is pending on the chain the node is then on. Two nodes that follow the same chain,
  one of them after a reorganisation, so disagree on the transactions they accept.
\<close>

theorem reorg_keeps_expiry:
  assumes "ConnectBlock e p cx base vtx nHeight nd = (None, nd', us)"
    and "\<not> cx_fJustCheck cx" and "\<not> cx_genesis cx" and "opoi_live e p nHeight" and "\<forall>tx\<in>set vtx. \<not> IsOPoITx tx"
    and "sm_find (mapRequests (nd_cache nd)) k = Some r" and "request_overdue p (word_of_int nHeight) r"
  shows "rq_status r = RQ_PENDING \<and>
    map_option rq_status (sm_find (mapRequests (nd_cache (snd (DisconnectBlock e base vtx us nHeight nd')))) k) = Some RQ_EXPIRED"
  using assms(6,7)
  by (auto simp: disconnect_cache [OF assms(5)] connect_cache [OF assms(1-5)] block_end_requests request_overdue_def
      expire_request_def close_window_def rq_IsPending_def)

theorem reorg_keeps_expiry_witness:
  "map_option rq_status (sm_find (mapRequests (nd_cache sample_waiting)) ''r'') = Some RQ_PENDING \<and>
   (case ConnectBlock sample_env regtest_params sample_ctx sample_coins [sample_cb] 300 sample_waiting of (_, nd', us) \<Rightarrow>
      map_option rq_status (sm_find (mapRequests (nd_cache (snd
        (DisconnectBlock sample_env sample_coins [sample_cb] us 300 nd')))) ''r'') = Some RQ_EXPIRED)"
proof -
  obtain r nd' us where c: "ConnectBlock sample_env regtest_params sample_ctx sample_coins [sample_cb] 300 sample_waiting = (r, nd', us)"
    by (rule prod_cases3)
  then have r: "r = None" using sample_waiting_connects by simp
  obtain q where q: "sm_find (mapRequests (nd_cache sample_waiting)) ''r'' = Some q" "rq_blockHeight q = 280" "rq_status q = RQ_PENDING"
    by (simp add: sample_waiting_def sample_pending_def apply_request_def AddRequest_def OPoICache_init_def sample_wait_def)
  then have "request_overdue regtest_params (word_of_int 300) q"
    by (simp add: request_overdue_def rq_IsPending_def regtest_params_def)
  moreover have "opoi_live sample_env regtest_params 300" "\<forall>tx\<in>set [sample_cb]. \<not> IsOPoITx tx" by code_simp+
  moreover have "\<not> cx_fJustCheck sample_ctx" "\<not> cx_genesis sample_ctx" by (simp_all add: sample_ctx_def)
  ultimately show ?thesis
    using reorg_keeps_expiry [OF c [unfolded r], of "''r''" q] q by (simp add: c)
qed

section \<open>What a rebuilt cache does not remember\<close>

text \<open>
  C40. The replay of the chain at start-up leaves out the bookkeeping of the challengers' rewards:
  in a rebuilt cache no reward is marked as paid, whatever the chain paid, so a restarted node
  asks the coinbase of the next block to pay them again and rejects blocks the others accept.
\<close>

theorem rebuild_forgets_rewards: "\<not> IsChallengerRewardPaid (RebuildOPoICache e p chain c) requestId"
proof -
  have tx: "setPaidChallengerRewards (fold (\<lambda>tx. ProcessOPoITransaction e (Some p) tx h False) txs c) = setPaidChallengerRewards c" for h txs c
    by (rule fold_unchanged) (simp add: frame_simps)
  have "setPaidChallengerRewards (rebuild_block e p blk c) = setPaidChallengerRewards c" for blk c
    by (simp add: rebuild_block_def Let_def frame_simps tx split: prod.splits)
  then have "setPaidChallengerRewards (fold (rebuild_block e p) chain c) = setPaidChallengerRewards c" for c
    by (intro fold_unchanged)
  then show ?thesis by (simp add: RebuildOPoICache_def IsChallengerRewardPaid_def SetNull_def)
qed

end
