(* ===== verification/Opoi_Flood.thy ===== *)
theory Opoi_Flood
  imports Opoi_Relay
begin

text \<open>
  The flooding of relay messages through a network of nodes: every node has its cache and its
  connections, and messages are in flight between them. A step delivers any one message in
  flight, in any order, and puts the copies the receiver pushes on into flight.

  The lemmas show that a flood ends: however the deliveries are ordered, their number is bounded by what the
  peers did not know at the start, and the network stops only when nothing is in flight.
\<close>

section \<open>The network\<close>

type_synonym network = "(nat \<Rightarrow> OPoICache \<times> peers) \<times> (nat \<times> relay_event) list"

text \<open>\<^verbatim>\<open>PushMessage\<close> sends the message as it is; the receiver knows whom it came from.\<close>

fun sent_by :: "nat \<Rightarrow> relay_event \<Rightarrow> relay_event" where
  "sent_by n (DataFrom _ msg) = DataFrom n msg"
| "sent_by n (ContentFrom _ msg) = ContentFrom n msg"

inductive deliver :: "opoi_env \<Rightarrow> network \<Rightarrow> network \<Rightarrow> bool" for e where
  deliver: "handle e ev (nodes n) = (pushed, s') \<Longrightarrow>
    deliver e (nodes, xs @ (n, ev) # ys) (nodes(n := s'), xs @ ys @ map (\<lambda>q. (q, sent_by n ev)) pushed)"

inductive_cases deliverE: "deliver e s s'"

text \<open>How many of the messages \<open>U\<close> the peers of a node are not known to have.\<close>

definition room :: "uint256 set \<Rightarrow> peers \<Rightarrow> nat" where
  "room U ps = sum_list (map (\<lambda>(n, known). card (U - known)) ps)"

definition effort :: "nat set \<Rightarrow> uint256 set \<Rightarrow> network \<Rightarrow> nat" where
  "effort N U s = length (snd s) + (\<Sum>n\<in>N. room U (snd (fst s n)))"

text \<open>Messages of \<open>U\<close> travel between nodes of \<open>N\<close> only.\<close>

definition within :: "opoi_env \<Rightarrow> nat set \<Rightarrow> uint256 set \<Rightarrow> network \<Rightarrow> bool" where
  "within e N U s \<longleftrightarrow> (\<forall>(n, ev)\<in>set (snd s). n \<in> N \<and> event_hash e ev \<in> U) \<and>
     (\<forall>n\<in>N. set (map fst (snd (fst s n))) \<subseteq> N)"

section \<open>Every delivery uses up effort\<close>

lemma hash_sent_by [simp]: "event_hash e (sent_by n ev) = event_hash e ev"
  by (cases ev) simp_all

lemma room_mark: "finite U \<Longrightarrow> room U (mark_known pfrom h ps) \<le> room U ps"
proof (induction ps)
  case (Cons p ps)
  then have "card (U - insert h (snd p)) \<le> card (U - snd p)" by (intro card_mono) auto
  with Cons show ?case by (auto simp: room_def mark_known_def split: prod.splits)
qed (simp add: room_def mark_known_def)

lemma room_push:
  assumes "finite U" "h \<in> U"
  shows "length (fst (push_all h ps)) + room U (snd (push_all h ps)) = room U ps"
proof (induction ps)
  case (Cons p ps)
  obtain n known where p: "p = (n, known)" by (rule prod.exhaust)
  show ?case
  proof (cases "h \<in> known")
    case True
    then have "U - insert h known = U - known" by auto
    with Cons True p show ?thesis by (simp add: room_def push_all_def)
  next
    case False
    have "card (U - known) = Suc (card (U - insert h known))"
      unfolding Diff_insert [of U h known] by (rule card.remove) (use assms False in auto)
    with Cons False p show ?thesis by (simp add: room_def push_all_def)
  qed
qed (simp add: room_def push_all_def)

lemma push_all_names:
  "map fst (snd (push_all h ps)) = map fst ps" "set (fst (push_all h ps)) \<subseteq> set (map fst ps)"
  by (induction ps) (auto simp: push_all_def)

lemma room_handle:
  assumes "finite U" "event_hash e ev \<in> U" "handle e ev (c, ps) = (pushed, c', ps')"
  shows "length pushed + room U ps' \<le> room U ps \<and> map fst ps' = map fst ps \<and> set pushed \<subseteq> set (map fst ps)"
  using assms(3)
proof (cases rule: handle_cases)
  case (stop pfrom)
  then show ?thesis using room_mark [OF assms(1)] by simp
next
  case (push pfrom)
  let ?ps = "mark_known pfrom (event_hash e ev) ps"
  from push have "pushed = fst (push_all (event_hash e ev) ?ps)" "ps' = snd (push_all (event_hash e ev) ?ps)" by simp_all
  with room_push [OF assms(1,2), of ?ps] room_mark [OF assms(1), of pfrom "event_hash e ev" ps]
    push_all_names [of "event_hash e ev" ?ps]
  show ?thesis by simp
qed

lemma deliver_effort:
  assumes "deliver e s s'" "finite N" "finite U" "within e N U s"
  shows "effort N U s' < effort N U s \<and> within e N U s'"
  using assms(1)
proof (cases rule: deliver.cases)
  case (deliver ev nodes n pushed st xs ys)
  obtain c ps c' ps' where st: "nodes n = (c, ps)" "st = (c', ps')" by fastforce
  have w: "n \<in> N" "event_hash e ev \<in> U" and peers: "\<forall>n\<in>N. set (map fst (snd (nodes n))) \<subseteq> N"
    using assms(4) deliver(1) by (simp_all add: within_def)
  note r = room_handle [OF assms(3) w(2) deliver(3) [unfolded st]]
  have "(\<Sum>m\<in>N. room U (snd ((nodes(n := st)) m))) = room U ps' + (\<Sum>m\<in>N - {n}. room U (snd (nodes m)))"
    using assms(2) w(1) st by (simp add: sum.remove)
  moreover have "(\<Sum>m\<in>N. room U (snd (nodes m))) = room U ps + (\<Sum>m\<in>N - {n}. room U (snd (nodes m)))"
    using assms(2) w(1) st by (simp add: sum.remove)
  ultimately have "effort N U s' < effort N U s" using r deliver(1,2) by (simp add: effort_def)
  moreover have "within e N U s'"
  proof -
    have ps: "set (map fst ps) \<subseteq> N" using peers w(1) st(1) by (metis snd_conv)
    then have p: "set pushed \<subseteq> N" using r by blast
    have "set (map fst (snd ((nodes(n := st)) m))) \<subseteq> N" if "m \<in> N" for m
    proof (cases "m = n")
      case True
      then have "map fst (snd ((nodes(n := st)) m)) = map fst ps" using r st(2) by simp
      with ps show ?thesis by (simp only:)
    qed (use that peers in simp)
    then have "\<forall>m\<in>N. set (map fst (snd (fst s' m))) \<subseteq> N" unfolding deliver(2) fst_conv by (rule ballI)
    moreover have "\<forall>(m, ev')\<in>set (snd s'). m \<in> N \<and> event_hash e ev' \<in> U"
      using assms(4) p w(2) unfolding within_def deliver(1,2) by auto
    ultimately show ?thesis unfolding within_def by (rule conjI [rotated])
  qed
  ultimately show ?thesis by (rule conjI)
qed

lemma deliver_run:
  assumes "(deliver e ^^ k) s s'" "finite N" "finite U" "within e N U s"
  shows "k + effort N U s' \<le> effort N U s \<and> within e N U s'"
  using assms(1)
proof (induction k arbitrary: s')
  case (Suc k)
  then obtain s1 where "(deliver e ^^ k) s s1" "deliver e s1 s'" by auto
  with Suc.IH [of s1] deliver_effort [OF _ assms(2,3), of e s1 s'] show ?case by simp
qed (use assms(4) in simp)

lemma deliver_progress: "snd s \<noteq> [] \<Longrightarrow> \<exists>s'. deliver e s s'"
proof -
  assume "snd s \<noteq> []"
  then obtain nodes n ev fl where s: "s = (nodes, [] @ (n, ev) # fl)" by (cases s; cases "snd s") auto
  obtain pushed st where "handle e ev (nodes n) = (pushed, st)" by (rule prod.exhaust)
  then have "deliver e (nodes, [] @ (n, ev) # fl) (nodes(n := st), [] @ fl @ map (\<lambda>q. (q, sent_by n ev)) pushed)"
    by (rule deliver.deliver)
  then show ?thesis unfolding s by (rule exI)
qed

text \<open>
  C16. A flood of relay messages ends. Whatever the order of the deliveries and whatever the nodes
  make of the messages, the number of deliveries is at most the number of messages in flight plus, over
  all nodes and their connections, the messages the peer is not known to have; and the network
  comes to rest exactly when nothing is in flight any more.
\<close>

theorem flood_ends:
  assumes "finite N" and "finite U" and "within e N U s" and "(deliver e ^^ k) s s'"
  shows "k \<le> effort N U s \<and> ((\<nexists>s''. deliver e s' s'') \<longleftrightarrow> snd s' = [])"
proof -
  have "\<not> deliver e s' s''" if "snd s' = []" for s''
    using that by (auto elim!: deliver.cases)
  then show ?thesis using deliver_run [OF assms(4,1-3)] deliver_progress [of s' e] by auto
qed

definition sample_flood :: network where
  "sample_flood = (\<lambda>n. (sample_responded, [(1 - n, {})]),
     [(0, ContentFrom 7 \<lparr>cm_requestId = ''r'', cm_kind = 1, cm_payloadHex = ''07''\<rparr>)])"

theorem flood_ends_witness:
  "\<exists>s'. (deliver sample_env ^^ 1) sample_flood s' \<and> snd s' \<noteq> [] \<and>
     1 \<le> effort {0, 1} {event_hash sample_env (snd (hd (snd sample_flood)))} sample_flood"
proof -
  let ?m = "\<lparr>cm_requestId = ''r'', cm_kind = 1, cm_payloadHex = ''07''\<rparr>"
  let ?h = "COPoIContentMsg_GetHash sample_env ?m"
  let ?s = "(AddContent ''r'' 1 ''07'' sample_responded, [(1 :: nat, {?h})])"
  have "handle sample_env (ContentFrom 7 ?m) (fst sample_flood 0) = ([1], ?s)"
    using sample_content_accepted by (simp add: handle_opoicontent_def sample_flood_def push_all_def mark_known_def)
  then have "deliver sample_env (fst sample_flood, [] @ (0, ContentFrom 7 ?m) # [])
      ((fst sample_flood)(0 := ?s), [] @ [] @ map (\<lambda>q. (q, sent_by 0 (ContentFrom 7 ?m))) [1])" by (rule deliver.deliver)
  then have d: "(deliver sample_env ^^ 1) sample_flood ((fst sample_flood)(0 := ?s), [(1, ContentFrom 0 ?m)])"
    by (simp add: sample_flood_def eq_OO)
  have "within sample_env {0, 1} {?h} sample_flood" by (auto simp: within_def sample_flood_def)
  from flood_ends [OF _ _ this d] d show ?thesis by (auto simp: sample_flood_def)
qed

end
