(* ===== verification/Opoi_Wire.thy ===== *)
theory Opoi_Wire
  imports Coins_Codec Csapp Opoi_Relay
begin

text \<open>
  The wire format of CSApp and OPoI transactions (\<^verbatim>\<open>CTransaction::SerializationOp\<close> in
  \<^verbatim>\<open>primitives/transaction.h\<close>), which is also what the transaction hash covers, without the
  signatures and proofs.

  As in the code one description serves both directions: a field carries its writer and its
  reader, and the fields of a transaction come in stages, each of which may depend on what the
  stages before it carried.

  The lemmas show that a transaction is read back from what was written, and that the fields on
  the wire are all that the checks and the cache look at, so that every node treats a
  transaction as the node that created it does.
\<close>

section \<open>Values\<close>

definition ser_u8 :: "u8 \<Rightarrow> bytes" where "ser_u8 b = [b]"

definition read_u8 :: "u8 reader" where
  "read_u8 s = (case s of [] \<Rightarrow> None | b # s' \<Rightarrow> Some (b, s'))"

definition ser_i8 :: "int \<Rightarrow> bytes" where "ser_i8 x = [word_of_int x]"

definition read_i8 :: "int reader" where
  "read_i8 s = map_option (\<lambda>(b, s'). (sint b, s')) (read_u8 s)"

definition read_u32 :: "u32 reader" where
  "read_u32 s = map_option (\<lambda>(n, s'). (word_of_nat n, s')) (read_le 4 s)"

definition ser_u64 :: "u64 \<Rightarrow> bytes" where "ser_u64 w = le_bytes 8 (unat w)"

definition read_u64 :: "u64 reader" where
  "read_u64 s = map_option (\<lambda>(n, s'). (word_of_nat n, s')) (read_le 8 s)"

definition ser_i64 :: "int \<Rightarrow> bytes" where "ser_i64 x = le_bytes 8 (nat (x mod 2 ^ 64))"

definition read_i64 :: "int reader" where
  "read_i64 s = map_option (\<lambda>(n, s'). (wrap64 (int n), s')) (read_le 8 s)"

definition ser_uint256 :: "uint256 \<Rightarrow> bytes" where "ser_uint256 h = h"

definition read_uint256 :: "uint256 reader" where "read_uint256 = read_bytes 32"

definition ser_outpoint :: "COutPoint \<Rightarrow> bytes" where
  "ser_outpoint out = ser_uint256 (op_hash out) @ ser_u32 (op_n out)"

definition read_outpoint :: "COutPoint reader" where
  "read_outpoint s = (case read_uint256 s of
       None \<Rightarrow> None
     | Some (h, s) \<Rightarrow> map_option (\<lambda>(n, s'). (COutPoint h n, s')) (read_u32 s))"

definition read_vec :: "bytes reader" where
  "read_vec s = (case ReadCompactSize s of None \<Rightarrow> None | Some (nSize, s) \<Rightarrow> read_bytes nSize s)"

definition read_string :: "string reader" where
  "read_string s = map_option (\<lambda>(bs, s'). (map (char_of \<circ> unat) bs, s')) (read_vec s)"

text \<open>A vector of anything but bytes: the number of elements, then one after the other.\<close>

definition ser_list :: "('a \<Rightarrow> bytes) \<Rightarrow> 'a list \<Rightarrow> bytes" where
  "ser_list wr xs = WriteCompactSize (length xs) @ concat (map wr xs)"

fun read_n :: "'a reader \<Rightarrow> nat \<Rightarrow> 'a list reader" where
  "read_n rd 0 s = Some ([], s)"
| "read_n rd (Suc n) s = (case rd s of
       None \<Rightarrow> None
     | Some (x, s) \<Rightarrow> map_option (\<lambda>(xs, s'). (x # xs, s')) (read_n rd n s))"

definition read_list :: "'a reader \<Rightarrow> 'a list reader" where
  "read_list rd s = (case ReadCompactSize s of None \<Rightarrow> None | Some (nSize, s) \<Rightarrow> read_n rd nSize s)"

section \<open>The contract of a reader and its writer\<close>

locale codec =
  fixes wr :: "'a \<Rightarrow> bytes" and rd :: "'a reader" and ok :: "'a \<Rightarrow> bool"
  assumes rd_wr: "ok x \<Longrightarrow> rd (wr x @ s) = Some (x, s)"
begin

lemma read_n_ser: "list_all ok xs \<Longrightarrow> read_n rd (length xs) (concat (map wr xs) @ s) = Some (xs, s)"
  by (induction xs) (simp_all add: rd_wr)

lemma read_list_ser:
  "list_all ok xs \<Longrightarrow> length xs \<le> MAX_SIZE \<Longrightarrow> read_list rd (ser_list wr xs @ s) = Some (xs, s)"
  by (simp add: read_list_def ser_list_def ReadCompactSize_Write read_n_ser)

end

lemma word_mod:
  "word_of_nat (unat (w :: u32) mod 4294967296) = w" "word_of_nat (unat (v :: u64) mod 18446744073709551616) = v"
  using unsigned_less [of w, where ?'a = nat] unsigned_less [of v, where ?'a = nat] by simp_all

lemma wrap64_read: "- (2 ^ 63) \<le> x \<Longrightarrow> x < 2 ^ 63 \<Longrightarrow> wrap64 (x mod 2 ^ 64) = x"
  by (simp add: wrap64_def mod_add_left_eq)

lemma sint_i8: "- 128 \<le> x \<Longrightarrow> x < 128 \<Longrightarrow> sint (word_of_int x :: u8) = x"
  by (simp add: int_word_sint)

interpretation c_u8: codec ser_u8 read_u8 "\<lambda>_. True"
  by unfold_locales (simp add: ser_u8_def read_u8_def)

interpretation c_i8: codec ser_i8 read_i8 "\<lambda>x. - 128 \<le> x \<and> x < 128"
  by unfold_locales (simp add: ser_i8_def read_i8_def read_u8_def sint_i8)

interpretation c_u32: codec ser_u32 read_u32 "\<lambda>_. True"
  by unfold_locales (simp add: ser_u32_def read_u32_def read_le_bytes word_mod)

interpretation c_u64: codec ser_u64 read_u64 "\<lambda>_. True"
  by unfold_locales (simp add: ser_u64_def read_u64_def read_le_bytes word_mod)

interpretation c_i64: codec ser_i64 read_i64 "\<lambda>x. - (2 ^ 63) \<le> x \<and> x < 2 ^ 63"
  by unfold_locales (simp add: ser_i64_def read_i64_def read_le_bytes wrap64_read [simplified])

interpretation c_uint256: codec ser_uint256 read_uint256 "\<lambda>h. length h = 32"
  by unfold_locales (simp add: ser_uint256_def read_uint256_def le_num_append_read)

interpretation c_outpoint: codec ser_outpoint read_outpoint "\<lambda>out. length (op_hash out) = 32"
  by unfold_locales (simp add: ser_outpoint_def read_outpoint_def c_uint256.rd_wr c_u32.rd_wr)

interpretation c_vec: codec ser_vec read_vec "\<lambda>bs. length bs \<le> MAX_SIZE"
  by unfold_locales (simp add: ser_vec_def read_vec_def ReadCompactSize_Write le_num_append_read)

lemma char_byte: "char_of (unat (of_char c :: u8)) = c"
proof -
  have "(of_char c :: u8) = word_of_nat (of_char c)" by (simp add: of_char_def)
  moreover have "(of_char c :: nat) < 256" by (rule nat_of_char_less_256)
  ultimately have "unat (of_char c :: u8) = of_char c" by (simp add: unat_of_nat)
  then show ?thesis by simp
qed

interpretation c_string: codec ser_string read_string "\<lambda>s. length s \<le> MAX_SIZE"
  by unfold_locales
    (simp add: ser_string_def read_string_def read_vec_def ReadCompactSize_Write le_num_append_read str_bytes_def comp_def char_byte)

section \<open>Fields and stages\<close>

text \<open>\<^verbatim>\<open>READWRITE\<close> of one member: its writer, its reader, and the member that arrives.\<close>

record field =
  fd_write :: "CTransaction \<Rightarrow> bytes"
  fd_read :: "CTransaction \<Rightarrow> CTransaction reader"
  fd_copy :: "CTransaction \<Rightarrow> CTransaction \<Rightarrow> CTransaction"
  fd_ok :: "CTransaction \<Rightarrow> bool"

definition member ::
  "('a \<Rightarrow> bytes) \<Rightarrow> 'a reader \<Rightarrow> ('a \<Rightarrow> bool) \<Rightarrow> (CTransaction \<Rightarrow> 'a) \<Rightarrow> (('a \<Rightarrow> 'a) \<Rightarrow> CTransaction \<Rightarrow> CTransaction) \<Rightarrow> field" where
  "member wr rd ok get upd =
     \<lparr>fd_write = (\<lambda>tx. wr (get tx)), fd_read = (\<lambda>tx s. map_option (\<lambda>(x, s'). (upd (\<lambda>_. x) tx, s')) (rd s)),
      fd_copy = (\<lambda>tx. upd (\<lambda>_. get tx)), fd_ok = (\<lambda>tx. ok (get tx))\<rparr>"

definition f_i8 where "f_i8 = member ser_i8 read_i8 (\<lambda>x. - 128 \<le> x \<and> x < 128)"
definition f_u8 where "f_u8 = member ser_u8 read_u8 (\<lambda>_. True)"
definition f_u32 where "f_u32 = member ser_u32 read_u32 (\<lambda>_. True)"
definition f_u64 where "f_u64 = member ser_u64 read_u64 (\<lambda>_. True)"
definition f_amount where "f_amount = member ser_i64 read_i64 (\<lambda>x. - (2 ^ 63) \<le> x \<and> x < 2 ^ 63)"
definition f_string where "f_string = member ser_string read_string (\<lambda>s. length s \<le> MAX_SIZE)"
definition f_vec where "f_vec = member ser_vec read_vec (\<lambda>bs. length bs \<le> MAX_SIZE)"
definition f_uint256 where "f_uint256 = member ser_uint256 read_uint256 (\<lambda>h. length h = 32)"
definition f_outpoint where "f_outpoint = member ser_outpoint read_outpoint (\<lambda>out. length (op_hash out) = 32)"
definition f_u32s where "f_u32s = member (ser_list ser_u32) (read_list read_u32) (\<lambda>xs. length xs \<le> MAX_SIZE)"
definition f_uint256s where
  "f_uint256s = member (ser_list ser_uint256) (read_list read_uint256) (\<lambda>xs. length xs \<le> MAX_SIZE \<and> list_all (\<lambda>h. length h = 32) xs)"

lemmas field_defs = f_i8_def f_u8_def f_u32_def f_u64_def f_amount_def f_string_def f_vec_def f_uint256_def
  f_outpoint_def f_u32s_def f_uint256s_def

text \<open>The \<open>SER_GETHASH\<close> stream leaves out the signatures and the proofs.\<close>

definition unless_hash :: "bool \<Rightarrow> field list \<Rightarrow> field list" where
  "unless_hash getHash fs = (if getHash then [] else fs)"

text \<open>A stage: the fields that follow, given what is known of the transaction so far.\<close>

type_synonym stage = "CTransaction \<Rightarrow> field list"

fun write_fields :: "field list \<Rightarrow> CTransaction \<Rightarrow> bytes" where
  "write_fields [] tx = []"
| "write_fields (f # fs) tx = fd_write f tx @ write_fields fs tx"

fun read_fields :: "field list \<Rightarrow> CTransaction \<Rightarrow> CTransaction reader" where
  "read_fields [] tx s = Some (tx, s)"
| "read_fields (f # fs) tx s = (case fd_read f tx s of None \<Rightarrow> None | Some (tx, s) \<Rightarrow> read_fields fs tx s)"

fun write_stages :: "stage list \<Rightarrow> CTransaction \<Rightarrow> bytes" where
  "write_stages [] tx = []"
| "write_stages (st # sts) tx = write_fields (st tx) tx @ write_stages sts tx"

fun read_stages :: "stage list \<Rightarrow> CTransaction \<Rightarrow> CTransaction reader" where
  "read_stages [] tx s = Some (tx, s)"
| "read_stages (st # sts) tx s = (case read_fields (st tx) tx s of None \<Rightarrow> None | Some (tx, s) \<Rightarrow> read_stages sts tx s)"

section \<open>The two transaction formats\<close>

definition csapp_stages :: "bool \<Rightarrow> stage list" where
  "csapp_stages getHash =
     [\<lambda>_. [f_i8 nType nType_update, f_string csappDeploymentId csappDeploymentId_update, f_string csappOwner csappOwner_update],
      \<lambda>tx. if nType tx = CSAPP_REGISTER_TX_TYPE then
             [f_string csappSpecJson csappSpecJson_update, f_string csappIp csappIp_update,
              f_amount csappLockedAmount csappLockedAmount_update]
           else if nType tx = CSAPP_UPDATE_TX_TYPE then [f_string csappSpecJson csappSpecJson_update] else [],
      \<lambda>_. unless_hash getHash [f_vec csappSig csappSig_update]]"

definition opoi_fields :: stage where
  "opoi_fields tx =
     (if nType tx = OPOI_REQUEST_TX_TYPE then
        [f_string opoiRequestId opoiRequestId_update, f_string opoiRequester opoiRequester_update,
         f_string opoiModel opoiModel_update, f_uint256 opoiPromptHash opoiPromptHash_update,
         f_u32 opoiMaxTokens opoiMaxTokens_update, f_amount opoiPayment opoiPayment_update,
         f_amount opoiFeePerToken opoiFeePerToken_update, f_i8 opoiTaskType opoiTaskType_update,
         f_u8 opoiTaskClass opoiTaskClass_update, f_u32 opoiPromptTokenCount opoiPromptTokenCount_update,
         f_u8 opoiIsCanary opoiIsCanary_update]
      else if nType tx = OPOI_RESPONSE_TX_TYPE then
        [f_string opoiRequestId opoiRequestId_update, f_string opoiMinerAddress opoiMinerAddress_update,
         f_u8 opoiResponsePhase opoiResponsePhase_update]
      else if nType tx = OPOI_STAKE_TX_TYPE then
        [f_string opoiMinerAddress opoiMinerAddress_update, f_outpoint opoiCollateralIn opoiCollateralIn_update,
         f_amount opoiPayment opoiPayment_update, f_string opoiModelId opoiModelId_update, f_u8 opoiTier opoiTier_update,
         f_uint256 opoiPomRoot opoiPomRoot_update, f_u32s opoiHostedExpertIds opoiHostedExpertIds_update,
         f_string opoiEndpoint opoiEndpoint_update]
      else if nType tx = OPOI_UNSTAKE_TX_TYPE then [f_string opoiMinerAddress opoiMinerAddress_update]
      else if nType tx = OPOI_CHALLENGE_TX_TYPE then
        [f_string opoiRequestId opoiRequestId_update, f_string opoiRequester opoiRequester_update,
         f_uint256 opoiResponseHash opoiResponseHash_update, f_u8 opoiChallengePhase opoiChallengePhase_update,
         f_outpoint opoiChallengerCollateralIn opoiChallengerCollateralIn_update]
      else if nType tx = OPOI_AUDITOR_VERIFY_TX_TYPE then
        [f_string opoiRequestId opoiRequestId_update, f_string opoiAuditorAddress opoiAuditorAddress_update,
         f_u8 opoiAuditorVerifyResult opoiAuditorVerifyResult_update,
         f_outpoint opoiAuditorCollateralIn opoiAuditorCollateralIn_update, f_u32 opoiShardIndex opoiShardIndex_update]
      else if nType tx = OPOI_MODEL_REGISTER_TX_TYPE then
        [f_string opoiModelId opoiModelId_update, f_string opoiRequester opoiRequester_update,
         f_u8 opoiModelArchType opoiModelArchType_update, f_u64 opoiModelTotalParams opoiModelTotalParams_update,
         f_u64 opoiModelActiveParamsPerToken opoiModelActiveParamsPerToken_update,
         f_u32 opoiModelNumLayers opoiModelNumLayers_update, f_u32 opoiModelNumDenseShards opoiModelNumDenseShards_update,
         f_u32 opoiModelNumExperts opoiModelNumExperts_update, f_u32 opoiModelTopKExperts opoiModelTopKExperts_update,
         f_uint256 opoiPomRoot opoiPomRoot_update, f_uint256s opoiModelExpertPomRoots opoiModelExpertPomRoots_update,
         f_amount opoiModelMinRewardPerToken opoiModelMinRewardPerToken_update,
         f_u64 opoiModelTotalSizeBytes opoiModelTotalSizeBytes_update]
      else if nType tx = OPOI_MODEL_VOTE_TX_TYPE then
        [f_string opoiModelId opoiModelId_update, f_string opoiRequester opoiRequester_update,
         f_u8 opoiModelVoteApprove opoiModelVoteApprove_update]
      else if nType tx = OPOI_COORDINATOR_CLAIM_TX_TYPE then
        [f_string opoiRequestId opoiRequestId_update, f_string opoiMinerAddress opoiMinerAddress_update]
      else if nType tx = OPOI_SHARD_RESULT_TX_TYPE then
        [f_string opoiRequestId opoiRequestId_update, f_u32 opoiShardIndex opoiShardIndex_update,
         f_string opoiMinerAddress opoiMinerAddress_update, f_uint256 opoiResponseHash opoiResponseHash_update,
         f_uint256 opoiCommitment opoiCommitment_update, f_u32 opoiTokenCount opoiTokenCount_update]
      else if nType tx = OPOI_RENEW_TX_TYPE then [f_string opoiMinerAddress opoiMinerAddress_update]
      else [])"

definition opoi_branch :: "bool \<Rightarrow> stage" where
  "opoi_branch getHash tx =
     (if nType tx = OPOI_REQUEST_TX_TYPE then
        (if opoiTaskType tx = OPOI_TASK_VERIFIABLE then [f_uint256 opoiTestSuite opoiTestSuite_update] else [])
      else if nType tx = OPOI_RESPONSE_TX_TYPE then
        (if opoiResponsePhase tx = 0 then [f_vec opoiResponseCommitHash opoiResponseCommitHash_update]
         else [f_uint256 opoiResponseHash opoiResponseHash_update, f_uint256 opoiCommitment opoiCommitment_update,
               f_u32 opoiTokenCount opoiTokenCount_update, f_vec opoiResponseNonce opoiResponseNonce_update] @
              unless_hash getHash [f_vec opoiVrfProof opoiVrfProof_update, f_vec opoiVrfOutput opoiVrfOutput_update])
      else if nType tx = OPOI_CHALLENGE_TX_TYPE then
        (if opoiChallengePhase tx = 0 then [f_vec opoiCommitHash opoiCommitHash_update]
         else [f_vec opoiProofData opoiProofData_update, f_vec opoiChallengeNonce opoiChallengeNonce_update])
      else if nType tx = OPOI_COORDINATOR_CLAIM_TX_TYPE \<or> nType tx = OPOI_SHARD_RESULT_TX_TYPE then
        unless_hash getHash [f_vec opoiVrfProof opoiVrfProof_update]
      else [])"

definition opoi_stages :: "bool \<Rightarrow> stage list" where
  "opoi_stages getHash =
     [\<lambda>_. [f_i8 nType nType_update, f_u32 opoiSigTime opoiSigTime_update], opoi_fields, opoi_branch getHash,
      \<lambda>_. unless_hash getHash [f_vec opoiSig opoiSig_update]]"

definition stages_of :: "int \<Rightarrow> bool \<Rightarrow> stage list" where
  "stages_of v getHash = (if v = CSAPP_TX_VERSION then csapp_stages getHash else opoi_stages getHash)"

text \<open>
  The header is the version; the members of the two formats follow. What the reader does with
  any other header is the parameter \<open>legacy\<close>.
\<close>

definition ser_tx :: "bool \<Rightarrow> CTransaction \<Rightarrow> bytes" where
  "ser_tx getHash tx = le_bytes 4 (nat (nVersion tx)) @ write_stages (stages_of (nVersion tx) getHash) tx"

definition UpdateHash :: "opoi_env \<Rightarrow> CTransaction \<Rightarrow> CTransaction" where
  "UpdateHash e tx = tx\<lparr>tx_hash := hash256 e (ser_tx True tx)\<rparr>"

definition unser_tx :: "opoi_env \<Rightarrow> (nat \<Rightarrow> CTransaction reader) \<Rightarrow> CTransaction reader" where
  "unser_tx e legacy s = (case read_le 4 s of
       None \<Rightarrow> None
     | Some (header, s) \<Rightarrow>
         if int header = CSAPP_TX_VERSION \<or> int header = OPOI_TX_VERSION then
           map_option (\<lambda>(tx, s'). (UpdateHash e tx, s'))
             (read_stages (stages_of (int header) False) (CTransaction_init\<lparr>nVersion := int header\<rparr>) s)
         else legacy header s)"

section \<open>Reading what was written\<close>

definition copy_fields :: "field list \<Rightarrow> CTransaction \<Rightarrow> CTransaction \<Rightarrow> CTransaction" where
  "copy_fields fs tx = fold (\<lambda>f. fd_copy f tx) fs"

fun copy_stages :: "stage list \<Rightarrow> CTransaction \<Rightarrow> CTransaction \<Rightarrow> CTransaction" where
  "copy_stages [] tx tx0 = tx0"
| "copy_stages (st # sts) tx tx0 = copy_stages sts tx (copy_fields (st tx) tx tx0)"

text \<open>The transaction as it arrives: the members on the wire, all others as constructed.\<close>

definition arrived :: "opoi_env \<Rightarrow> CTransaction \<Rightarrow> CTransaction" where
  "arrived e tx = UpdateHash e (copy_stages (stages_of (nVersion tx) False) tx (CTransaction_init\<lparr>nVersion := nVersion tx\<rparr>))"

definition good_field :: "field \<Rightarrow> bool" where
  "good_field f \<longleftrightarrow> (\<forall>tx tx0 s. fd_ok f tx \<longrightarrow> fd_read f tx0 (fd_write f tx @ s) = Some (fd_copy f tx tx0, s))"

text \<open>The members of a transaction that do not fit their fields: too long, or out of range.\<close>

definition fits :: "CTransaction \<Rightarrow> bool" where
  "fits tx \<longleftrightarrow> list_all (\<lambda>st. list_all (\<lambda>f. fd_ok f tx) (st tx)) (stages_of (nVersion tx) False)"

context codec
begin

lemma good_member: "good_field (member wr rd ok get upd)"
  by (simp add: good_field_def member_def rd_wr)

lemma good_list_member:
  "good_field (member (ser_list wr) (read_list rd) (\<lambda>xs. length xs \<le> MAX_SIZE \<and> list_all ok xs) get upd)"
  by (simp add: good_field_def member_def read_list_ser)

end

lemma good_fields [simp]:
  "good_field (f_i8 g0 u0)" "good_field (f_u8 g1 u1)" "good_field (f_u32 g2 u2)" "good_field (f_u64 g3 u3)"
  "good_field (f_amount g4 u4)" "good_field (f_string g5 u5)" "good_field (f_vec g6 u6)" "good_field (f_uint256 g7 u7)"
  "good_field (f_outpoint g8 u8)" "good_field (f_u32s g9 u9)" "good_field (f_uint256s ga ua)"
  unfolding field_defs
  using c_i8.good_member c_u8.good_member c_u32.good_member c_u64.good_member c_i64.good_member c_string.good_member
    c_vec.good_member c_uint256.good_member c_outpoint.good_member c_u32.good_list_member c_uint256.good_list_member
  by (simp_all add: list_all_iff)

lemma read_fields_write:
  "list_all good_field fs \<Longrightarrow> list_all (\<lambda>f. fd_ok f tx) fs \<Longrightarrow>
   read_fields fs tx0 (write_fields fs tx @ s) = Some (copy_fields fs tx tx0, s)"
  by (induction fs arbitrary: tx0) (simp_all add: good_field_def copy_fields_def)

text \<open>Every stage sees of the transaction read so far what it saw when it was written.\<close>

fun agrees :: "stage list \<Rightarrow> CTransaction \<Rightarrow> CTransaction \<Rightarrow> bool" where
  "agrees [] tx tx0 = True"
| "agrees (st # sts) tx tx0 = (st tx0 = st tx \<and> agrees sts tx (copy_fields (st tx) tx tx0))"

lemma read_stages_write:
  "agrees sts tx tx0 \<Longrightarrow> list_all (\<lambda>st. list_all good_field (st tx) \<and> list_all (\<lambda>f. fd_ok f tx) (st tx)) sts \<Longrightarrow>
   read_stages sts tx0 (write_stages sts tx @ s) = Some (copy_stages sts tx tx0, s)"
  by (induction sts arbitrary: tx0) (simp_all add: read_fields_write)

lemma copy_member [simp]:
  "fd_copy (f_i8 g0 u0) tx = u0 (\<lambda>_. g0 tx)" "fd_copy (f_u8 g1 u1) tx = u1 (\<lambda>_. g1 tx)"
  "fd_copy (f_u32 g2 u2) tx = u2 (\<lambda>_. g2 tx)" "fd_copy (f_u64 g3 u3) tx = u3 (\<lambda>_. g3 tx)"
  "fd_copy (f_amount g4 u4) tx = u4 (\<lambda>_. g4 tx)" "fd_copy (f_string g5 u5) tx = u5 (\<lambda>_. g5 tx)"
  "fd_copy (f_vec g6 u6) tx = u6 (\<lambda>_. g6 tx)" "fd_copy (f_uint256 g7 u7) tx = u7 (\<lambda>_. g7 tx)"
  "fd_copy (f_outpoint g8 u8) tx = u8 (\<lambda>_. g8 tx)" "fd_copy (f_u32s g9 u9) tx = u9 (\<lambda>_. g9 tx)"
  "fd_copy (f_uint256s ga ua) tx = ua (\<lambda>_. ga tx)"
  by (simp_all add: field_defs member_def)

lemma copy_fields_simps [simp]:
  "copy_fields [] tx tx0 = tx0" "copy_fields (f # fs) tx tx0 = copy_fields fs tx (fd_copy f tx tx0)"
  by (simp_all add: copy_fields_def)

lemmas wire_types = opoi_types csapp_types

lemma type_cases:
  obtains (request) "nType tx = OPOI_REQUEST_TX_TYPE" | (response) "nType tx = OPOI_RESPONSE_TX_TYPE"
  | (stake) "nType tx = OPOI_STAKE_TX_TYPE" | (unstake) "nType tx = OPOI_UNSTAKE_TX_TYPE"
  | (challenge) "nType tx = OPOI_CHALLENGE_TX_TYPE" | (verify) "nType tx = OPOI_AUDITOR_VERIFY_TX_TYPE"
  | (register) "nType tx = OPOI_MODEL_REGISTER_TX_TYPE" | (vote) "nType tx = OPOI_MODEL_VOTE_TX_TYPE"
  | (claim) "nType tx = OPOI_COORDINATOR_CLAIM_TX_TYPE" | (result) "nType tx = OPOI_SHARD_RESULT_TX_TYPE"
  | (renew) "nType tx = OPOI_RENEW_TX_TYPE"
  | (other) "nType tx \<noteq> OPOI_REQUEST_TX_TYPE" "nType tx \<noteq> OPOI_RESPONSE_TX_TYPE" "nType tx \<noteq> OPOI_STAKE_TX_TYPE"
      "nType tx \<noteq> OPOI_UNSTAKE_TX_TYPE" "nType tx \<noteq> OPOI_CHALLENGE_TX_TYPE" "nType tx \<noteq> OPOI_AUDITOR_VERIFY_TX_TYPE"
      "nType tx \<noteq> OPOI_MODEL_REGISTER_TX_TYPE" "nType tx \<noteq> OPOI_MODEL_VOTE_TX_TYPE"
      "nType tx \<noteq> OPOI_COORDINATOR_CLAIM_TX_TYPE" "nType tx \<noteq> OPOI_SHARD_RESULT_TX_TYPE" "nType tx \<noteq> OPOI_RENEW_TX_TYPE"
  by blast

lemma good_opoi_fields: "list_all good_field (opoi_fields tx)"
  by (cases rule: type_cases [of tx]) (simp_all add: opoi_fields_def opoi_types)

lemma good_opoi_branch: "list_all good_field (opoi_branch getHash tx)"
  by (cases rule: type_cases [of tx]) (simp_all add: opoi_branch_def opoi_types unless_hash_def)

lemma good_stages: "list_all (\<lambda>st. list_all good_field (st tx)) (stages_of v getHash)"
  by (simp add: stages_of_def csapp_stages_def opoi_stages_def good_opoi_fields good_opoi_branch unless_hash_def)

lemma opoi_fields_cong: "nType tx0 = nType tx \<Longrightarrow> opoi_fields tx0 = opoi_fields tx"
  unfolding opoi_fields_def by simp

lemma opoi_branch_cong:
  "nType tx0 = nType tx \<Longrightarrow>
   (nType tx = OPOI_REQUEST_TX_TYPE \<longrightarrow> opoiTaskType tx0 = opoiTaskType tx) \<Longrightarrow>
   (nType tx = OPOI_RESPONSE_TX_TYPE \<longrightarrow> opoiResponsePhase tx0 = opoiResponsePhase tx) \<Longrightarrow>
   (nType tx = OPOI_CHALLENGE_TX_TYPE \<longrightarrow> opoiChallengePhase tx0 = opoiChallengePhase tx) \<Longrightarrow>
   opoi_branch getHash tx0 = opoi_branch getHash tx"
  unfolding opoi_branch_def by simp

lemma copy_fields_request:
  "nType tx = OPOI_REQUEST_TX_TYPE \<Longrightarrow> opoiTaskType (copy_fields (opoi_fields tx) tx tx0) = opoiTaskType tx"
  by (simp add: opoi_fields_def)

lemma copy_fields_response:
  "nType tx = OPOI_RESPONSE_TX_TYPE \<Longrightarrow> opoiResponsePhase (copy_fields (opoi_fields tx) tx tx0) = opoiResponsePhase tx"
  by (simp add: opoi_fields_def opoi_types)

lemma copy_fields_challenge:
  "nType tx = OPOI_CHALLENGE_TX_TYPE \<Longrightarrow> opoiChallengePhase (copy_fields (opoi_fields tx) tx tx0) = opoiChallengePhase tx"
  by (simp add: opoi_fields_def opoi_types)

lemma copy_fields_nType: "nType (copy_fields (opoi_fields tx) tx tx0) = nType tx0"
  by (cases rule: type_cases [of tx]) (simp_all add: opoi_fields_def opoi_types)

lemma opoi_agrees: "agrees (opoi_stages getHash) tx tx0"
proof -
  let ?tx1 = "copy_fields [f_i8 nType nType_update, f_u32 opoiSigTime opoiSigTime_update] tx tx0"
  have t: "nType ?tx1 = nType tx" by simp
  have "opoi_branch getHash (copy_fields (opoi_fields tx) tx ?tx1) = opoi_branch getHash tx"
    by (intro opoi_branch_cong impI)
      (simp_all only: copy_fields_nType t copy_fields_request copy_fields_response copy_fields_challenge simp_thms)
  then show ?thesis
    unfolding opoi_stages_def agrees.simps using opoi_fields_cong [OF t] by blast
qed

lemma csapp_agrees: "agrees (csapp_stages getHash) tx tx0"
  by (simp add: csapp_stages_def)

lemma stages_agree: "agrees (stages_of v getHash) tx tx0"
  by (simp add: stages_of_def opoi_agrees csapp_agrees)

lemma read_header:
  assumes "v = CSAPP_TX_VERSION \<or> v = OPOI_TX_VERSION"
  shows "read_le 4 (le_bytes 4 (nat v) @ s) = Some (nat v, s)" "int (nat v) = v"
  using assms by (auto simp: CSAPP_TX_VERSION_def OPOI_TX_VERSION_def read_le_bytes)

lemma read_back:
  assumes "nVersion tx = CSAPP_TX_VERSION \<or> nVersion tx = OPOI_TX_VERSION" "fits tx"
  shows "unser_tx e legacy (ser_tx False tx @ s) = Some (arrived e tx, s)"
proof -
  have "list_all (\<lambda>st. list_all good_field (st tx) \<and> list_all (\<lambda>f. fd_ok f tx) (st tx)) (stages_of (nVersion tx) False)"
    using assms(2) good_stages [of tx "nVersion tx" False] by (simp add: fits_def list_all_iff)
  from read_stages_write [OF stages_agree this] show ?thesis
    using assms(1)
    by (simp only: unser_tx_def ser_tx_def arrived_def append_assoc read_header [OF assms(1)] option.simps prod.case if_True)
qed

text \<open>
  C18. An application or inference transaction whose members fit their fields is read back from
  its own bytes, whatever follows them in the stream: all that the format carries of its type
  returns, every other member is as the constructor leaves it, and the hash is computed anew.
\<close>

theorem wire_roundtrip:
  assumes "nVersion tx = CSAPP_TX_VERSION \<or> nVersion tx = OPOI_TX_VERSION" "fits tx"
  shows "unser_tx e legacy (ser_tx False tx @ s) = Some (arrived e tx, s)"
  using assms by (rule read_back)

section \<open>What arrives is all that is looked at\<close>

definition carried :: "CTransaction \<Rightarrow> CTransaction" where
  "carried tx = copy_stages (opoi_stages False) tx (CTransaction_init\<lparr>nVersion := nVersion tx\<rparr>)"

lemma carried_always:
  "nVersion (carried tx) = nVersion tx" "nType (carried tx) = nType tx" "opoiSigTime (carried tx) = opoiSigTime tx"
  "opoiSig (carried tx) = opoiSig tx" "vin (carried tx) = []" "vout (carried tx) = []" "vJoinSplit (carried tx) = []"
  by (cases rule: type_cases [of tx];
      simp add: carried_def opoi_stages_def opoi_fields_def opoi_branch_def opoi_types unless_hash_def CTransaction_init_def)+

text \<open>Per type, the members that arrive as they were sent.\<close>

lemma carried_request:
  assumes "nType tx = OPOI_REQUEST_TX_TYPE" "opoiTaskType tx \<noteq> OPOI_TASK_VERIFIABLE \<longrightarrow> opoiTestSuite tx = opoiTestSuite CTransaction_init"
  shows
    "opoiRequestId (carried tx) = opoiRequestId tx" "opoiRequester (carried tx) = opoiRequester tx"
    "opoiModel (carried tx) = opoiModel tx" "opoiPromptHash (carried tx) = opoiPromptHash tx"
    "opoiMaxTokens (carried tx) = opoiMaxTokens tx" "opoiPayment (carried tx) = opoiPayment tx"
    "opoiFeePerToken (carried tx) = opoiFeePerToken tx" "opoiTaskType (carried tx) = opoiTaskType tx"
    "opoiTaskClass (carried tx) = opoiTaskClass tx" "opoiPromptTokenCount (carried tx) = opoiPromptTokenCount tx"
    "opoiIsCanary (carried tx) = opoiIsCanary tx" "opoiTestSuite (carried tx) = opoiTestSuite tx"
  using assms by (simp_all add: carried_def opoi_stages_def opoi_fields_def opoi_branch_def opoi_types unless_hash_def)

lemma carried_commit:
  assumes "nType tx = OPOI_RESPONSE_TX_TYPE" "opoiResponsePhase tx = 0"
  shows
    "opoiRequestId (carried tx) = opoiRequestId tx" "opoiMinerAddress (carried tx) = opoiMinerAddress tx"
    "opoiResponsePhase (carried tx) = opoiResponsePhase tx"
    "opoiResponseCommitHash (carried tx) = opoiResponseCommitHash tx"
  using assms by (simp_all add: carried_def opoi_stages_def opoi_fields_def opoi_branch_def opoi_types unless_hash_def)

lemma carried_reveal:
  assumes "nType tx = OPOI_RESPONSE_TX_TYPE" "opoiResponsePhase tx \<noteq> 0"
  shows
    "opoiRequestId (carried tx) = opoiRequestId tx" "opoiMinerAddress (carried tx) = opoiMinerAddress tx"
    "opoiResponsePhase (carried tx) = opoiResponsePhase tx" "opoiResponseHash (carried tx) = opoiResponseHash tx"
    "opoiCommitment (carried tx) = opoiCommitment tx" "opoiTokenCount (carried tx) = opoiTokenCount tx"
    "opoiResponseNonce (carried tx) = opoiResponseNonce tx" "opoiVrfProof (carried tx) = opoiVrfProof tx"
  using assms by (simp_all add: carried_def opoi_stages_def opoi_fields_def opoi_branch_def opoi_types unless_hash_def)

lemma carried_stake:
  assumes "nType tx = OPOI_STAKE_TX_TYPE"
  shows
    "opoiMinerAddress (carried tx) = opoiMinerAddress tx" "opoiCollateralIn (carried tx) = opoiCollateralIn tx"
    "opoiPayment (carried tx) = opoiPayment tx" "opoiModelId (carried tx) = opoiModelId tx"
    "opoiTier (carried tx) = opoiTier tx" "opoiPomRoot (carried tx) = opoiPomRoot tx"
    "opoiHostedExpertIds (carried tx) = opoiHostedExpertIds tx" "opoiEndpoint (carried tx) = opoiEndpoint tx"
  using assms by (simp_all add: carried_def opoi_stages_def opoi_fields_def opoi_branch_def opoi_types unless_hash_def)

lemma carried_unstake:
  assumes "nType tx = OPOI_UNSTAKE_TX_TYPE"
  shows
    "opoiMinerAddress (carried tx) = opoiMinerAddress tx"
  using assms by (simp_all add: carried_def opoi_stages_def opoi_fields_def opoi_branch_def opoi_types unless_hash_def)

lemma carried_challenge_commit:
  assumes "nType tx = OPOI_CHALLENGE_TX_TYPE" "opoiChallengePhase tx = 0"
  shows
    "opoiRequestId (carried tx) = opoiRequestId tx" "opoiRequester (carried tx) = opoiRequester tx"
    "opoiResponseHash (carried tx) = opoiResponseHash tx" "opoiChallengePhase (carried tx) = opoiChallengePhase tx"
    "opoiChallengerCollateralIn (carried tx) = opoiChallengerCollateralIn tx"
    "opoiCommitHash (carried tx) = opoiCommitHash tx"
  using assms by (simp_all add: carried_def opoi_stages_def opoi_fields_def opoi_branch_def opoi_types unless_hash_def)

lemma carried_challenge_reveal:
  assumes "nType tx = OPOI_CHALLENGE_TX_TYPE" "opoiChallengePhase tx \<noteq> 0"
  shows
    "opoiRequestId (carried tx) = opoiRequestId tx" "opoiRequester (carried tx) = opoiRequester tx"
    "opoiResponseHash (carried tx) = opoiResponseHash tx" "opoiChallengePhase (carried tx) = opoiChallengePhase tx"
    "opoiChallengerCollateralIn (carried tx) = opoiChallengerCollateralIn tx"
    "opoiProofData (carried tx) = opoiProofData tx" "opoiChallengeNonce (carried tx) = opoiChallengeNonce tx"
  using assms by (simp_all add: carried_def opoi_stages_def opoi_fields_def opoi_branch_def opoi_types unless_hash_def)

lemma carried_verify:
  assumes "nType tx = OPOI_AUDITOR_VERIFY_TX_TYPE"
  shows
    "opoiRequestId (carried tx) = opoiRequestId tx" "opoiAuditorAddress (carried tx) = opoiAuditorAddress tx"
    "opoiAuditorVerifyResult (carried tx) = opoiAuditorVerifyResult tx"
    "opoiAuditorCollateralIn (carried tx) = opoiAuditorCollateralIn tx"
    "opoiShardIndex (carried tx) = opoiShardIndex tx"
  using assms by (simp_all add: carried_def opoi_stages_def opoi_fields_def opoi_branch_def opoi_types unless_hash_def)

lemma carried_register:
  assumes "nType tx = OPOI_MODEL_REGISTER_TX_TYPE"
  shows
    "opoiModelId (carried tx) = opoiModelId tx" "opoiRequester (carried tx) = opoiRequester tx"
    "opoiModelArchType (carried tx) = opoiModelArchType tx"
    "opoiModelTotalParams (carried tx) = opoiModelTotalParams tx"
    "opoiModelActiveParamsPerToken (carried tx) = opoiModelActiveParamsPerToken tx"
    "opoiModelNumLayers (carried tx) = opoiModelNumLayers tx"
    "opoiModelNumDenseShards (carried tx) = opoiModelNumDenseShards tx"
    "opoiModelNumExperts (carried tx) = opoiModelNumExperts tx"
    "opoiModelTopKExperts (carried tx) = opoiModelTopKExperts tx" "opoiPomRoot (carried tx) = opoiPomRoot tx"
    "opoiModelExpertPomRoots (carried tx) = opoiModelExpertPomRoots tx"
    "opoiModelMinRewardPerToken (carried tx) = opoiModelMinRewardPerToken tx"
    "opoiModelTotalSizeBytes (carried tx) = opoiModelTotalSizeBytes tx"
  using assms by (simp_all add: carried_def opoi_stages_def opoi_fields_def opoi_branch_def opoi_types unless_hash_def)

lemma carried_vote:
  assumes "nType tx = OPOI_MODEL_VOTE_TX_TYPE"
  shows
    "opoiModelId (carried tx) = opoiModelId tx" "opoiRequester (carried tx) = opoiRequester tx"
    "opoiModelVoteApprove (carried tx) = opoiModelVoteApprove tx"
  using assms by (simp_all add: carried_def opoi_stages_def opoi_fields_def opoi_branch_def opoi_types unless_hash_def)

lemma carried_claim:
  assumes "nType tx = OPOI_COORDINATOR_CLAIM_TX_TYPE"
  shows
    "opoiRequestId (carried tx) = opoiRequestId tx" "opoiMinerAddress (carried tx) = opoiMinerAddress tx"
    "opoiVrfProof (carried tx) = opoiVrfProof tx"
  using assms by (simp_all add: carried_def opoi_stages_def opoi_fields_def opoi_branch_def opoi_types unless_hash_def)

lemma carried_result:
  assumes "nType tx = OPOI_SHARD_RESULT_TX_TYPE"
  shows
    "opoiRequestId (carried tx) = opoiRequestId tx" "opoiShardIndex (carried tx) = opoiShardIndex tx"
    "opoiMinerAddress (carried tx) = opoiMinerAddress tx" "opoiResponseHash (carried tx) = opoiResponseHash tx"
    "opoiCommitment (carried tx) = opoiCommitment tx" "opoiTokenCount (carried tx) = opoiTokenCount tx"
    "opoiVrfProof (carried tx) = opoiVrfProof tx"
  using assms by (simp_all add: carried_def opoi_stages_def opoi_fields_def opoi_branch_def opoi_types unless_hash_def)

lemma carried_renew:
  assumes "nType tx = OPOI_RENEW_TX_TYPE"
  shows
    "opoiMinerAddress (carried tx) = opoiMinerAddress tx"
  using assms by (simp_all add: carried_def opoi_stages_def opoi_fields_def opoi_branch_def opoi_types unless_hash_def)

lemma write_member [simp]:
  "fd_write (f_i8 g0 u0) tx = ser_i8 (g0 tx)" "fd_write (f_u8 g1 u1) tx = ser_u8 (g1 tx)"
  "fd_write (f_u32 g2 u2) tx = ser_u32 (g2 tx)" "fd_write (f_u64 g3 u3) tx = ser_u64 (g3 tx)"
  "fd_write (f_amount g4 u4) tx = ser_i64 (g4 tx)" "fd_write (f_string g5 u5) tx = ser_string (g5 tx)"
  "fd_write (f_vec g6 u6) tx = ser_vec (g6 tx)" "fd_write (f_uint256 g7 u7) tx = ser_uint256 (g7 tx)"
  "fd_write (f_outpoint g8 u8) tx = ser_outpoint (g8 tx)" "fd_write (f_u32s g9 u9) tx = ser_list ser_u32 (g9 tx)"
  "fd_write (f_uint256s ga ua) tx = ser_list ser_uint256 (ga tx)"
  by (simp_all add: field_defs member_def)

text \<open>
  A transaction with nothing the format leaves out: no transparent or shielded transfers, and a
  test suite only with a verifiable task.
\<close>

definition plain_opoi :: "CTransaction \<Rightarrow> bool" where
  "plain_opoi tx \<longleftrightarrow> nVersion tx = OPOI_TX_VERSION \<and> vin tx = [] \<and> vout tx = [] \<and> vJoinSplit tx = [] \<and>
     (nType tx = OPOI_REQUEST_TX_TYPE \<and> opoiTaskType tx \<noteq> OPOI_TASK_VERIFIABLE \<longrightarrow> opoiTestSuite tx = opoiTestSuite CTransaction_init)"

text \<open>The types again, with the two phases of a response and of a challenge told apart.\<close>

lemma phase_cases:
  obtains (request) "nType tx = OPOI_REQUEST_TX_TYPE"
  | (commit) "nType tx = OPOI_RESPONSE_TX_TYPE" "opoiResponsePhase tx = 0"
  | (reveal) "nType tx = OPOI_RESPONSE_TX_TYPE" "opoiResponsePhase tx \<noteq> 0"
  | (stake) "nType tx = OPOI_STAKE_TX_TYPE" | (unstake) "nType tx = OPOI_UNSTAKE_TX_TYPE"
  | (challenge_commit) "nType tx = OPOI_CHALLENGE_TX_TYPE" "opoiChallengePhase tx = 0"
  | (challenge_reveal) "nType tx = OPOI_CHALLENGE_TX_TYPE" "opoiChallengePhase tx \<noteq> 0"
  | (verify) "nType tx = OPOI_AUDITOR_VERIFY_TX_TYPE"
  | (register) "nType tx = OPOI_MODEL_REGISTER_TX_TYPE" | (vote) "nType tx = OPOI_MODEL_VOTE_TX_TYPE"
  | (claim) "nType tx = OPOI_COORDINATOR_CLAIM_TX_TYPE" | (result) "nType tx = OPOI_SHARD_RESULT_TX_TYPE"
  | (renew) "nType tx = OPOI_RENEW_TX_TYPE"
  | (other) "nType tx \<notin> {OPOI_REQUEST_TX_TYPE, OPOI_RESPONSE_TX_TYPE, OPOI_STAKE_TX_TYPE, OPOI_UNSTAKE_TX_TYPE,
      OPOI_CHALLENGE_TX_TYPE, OPOI_AUDITOR_VERIFY_TX_TYPE, OPOI_MODEL_REGISTER_TX_TYPE, OPOI_MODEL_VOTE_TX_TYPE,
      OPOI_COORDINATOR_CLAIM_TX_TYPE, OPOI_SHARD_RESULT_TX_TYPE, OPOI_RENEW_TX_TYPE}"
  by blast

lemma hash_stream_carried:
  assumes "plain_opoi tx"
  shows "ser_tx True (carried tx) = ser_tx True tx"
proof -
  have suite: "nType tx = OPOI_REQUEST_TX_TYPE \<Longrightarrow>
      opoiTaskType tx \<noteq> OPOI_TASK_VERIFIABLE \<longrightarrow> opoiTestSuite tx = opoiTestSuite CTransaction_init"
    using assms by (simp add: plain_opoi_def)
  have "write_stages (opoi_stages True) (carried tx) = write_stages (opoi_stages True) tx"
    by (cases rule: phase_cases [of tx])
      (simp_all add: opoi_stages_def opoi_fields_def opoi_branch_def opoi_types unless_hash_def carried_always
        carried_request [OF _ suite] carried_commit carried_reveal carried_stake carried_unstake carried_challenge_commit
        carried_challenge_reveal carried_verify carried_register carried_vote carried_claim carried_result carried_renew)
  then show ?thesis using assms by (simp add: ser_tx_def carried_always stages_of_def plain_opoi_def opoi_types CSAPP_TX_VERSION_def)
qed

text \<open>The transaction with its members as they arrived, under its own hash.\<close>

definition received :: "CTransaction \<Rightarrow> CTransaction" where
  "received tx = (carried tx)\<lparr>tx_hash := tx_hash tx\<rparr>"

lemma received_select [simp]:
  "tx_hash (received tx) = tx_hash tx"
  "nVersion (received tx) = nVersion (carried tx)" "nType (received tx) = nType (carried tx)"
  "vin (received tx) = vin (carried tx)" "vout (received tx) = vout (carried tx)"
  "vJoinSplit (received tx) = vJoinSplit (carried tx)"
  "csappDeploymentId (received tx) = csappDeploymentId (carried tx)"
  "csappOwner (received tx) = csappOwner (carried tx)" "csappSpecJson (received tx) = csappSpecJson (carried tx)"
  "csappIp (received tx) = csappIp (carried tx)" "csappLockedAmount (received tx) = csappLockedAmount (carried tx)"
  "csappSig (received tx) = csappSig (carried tx)" "opoiRequestId (received tx) = opoiRequestId (carried tx)"
  "opoiRequester (received tx) = opoiRequester (carried tx)"
  "opoiMinerAddress (received tx) = opoiMinerAddress (carried tx)" "opoiModel (received tx) = opoiModel (carried tx)"
  "opoiPromptHash (received tx) = opoiPromptHash (carried tx)"
  "opoiResponseHash (received tx) = opoiResponseHash (carried tx)"
  "opoiCommitment (received tx) = opoiCommitment (carried tx)"
  "opoiMaxTokens (received tx) = opoiMaxTokens (carried tx)"
  "opoiTokenCount (received tx) = opoiTokenCount (carried tx)"
  "opoiTaskType (received tx) = opoiTaskType (carried tx)" "opoiTaskClass (received tx) = opoiTaskClass (carried tx)"
  "opoiPayment (received tx) = opoiPayment (carried tx)"
  "opoiFeePerToken (received tx) = opoiFeePerToken (carried tx)"
  "opoiSigTime (received tx) = opoiSigTime (carried tx)" "opoiSig (received tx) = opoiSig (carried tx)"
  "opoiVrfProof (received tx) = opoiVrfProof (carried tx)"
  "opoiCollateralIn (received tx) = opoiCollateralIn (carried tx)"
  "opoiChallengePhase (received tx) = opoiChallengePhase (carried tx)"
  "opoiCommitHash (received tx) = opoiCommitHash (carried tx)"
  "opoiProofData (received tx) = opoiProofData (carried tx)"
  "opoiChallengeNonce (received tx) = opoiChallengeNonce (carried tx)"
  "opoiChallengerCollateralIn (received tx) = opoiChallengerCollateralIn (carried tx)"
  "opoiResponsePhase (received tx) = opoiResponsePhase (carried tx)"
  "opoiResponseCommitHash (received tx) = opoiResponseCommitHash (carried tx)"
  "opoiResponseNonce (received tx) = opoiResponseNonce (carried tx)"
  "opoiVrfOutput (received tx) = opoiVrfOutput (carried tx)" "opoiModelId (received tx) = opoiModelId (carried tx)"
  "opoiTier (received tx) = opoiTier (carried tx)" "opoiPomRoot (received tx) = opoiPomRoot (carried tx)"
  "opoiHostedExpertIds (received tx) = opoiHostedExpertIds (carried tx)"
  "opoiEndpoint (received tx) = opoiEndpoint (carried tx)"
  "opoiPromptTokenCount (received tx) = opoiPromptTokenCount (carried tx)"
  "opoiIsCanary (received tx) = opoiIsCanary (carried tx)" "opoiTestSuite (received tx) = opoiTestSuite (carried tx)"
  "opoiAuditorAddress (received tx) = opoiAuditorAddress (carried tx)"
  "opoiAuditorVerifyResult (received tx) = opoiAuditorVerifyResult (carried tx)"
  "opoiAuditorCollateralIn (received tx) = opoiAuditorCollateralIn (carried tx)"
  "opoiModelArchType (received tx) = opoiModelArchType (carried tx)"
  "opoiModelTotalParams (received tx) = opoiModelTotalParams (carried tx)"
  "opoiModelActiveParamsPerToken (received tx) = opoiModelActiveParamsPerToken (carried tx)"
  "opoiModelNumLayers (received tx) = opoiModelNumLayers (carried tx)"
  "opoiModelNumDenseShards (received tx) = opoiModelNumDenseShards (carried tx)"
  "opoiModelNumExperts (received tx) = opoiModelNumExperts (carried tx)"
  "opoiModelTopKExperts (received tx) = opoiModelTopKExperts (carried tx)"
  "opoiModelExpertPomRoots (received tx) = opoiModelExpertPomRoots (carried tx)"
  "opoiModelMinRewardPerToken (received tx) = opoiModelMinRewardPerToken (carried tx)"
  "opoiModelTotalSizeBytes (received tx) = opoiModelTotalSizeBytes (carried tx)"
  "opoiModelVoteApprove (received tx) = opoiModelVoteApprove (carried tx)"
  "opoiShardIndex (received tx) = opoiShardIndex (carried tx)"
  by (simp_all add: received_def)


lemma received_request:
  assumes "nType tx = OPOI_REQUEST_TX_TYPE" "opoiTaskType tx \<noteq> OPOI_TASK_VERIFIABLE \<longrightarrow> opoiTestSuite tx = opoiTestSuite CTransaction_init"
  shows
    "check_request e p c (received tx) = check_request e p c tx"
    "apply_request (received tx) h c = apply_request tx h c"
    "undo_request (received tx) c = undo_request tx c"
  by (simp_all only: received_select assms carried_request [OF assms] carried_always check_request_def
      request_sigMsg_def apply_request_def undo_request_def)

lemma received_commit:
  assumes "nType tx = OPOI_RESPONSE_TX_TYPE" "opoiResponsePhase tx = 0"
  shows
    "check_response e p c (received tx) = check_response e p c tx"
    "apply_response_commit (received tx) h c = apply_response_commit tx h c"
    "undo_response_commit (received tx) c = undo_response_commit tx c"
  by (simp_all only: received_select assms carried_commit [OF assms] carried_always check_response_def
      check_response_commit_def response_commit_sigMsg_def apply_response_commit_def undo_response_commit_def simp_thms if_True)

lemma received_reveal:
  assumes "nType tx = OPOI_RESPONSE_TX_TYPE" "opoiResponsePhase tx \<noteq> 0"
  shows
    "check_response e p c (received tx) = check_response e p c tx"
    "apply_response_reveal e pp (received tx) h c = apply_response_reveal e pp tx h c"
    "undo_response_reveal (received tx) c = undo_response_reveal tx c"
  by (simp_all only: received_select assms carried_reveal [OF assms] carried_always check_response_def
      check_response_reveal_def response_preimage_def response_reveal_sigMsg_def apply_response_reveal_def
      undo_response_reveal_def if_False)

lemma received_stake:
  assumes "nType tx = OPOI_STAKE_TX_TYPE"
  shows
    "check_stake e c (received tx) = check_stake e c tx"
    "apply_stake e (received tx) h c = apply_stake e tx h c"
    "undo_stake (received tx) c = undo_stake tx c"
  by (simp_all only: received_select assms carried_stake [OF assms] carried_always check_stake_def stake_sigMsg_def
      apply_stake_def undo_stake_def)

lemma received_unstake:
  assumes "nType tx = OPOI_UNSTAKE_TX_TYPE"
  shows
    "check_unstake e c (received tx) = check_unstake e c tx"
    "apply_unstake (received tx) h c = apply_unstake tx h c"
    "undo_unstake (received tx) c = undo_unstake tx c"
  by (simp_all only: received_select assms carried_unstake [OF assms] carried_always check_unstake_def
      unstake_sigMsg_def apply_unstake_def undo_unstake_def)

lemma received_renew:
  assumes "nType tx = OPOI_RENEW_TX_TYPE"
  shows
    "check_renew e c (received tx) = check_renew e c tx"
    "apply_renew (received tx) h c = apply_renew tx h c"
    "undo_renew (received tx) c = undo_renew tx c"
  by (simp_all only: received_select assms carried_renew [OF assms] carried_always check_renew_def renew_sigMsg_def
      apply_renew_def undo_renew_def)

lemma received_challenge_commit:
  assumes "nType tx = OPOI_CHALLENGE_TX_TYPE" "opoiChallengePhase tx = 0"
  shows
    "check_challenge e c (received tx) = check_challenge e c tx"
    "apply_challenge_commit (received tx) h c = apply_challenge_commit tx h c"
    "undo_challenge_commit (received tx) c = undo_challenge_commit tx c"
  by (simp_all only: received_select assms carried_challenge_commit [OF assms] carried_always check_challenge_def
      check_challenge_commit_def challenge_commit_sigMsg_def apply_challenge_commit_def undo_challenge_commit_def
      simp_thms if_True)

lemma received_challenge_reveal:
  assumes "nType tx = OPOI_CHALLENGE_TX_TYPE" "opoiChallengePhase tx \<noteq> 0"
  shows
    "check_challenge e c (received tx) = check_challenge e c tx"
    "apply_challenge_reveal pp (received tx) c = apply_challenge_reveal pp tx c"
    "undo_challenge_reveal (received tx) c = undo_challenge_reveal tx c"
  by (simp_all only: received_select assms carried_challenge_reveal [OF assms] carried_always check_challenge_def
      check_challenge_reveal_def challenge_reveal_sigMsg_def apply_challenge_reveal_def undo_challenge_reveal_def
      if_False)

lemma received_register:
  assumes "nType tx = OPOI_MODEL_REGISTER_TX_TYPE"
  shows
    "check_model_register e c (received tx) = check_model_register e c tx"
    "apply_model_register e pp (received tx) h c = apply_model_register e pp tx h c"
    "undo_model_register (received tx) c = undo_model_register tx c"
  by (simp_all only: received_select assms carried_register [OF assms] carried_always check_model_register_def
      model_register_sigMsg_def apply_model_register_def undo_model_register_def)

lemma received_vote:
  assumes "nType tx = OPOI_MODEL_VOTE_TX_TYPE"
  shows
    "check_model_vote e c (received tx) = check_model_vote e c tx"
    "apply_model_vote (received tx) h c = apply_model_vote tx h c"
    "undo_model_vote (received tx) c = undo_model_vote tx c"
  by (simp_all only: received_select assms carried_vote [OF assms] carried_always check_model_vote_def
      model_vote_sigMsg_def apply_model_vote_def undo_model_vote_def)

lemma received_claim:
  assumes "nType tx = OPOI_COORDINATOR_CLAIM_TX_TYPE"
  shows
    "check_coordinator_claim e p c (received tx) = check_coordinator_claim e p c tx"
    "apply_coordinator_claim (received tx) h c = apply_coordinator_claim tx h c"
    "undo_coordinator_claim (received tx) c = undo_coordinator_claim tx c"
  by (simp_all only: received_select assms carried_claim [OF assms] carried_always check_coordinator_claim_def
      coordinator_claim_sigMsg_def apply_coordinator_claim_def undo_coordinator_claim_def)

lemma received_result:
  assumes "nType tx = OPOI_SHARD_RESULT_TX_TYPE"
  shows
    "check_shard_result e p c (received tx) = check_shard_result e p c tx"
    "apply_shard_result (received tx) h c = apply_shard_result tx h c"
    "undo_shard_result (received tx) c = undo_shard_result tx c"
  by (simp_all only: received_select assms carried_result [OF assms] carried_always check_shard_result_def
      check_shard_node_def shard_result_sigMsg_def apply_shard_result_def undo_shard_result_def)

lemma received_verify:
  assumes "nType tx = OPOI_AUDITOR_VERIFY_TX_TYPE"
  shows
    "check_auditor_verify e p c (received tx) = check_auditor_verify e p c tx"
    "apply_auditor_verify (received tx) h c = apply_auditor_verify tx h c"
    "undo_auditor_verify (received tx) c = undo_auditor_verify tx c"
  by (simp_all only: received_select assms carried_verify [OF assms] carried_always check_auditor_verify_def
      check_auditor_target_def auditor_verify_sigMsg_def apply_auditor_verify_def undo_auditor_verify_def)

lemma received_same:
  assumes "plain_opoi tx"
  shows "CheckOPoITransaction e p c (received tx) = CheckOPoITransaction e p c tx"
    "ProcessOPoITransaction e pp (received tx) h undo c = ProcessOPoITransaction e pp tx h undo c"
proof -
  have suite: "nType tx = OPOI_REQUEST_TX_TYPE \<Longrightarrow>
      opoiTaskType tx \<noteq> OPOI_TASK_VERIFIABLE \<longrightarrow> opoiTestSuite tx = opoiTestSuite CTransaction_init"
    using assms by (simp add: plain_opoi_def)
  note same = received_request [OF _ suite] received_commit received_reveal received_stake received_unstake
    received_renew received_challenge_commit received_challenge_reveal received_register received_vote received_claim
    received_result received_verify
  note phases = carried_commit(3) carried_reveal(3) carried_challenge_commit(4) carried_challenge_reveal(4)
  have v: "nVersion tx = OPOI_TX_VERSION" "vin tx = []" "vout tx = []" "vJoinSplit tx = []"
    using assms by (simp_all add: plain_opoi_def)
  show "CheckOPoITransaction e p c (received tx) = CheckOPoITransaction e p c tx"
    by (cases rule: phase_cases [of tx])
      (simp_all add: CheckOPoITransaction_def check_by_type_def v carried_always opoi_types same)
  show "ProcessOPoITransaction e pp (received tx) h undo c = ProcessOPoITransaction e pp tx h undo c"
    by (cases rule: phase_cases [of tx])
      (simp_all add: ProcessOPoITransaction_def ApplyOPoITransaction_def UndoOPoITransaction_def v carried_always
        opoi_types phases same)
qed

lemma arrived_received:
  assumes "plain_opoi tx" "tx_hash tx = hash256 e (ser_tx True tx)"
  shows "arrived e tx = received tx"
proof -
  have "stages_of (nVersion tx) False = opoi_stages False"
    using assms(1) by (simp add: stages_of_def plain_opoi_def opoi_types CSAPP_TX_VERSION_def)
  then have "arrived e tx = UpdateHash e (carried tx)" by (simp add: arrived_def carried_def)
  then show ?thesis by (simp add: UpdateHash_def received_def hash_stream_carried assms)
qed


definition sample_wire_tx :: CTransaction where
  "sample_wire_tx = CTransaction_init\<lparr>nVersion := OPOI_TX_VERSION, nType := OPOI_SHARD_RESULT_TX_TYPE, opoiRequestId := ''q'',
     opoiMinerAddress := ''a'', opoiResponseHash := replicate 32 1, opoiShardIndex := 1, opoiTokenCount := 5,
     opoiVrfProof := [7], opoiSig := [9]\<rparr>"

lemma sample_wire_fits: "fits sample_wire_tx" "plain_opoi sample_wire_tx"
  by (simp_all add: fits_def plain_opoi_def sample_wire_tx_def stages_of_def opoi_stages_def opoi_fields_def opoi_branch_def
    opoi_types CSAPP_TX_VERSION_def unless_hash_def field_defs member_def CTransaction_init_def uint256_zero_def MAX_SIZE_def)

theorem wire_roundtrip_witness:
  "fits sample_wire_tx \<and> nVersion sample_wire_tx = OPOI_TX_VERSION \<and>
   unser_tx sample_env (\<lambda>_ _. None) (ser_tx False sample_wire_tx @ [1]) = Some (arrived sample_env sample_wire_tx, [1])"
  using wire_roundtrip [of sample_wire_tx sample_env "\<lambda>_ _. None" "[1]"] sample_wire_fits by (simp add: plain_opoi_def)

definition sample_wire_hashed :: CTransaction where
  "sample_wire_hashed = UpdateHash sample_env sample_wire_tx"

lemma sample_wire_hash: "tx_hash sample_wire_hashed = hash256 sample_env (ser_tx True sample_wire_hashed)"
  by (simp add: sample_wire_hashed_def UpdateHash_def ser_tx_def sample_wire_tx_def stages_of_def opoi_stages_def
    opoi_fields_def opoi_branch_def opoi_types CSAPP_TX_VERSION_def unless_hash_def)

lemma sample_wire_hashed_fits: "fits sample_wire_hashed" "plain_opoi sample_wire_hashed"
  by (simp_all add: fits_def plain_opoi_def sample_wire_hashed_def UpdateHash_def sample_wire_tx_def stages_of_def
    opoi_stages_def opoi_fields_def opoi_branch_def opoi_types CSAPP_TX_VERSION_def unless_hash_def field_defs member_def
    CTransaction_init_def uint256_zero_def MAX_SIZE_def)


end
