(* ===== verification/Arith256.thy ===== *)
theory Arith256
  imports Cs_Prelude
begin

text \<open>
  The 256-bit numbers of \<^verbatim>\<open>arith_uint256.h\<close> and \<^verbatim>\<open>arith_uint256.cpp\<close>, as the code has them: eight
  32-bit limbs, the least significant first, with the carry loops of addition and of the two
  multiplications, the shifts limb by limb and the division by shifting and subtracting.

  The lemmas show that every operator computes what the type \<open>256 word\<close> computes, which is how
  the other theories write 256-bit arithmetic, and that division fails exactly for a zero divisor.
\<close>

section \<open>Limbs\<close>

type_synonym limbs = "u32 list"

definition WIDTH :: nat where "WIDTH = 8"

fun limbs_num :: "limbs \<Rightarrow> nat" where
  "limbs_num [] = 0"
| "limbs_num (p # pn) = unat p + 2 ^ 32 * limbs_num pn"

definition limbs_word :: "limbs \<Rightarrow> arith_uint256" where
  "limbs_word pn = word_of_nat (limbs_num pn)"

definition limbs_ok :: "limbs \<Rightarrow> bool" where
  "limbs_ok pn \<longleftrightarrow> length pn = WIDTH"

section \<open>The operators\<close>

definition uint_of_u64 :: "u64 \<Rightarrow> limbs" where
  "uint_of_u64 b = ucast b # ucast (drop_bit 32 b) # replicate (WIDTH - 2) 0"

definition limbs_not :: "limbs \<Rightarrow> limbs" where
  "limbs_not pn = map (\<lambda>p. NOT p) pn"

text \<open>The prefix increment stops at the first limb that does not wrap.\<close>

fun limbs_inc :: "limbs \<Rightarrow> limbs" where
  "limbs_inc [] = []"
| "limbs_inc (p # pn) = (if p + 1 = 0 then (p + 1) # limbs_inc pn else (p + 1) # pn)"

definition limbs_neg :: "limbs \<Rightarrow> limbs" where
  "limbs_neg pn = limbs_inc (limbs_not pn)"

fun add_loop :: "u64 \<Rightarrow> limbs \<Rightarrow> limbs \<Rightarrow> limbs" where
  "add_loop carry (p # pn) (b # bs) =
     (let n = carry + ucast p + ucast b in ucast n # add_loop (drop_bit 32 n) pn bs)"
| "add_loop carry pn _ = pn"

definition limbs_add :: "limbs \<Rightarrow> limbs \<Rightarrow> limbs" where
  "limbs_add a b = add_loop 0 a b"

definition limbs_sub :: "limbs \<Rightarrow> limbs \<Rightarrow> limbs" where
  "limbs_sub a b = limbs_add a (limbs_neg b)"

fun mul32_loop :: "u64 \<Rightarrow> u32 \<Rightarrow> limbs \<Rightarrow> limbs" where
  "mul32_loop carry b32 [] = []"
| "mul32_loop carry b32 (p # pn) =
     (let n = carry + ucast b32 * ucast p in ucast n # mul32_loop (drop_bit 32 n) b32 pn)"

definition limbs_mul32 :: "limbs \<Rightarrow> u32 \<Rightarrow> limbs" where
  "limbs_mul32 a b32 = mul32_loop 0 b32 a"

text \<open>
  The product: the inner loop adds a limb of \<open>a\<close> times \<open>b\<close> into the limbs from \<open>j\<close> on and stops
  at the last one; the limbs below \<open>j\<close> are finished.
\<close>

fun mul_row :: "u64 \<Rightarrow> u32 \<Rightarrow> limbs \<Rightarrow> limbs \<Rightarrow> limbs" where
  "mul_row carry a (p # pn) (b # bs) =
     (let n = carry + ucast p + ucast a * ucast b in ucast n # mul_row (drop_bit 32 n) a pn bs)"
| "mul_row carry a pn _ = pn"

fun mul_loop :: "limbs \<Rightarrow> limbs \<Rightarrow> limbs \<Rightarrow> limbs" where
  "mul_loop (a # as) b pn = (case mul_row 0 a pn b of [] \<Rightarrow> [] | p # pn' \<Rightarrow> p # mul_loop as b pn')"
| "mul_loop [] b pn = pn"

definition limbs_mul :: "limbs \<Rightarrow> limbs \<Rightarrow> limbs" where
  "limbs_mul a b = mul_loop a b (replicate WIDTH 0)"

definition or_at :: "nat \<Rightarrow> u32 \<Rightarrow> limbs \<Rightarrow> limbs" where
  "or_at i x pn = pn[i := (pn ! i) OR x]"

definition limbs_shl :: "limbs \<Rightarrow> nat \<Rightarrow> limbs" where
  "limbs_shl a shift0 =
     (let k = shift0 div 32; shift = shift0 mod 32 in
      fold (\<lambda>i pn.
        let pn = (if i + k + 1 < WIDTH \<and> shift \<noteq> 0 then or_at (i + k + 1) (drop_bit (32 - shift) (a ! i)) pn else pn)
        in if i + k < WIDTH then or_at (i + k) (push_bit shift (a ! i)) pn else pn)
      [0..<WIDTH] (replicate WIDTH 0))"

definition limbs_shr :: "limbs \<Rightarrow> nat \<Rightarrow> limbs" where
  "limbs_shr a shift0 =
     (let k = shift0 div 32; shift = shift0 mod 32 in
      fold (\<lambda>i pn.
        let pn = (if k + 1 \<le> i \<and> shift \<noteq> 0 then or_at (i - k - 1) (push_bit (32 - shift) (a ! i)) pn else pn)
        in if k \<le> i then or_at (i - k) (drop_bit shift (a ! i)) pn else pn)
      [0..<WIDTH] (replicate WIDTH 0))"

text \<open>\<^verbatim>\<open>CompareTo\<close> starts at the most significant limb; \<^verbatim>\<open>EqualTo\<close> compares with a 64-bit number.\<close>

fun compare_down :: "limbs \<Rightarrow> limbs \<Rightarrow> int" where
  "compare_down (p # ps) (b # bs) = (if p < b then -1 else if b < p then 1 else compare_down ps bs)"
| "compare_down _ _ = 0"

definition CompareTo :: "limbs \<Rightarrow> limbs \<Rightarrow> int" where
  "CompareTo a b = compare_down (rev a) (rev b)"

definition EqualTo :: "limbs \<Rightarrow> u64 \<Rightarrow> bool" where
  "EqualTo pn b \<longleftrightarrow> list_all (\<lambda>p. p = 0) (drop 2 pn) \<and> ucast (pn ! 1) = drop_bit 32 b \<and> ucast (pn ! 0) = b AND 0xffffffff"

fun top_bit :: "u32 \<Rightarrow> nat \<Rightarrow> nat" where
  "top_bit p 0 = 1"
| "top_bit p (Suc bits) = (if p AND push_bit (Suc bits) 1 \<noteq> 0 then Suc bits + 1 else top_bit p bits)"

fun bits_down :: "limbs \<Rightarrow> nat" where
  "bits_down [] = 0"
| "bits_down (p # ps) = (if p \<noteq> 0 then 32 * length ps + top_bit p 31 else bits_down ps)"

definition limbs_bits :: "limbs \<Rightarrow> nat" where
  "limbs_bits pn = bits_down (rev pn)"

definition GetLow64 :: "limbs \<Rightarrow> u64" where
  "GetLow64 pn = ucast (pn ! 0) OR push_bit 32 (ucast (pn ! 1))"

text \<open>The division: \<open>div\<close> is aligned with \<open>num\<close>, then shifted back bit by bit.\<close>

fun div_loop :: "nat \<Rightarrow> limbs \<Rightarrow> limbs \<Rightarrow> limbs \<Rightarrow> limbs" where
  "div_loop 0 num d q = q"
| "div_loop (Suc shift) num d q =
     (if 0 \<le> CompareTo num d
      then div_loop shift (limbs_sub num d) (limbs_shr d 1) (or_at (shift div 32) (push_bit (shift mod 32) 1) q)
      else div_loop shift num (limbs_shr d 1) q)"

definition limbs_div :: "limbs \<Rightarrow> limbs \<Rightarrow> limbs option" where
  "limbs_div a b =
     (let num_bits = limbs_bits a; div_bits = limbs_bits b in
      if div_bits = 0 then None
      else if num_bits < div_bits then Some (replicate WIDTH 0)
      else let shift = num_bits - div_bits
           in Some (div_loop (Suc shift) a (limbs_shl b shift) (replicate WIDTH 0)))"

section \<open>Sums and products\<close>

lemma limbs_num_bound: "limbs_num pn < 2 ^ (32 * length pn)"
proof (induction pn)
  case (Cons p pn)
  have "unat p < 2 ^ 32" using unsigned_less [of p, where ?'a = nat] by simp
  moreover from Cons have "2 ^ 32 * Suc (limbs_num pn) \<le> 2 ^ 32 * 2 ^ (32 * length pn)" by (intro mult_le_mono2) simp
  ultimately show ?case by (simp add: power_add)
qed simp

text \<open>One step of a carry loop: the low half is stored, the high half is carried on.\<close>

lemma unat_high: "unat (drop_bit 32 (n :: u64)) = unat n div 2 ^ 32"
  by (simp add: drop_bit_eq_div unat_div)

lemma carry_step:
  fixes n :: u64
  assumes "unat n = x"
  shows "unat (ucast n :: u32) + 2 ^ 32 * ((unat (drop_bit 32 n) + y) mod 2 ^ (32 * k)) = (x + 2 ^ 32 * y) mod 2 ^ (32 * Suc k)"
proof -
  have "unat (ucast n :: u32) = x mod 2 ^ 32" using assms by (simp add: unsigned_ucast_eq take_bit_eq_mod)
  moreover have "unat (drop_bit 32 n) = x div 2 ^ 32"
    using assms by (simp only: unat_high)
  moreover have "(x + 2 ^ 32 * y) mod (2 ^ 32 * 2 ^ (32 * k)) = 2 ^ 32 * ((x div 2 ^ 32 + y) mod 2 ^ (32 * k)) + x mod 2 ^ 32"
    by (simp add: mod_mult2_eq add.commute)
  ultimately show ?thesis by (simp add: power_add add.commute)
qed

lemma u32_bound: "unat (p :: u32) < 2 ^ 32"
  using unsigned_less [of p, where ?'a = nat] by simp

lemma unat_u32_u64: "unat (ucast (p :: u32) :: u64) = unat p"
  using u32_bound [of p] by (simp add: unsigned_ucast_eq take_bit_nat_eq_self)

lemma carry_bound: "unat (n :: u64) < 2 ^ 32 * m \<Longrightarrow> unat (drop_bit 32 n) < m"
  by (simp only: unat_high) (simp add: less_mult_imp_div_less mult.commute)

lemma add_loop_num:
  "length pn = length bs \<Longrightarrow> unat carry < 2 \<Longrightarrow>
   limbs_num (add_loop carry pn bs) = (unat carry + limbs_num pn + limbs_num bs) mod 2 ^ (32 * length pn)"
proof (induction pn bs arbitrary: carry rule: list_induct2')
  case (4 p pn b bs)
  let ?n = "carry + ucast p + ucast b :: u64"
  have n: "unat ?n = unat carry + unat p + unat b"
    using 4(3) u32_bound [of p] u32_bound [of b] by (simp add: unat_word_ariths unat_u32_u64)
  then have "unat (drop_bit 32 ?n) < 2"
    using 4(3) u32_bound [of p] u32_bound [of b] by (intro carry_bound) linarith
  then show ?case
    using 4 carry_step [OF n, of "limbs_num pn + limbs_num bs" "length pn"]
    by (simp add: Let_def add.assoc) (simp add: algebra_simps)
qed simp_all

text \<open>A limb product, a limb and a carry fit the 64-bit accumulator.\<close>

lemma product_fits:
  assumes "unat (carry :: u64) < 2 ^ 32"
  shows "unat (carry + ucast p + ucast a * ucast b) = unat carry + unat (p :: u32) + unat (a :: u32) * unat (b :: u32)"
    "unat carry + unat p + unat a * unat b < 2 ^ 32 * 2 ^ 32"
proof -
  have "unat a * unat b \<le> (2 ^ 32 - 1) * (2 ^ 32 - 1)"
    using u32_bound [of a] u32_bound [of b] by (intro mult_le_mono) simp_all
  then show lt: "unat carry + unat p + unat a * unat b < 2 ^ 32 * 2 ^ 32"
    using assms u32_bound [of p] by simp
  have "unat (ucast a * ucast b :: u64) = unat a * unat b"
    using lt by (simp add: unat_word_ariths unat_u32_u64)
  then show "unat (carry + ucast p + ucast a * ucast b) = unat carry + unat p + unat a * unat b"
    using lt by (simp add: unat_word_ariths unat_u32_u64)
qed

lemma mul32_loop_num:
  "unat carry < 2 ^ 32 \<Longrightarrow>
   limbs_num (mul32_loop carry b pn) = (unat carry + unat b * limbs_num pn) mod 2 ^ (32 * length pn)"
proof (induction pn arbitrary: carry)
  case (Cons p pn)
  let ?n = "carry + ucast b * ucast p :: u64"
  have n: "unat ?n = unat carry + unat b * unat p" and "unat ?n < 2 ^ 32 * 2 ^ 32"
    using product_fits [OF Cons(2), of 0 b p] by simp_all
  then have "unat (drop_bit 32 ?n) < 2 ^ 32" by (intro carry_bound)
  from Cons(1) [OF this] show ?case
    using carry_step [OF n, of "unat b * limbs_num pn" "length pn"] by (simp add: Let_def algebra_simps)
qed simp

lemma mul_row_num:
  "length pn \<le> length b \<Longrightarrow> unat carry < 2 ^ 32 \<Longrightarrow>
   limbs_num (mul_row carry a pn b) = (unat carry + limbs_num pn + unat a * limbs_num b) mod 2 ^ (32 * length pn)"
proof (induction pn arbitrary: b carry)
  case (Cons p pn)
  then obtain b0 bs where b: "b = b0 # bs" by (cases b) auto
  let ?n = "carry + ucast p + ucast a * ucast b0 :: u64"
  note n = product_fits [OF Cons(3), of p a b0]
  then have "unat (drop_bit 32 ?n) < 2 ^ 32" by (intro carry_bound) simp
  from Cons(1) [OF _ this, of bs] Cons(2) b show ?case
    using carry_step [OF n(1), of "limbs_num pn + unat a * limbs_num bs" "length pn"]
    by (simp add: Let_def algebra_simps)
qed simp

lemma length_mul_row [simp]: "length (mul_row carry a pn b) = length pn"
  by (induction carry a pn b rule: mul_row.induct) (simp_all add: Let_def)

lemma limb_mod: "p < B \<Longrightarrow> p + B * (y mod M) = (p + B * y) mod (B * M :: nat)"
  by (simp add: mod_mult2_eq)

lemma mul_loop_num:
  "length as = length pn \<Longrightarrow> length pn \<le> length b \<Longrightarrow>
   limbs_num (mul_loop as b pn) = (limbs_num pn + limbs_num as * limbs_num b) mod 2 ^ (32 * length pn)"
proof (induction as arbitrary: pn)
  case (Cons a as)
  obtain p pn' where r: "mul_row 0 a pn b = p # pn'"
    using Cons(2) length_mul_row [of 0 a pn b] by (cases "mul_row 0 a pn b") auto
  then have len: "length pn = Suc (length pn')" using length_mul_row [of 0 a pn b] by simp
  have row: "unat p + 2 ^ 32 * limbs_num pn' = (limbs_num pn + unat a * limbs_num b) mod 2 ^ (32 * length pn)"
    using mul_row_num [of pn b 0 a] Cons(3) r by simp
  let ?M = "2 ^ (32 * length pn') :: nat"
  have "limbs_num (mul_loop (a # as) b pn) = unat p + 2 ^ 32 * ((limbs_num pn' + limbs_num as * limbs_num b) mod ?M)"
    using Cons(1) [of pn'] Cons(2,3) len r by simp
  also have "\<dots> = (unat p + 2 ^ 32 * (limbs_num pn' + limbs_num as * limbs_num b)) mod (2 ^ 32 * ?M)"
    by (rule limb_mod [OF u32_bound])
  also have "\<dots> = ((unat p + 2 ^ 32 * limbs_num pn') mod (2 ^ 32 * ?M) + 2 ^ 32 * limbs_num as * limbs_num b) mod (2 ^ 32 * ?M)"
    by (simp only: mod_add_left_eq) (simp add: algebra_simps)
  also have "2 ^ 32 * ?M = 2 ^ (32 * length pn)" by (simp add: len power_add)
  also have "((unat p + 2 ^ 32 * limbs_num pn') mod 2 ^ (32 * length pn) + 2 ^ 32 * limbs_num as * limbs_num b) mod 2 ^ (32 * length pn)
      = (limbs_num pn + unat a * limbs_num b + 2 ^ 32 * limbs_num as * limbs_num b) mod 2 ^ (32 * length pn)"
    by (simp only: row mod_mod_trivial mod_add_left_eq)
  finally show ?case by (simp add: algebra_simps)
qed simp

lemma length_add_loop [simp]: "length (add_loop carry pn b) = length pn"
  by (induction carry pn b rule: add_loop.induct) (simp_all add: Let_def)

lemma length_mul32_loop [simp]: "length (mul32_loop carry b pn) = length pn"
  by (induction pn arbitrary: carry) (simp_all add: Let_def)

lemma length_mul_loop [simp]: "length as = length pn \<Longrightarrow> length (mul_loop as b pn) = length pn"
proof (induction as arbitrary: pn)
  case (Cons a as)
  then show ?case using length_mul_row [of 0 a pn b] by (cases "mul_row 0 a pn b") auto
qed simp

lemma length_limbs_inc [simp]: "length (limbs_inc pn) = length pn"
  by (induction pn) simp_all

lemma limbs_inc_num: "limbs_num (limbs_inc pn) = (limbs_num pn + 1) mod 2 ^ (32 * length pn)"
proof (induction pn)
  case (Cons p pn)
  show ?case
  proof (cases "p + 1 = 0")
    case True
    then have "p = - 1" by (simp add: eq_neg_iff_add_eq_0)
    then have "unat p = 2 ^ 32 - 1" by (simp add: unsigned_minus_1_eq_mask mask_eq_exp_minus_1)
    then have "(limbs_num (p # pn) + 1) mod (2 ^ 32 * 2 ^ (32 * length pn)) = 2 ^ 32 * ((limbs_num pn + 1) mod 2 ^ (32 * length pn))"
      by (simp add: mod_mult_mult1 [symmetric])
    then show ?thesis using True Cons by (simp add: power_add)
  next
    case False
    then have "unat (p + 1) = unat p + 1" using unatSuc [of p] by (simp add: add.commute)
    then show ?thesis
      using False limbs_num_bound [of "(p + 1) # pn"] by (simp del: limbs_num.simps) (simp add: power_add)
  qed
qed simp

lemma limbs_not_num: "limbs_num (limbs_not pn) + limbs_num pn + 1 = 2 ^ (32 * length pn)"
proof (induction pn)
  case (Cons p pn)
  have "NOT p = - 1 - p" by (simp add: not_eq_complement)
  then have "unat (NOT p) + unat p + 1 = 2 ^ 32"
    using u32_bound [of p] unat_sub [of p "- 1"] by (simp add: unsigned_minus_1_eq_mask mask_eq_exp_minus_1)
  then have "limbs_num (limbs_not (p # pn)) + limbs_num (p # pn) + 1 = 2 ^ 32 * (limbs_num (limbs_not pn) + limbs_num pn + 1)"
    by (simp add: limbs_not_def algebra_simps)
  then show ?case using Cons by (simp add: power_add)
qed (simp add: limbs_not_def)

section \<open>Bits\<close>

lemma bit_limb:
  assumes "a < 2 ^ k"
  shows "bit (a + 2 ^ k * b :: nat) n \<longleftrightarrow> (if n < k then bit a n else bit b (n - k))"
proof (cases "n < k")
  case True
  then have "(2 :: nat) ^ k = 2 ^ n * 2 ^ (k - n)" by (simp add: power_add [symmetric])
  then have "(a + 2 ^ k * b) div 2 ^ n = a div 2 ^ n + 2 ^ (k - n) * b" by (simp add: mult.assoc)
  then show ?thesis using True by (simp add: bit_iff_odd)
next
  case False
  then have "(2 :: nat) ^ n = 2 ^ k * 2 ^ (n - k)" by (simp add: power_add [symmetric])
  then have "(a + 2 ^ k * b) div 2 ^ n = b div 2 ^ (n - k)" using assms by (simp add: div_mult2_eq)
  then show ?thesis using False by (simp add: bit_iff_odd)
qed

lemma bit_limbs_num: "bit (limbs_num pn) n \<longleftrightarrow> n < 32 * length pn \<and> bit (pn ! (n div 32)) (n mod 32)"
proof (induction pn arbitrary: n)
  case (Cons p pn)
  have "bit (limbs_num (p # pn)) n \<longleftrightarrow> (if n < 32 then bit (unat p) n else bit (limbs_num pn) (n - 32))"
    unfolding limbs_num.simps by (rule bit_limb [OF u32_bound])
  also have "\<dots> \<longleftrightarrow> (if n < 32 then bit p n else n - 32 < 32 * length pn \<and> bit (pn ! ((n - 32) div 32)) ((n - 32) mod 32))"
    by (simp add: Cons bit_unsigned_iff) 
  also have "\<dots> \<longleftrightarrow> n < 32 * length (p # pn) \<and> bit ((p # pn) ! (n div 32)) (n mod 32)"
    by (auto simp: le_div_geq le_mod_geq not_less)
  finally show ?case .
qed simp

lemma unat_limbs_word: "limbs_ok pn \<Longrightarrow> unat (limbs_word pn) = limbs_num pn"
  using limbs_num_bound [of pn] by (simp add: limbs_word_def limbs_ok_def WIDTH_def unat_of_nat)

lemma bit_limbs_word: "limbs_ok pn \<Longrightarrow> bit (limbs_word pn) n \<longleftrightarrow> n < 256 \<and> bit (pn ! (n div 32)) (n mod 32)"
  using bit_limbs_num [of pn n] bit_unsigned_iff [where ?'a = nat, of "limbs_word pn" n] unat_limbs_word [of pn]
  by (simp add: limbs_ok_def WIDTH_def)

lemma word_of_limb_mod: "limbs_num pn = x mod 2 ^ 256 \<Longrightarrow> limbs_word pn = word_of_nat x"
  by (simp add: limbs_word_def word_of_nat_eq_iff take_bit_eq_mod)

lemma zero_limbs [simp]: "limbs_num (replicate k 0) = 0"
  by (induction k) simp_all

lemma limbs_word_ops:
  assumes "limbs_ok a" "limbs_ok b"
  shows "limbs_word (limbs_add a b) = limbs_word a + limbs_word b"
    "limbs_word (limbs_neg a) = - limbs_word a"
    "limbs_word (limbs_mul32 a b32) = limbs_word a * word_of_nat (unat b32)"
    "limbs_word (limbs_mul a b) = limbs_word a * limbs_word b"
proof -
  have l: "length a = 8" "length b = 8" using assms by (simp_all add: limbs_ok_def WIDTH_def)
  show "limbs_word (limbs_add a b) = limbs_word a + limbs_word b"
    using word_of_limb_mod [of "limbs_add a b" "limbs_num a + limbs_num b"] add_loop_num [of a b 0] l
    by (simp add: limbs_add_def limbs_word_def)
  have "limbs_num (limbs_neg a) = (limbs_num (limbs_not a) + 1) mod 2 ^ 256"
    using l by (simp add: limbs_neg_def limbs_inc_num limbs_not_def)
  then have "limbs_word (limbs_neg a) = word_of_nat (limbs_num (limbs_not a) + 1)" by (rule word_of_limb_mod)
  moreover have "(word_of_nat (limbs_num (limbs_not a) + 1) :: arith_uint256) + limbs_word a = word_of_nat (2 ^ 256)"
    unfolding limbs_word_def of_nat_add [symmetric] using limbs_not_num [of a] l by (simp only:) (simp add: ac_simps)
  ultimately have "limbs_word (limbs_neg a) + limbs_word a = word_of_nat (2 ^ 256)" by (simp only:)
  moreover have "word_of_nat (2 ^ 256) = (0 :: arith_uint256)" by simp
  ultimately show "limbs_word (limbs_neg a) = - limbs_word a" by (simp only: eq_neg_iff_add_eq_0)
  show "limbs_word (limbs_mul32 a b32) = limbs_word a * word_of_nat (unat b32)"
    using word_of_limb_mod [of "limbs_mul32 a b32" "unat b32 * limbs_num a"] mul32_loop_num [of 0 b32 a] l
    by (simp add: limbs_mul32_def limbs_word_def mult.commute)
  show "limbs_word (limbs_mul a b) = limbs_word a * limbs_word b"
    using word_of_limb_mod [of "limbs_mul a b" "limbs_num a * limbs_num b"] mul_loop_num [of a "replicate 8 0" b] l
    by (simp add: limbs_mul_def limbs_word_def WIDTH_def zero_limbs)
qed

lemma limbs_ok_ops:
  "limbs_ok a \<Longrightarrow> limbs_ok (limbs_add a b)" "limbs_ok a \<Longrightarrow> limbs_ok (limbs_neg a)"
  "limbs_ok a \<Longrightarrow> limbs_ok (limbs_sub a b)" "limbs_ok a \<Longrightarrow> limbs_ok (limbs_mul32 a b32)"
  "limbs_ok a \<Longrightarrow> limbs_ok (limbs_mul a b)" "limbs_ok a \<Longrightarrow> limbs_ok (or_at i x a)" "limbs_ok (replicate WIDTH 0)"
  by (simp_all add: limbs_ok_def limbs_add_def limbs_neg_def limbs_not_def limbs_sub_def limbs_mul32_def limbs_mul_def or_at_def)

lemma limbs_word_sub:
  "limbs_ok a \<Longrightarrow> limbs_ok b \<Longrightarrow> limbs_word (limbs_sub a b) = limbs_word a - limbs_word b"
  by (simp add: limbs_sub_def limbs_word_ops limbs_ok_ops)

text \<open>
  The shifts: what the loop leaves in limb \<open>m\<close>. Each limb is written by at most two steps, and the
  order of the writes does not matter.
\<close>

lemma fold_or_nth:
  assumes "length pn0 = w" "\<And>i pn. i \<in> set is \<Longrightarrow> length pn = w \<Longrightarrow> length (f i pn) = w \<and> f i pn ! m = (pn ! m) OR g i"
  shows "length (fold f is pn0) = w \<and> fold f is pn0 ! m = fold (\<lambda>i x. x OR g i) is (pn0 ! m)"
  using assms by (induction "is" arbitrary: pn0) simp_all

lemma bit_fold_or: "bit (fold (\<lambda>i x. x OR g i) is (x0 :: u32)) j \<longleftrightarrow> bit x0 j \<or> (\<exists>i\<in>set is. bit (g i) j)"
  by (induction "is" arbitrary: x0) (auto simp: bit_or_iff)

lemma or_at_nth: "m < length pn \<Longrightarrow> or_at i x pn ! m = (pn ! m) OR (if i = m then x else 0)"
  by (simp add: or_at_def nth_list_update)

lemma length_or_at [simp]: "length (or_at i x pn) = length pn"
  by (simp add: or_at_def)

lemma shl_nth:
  assumes "m < WIDTH"
  shows "length (limbs_shl a sh) = WIDTH \<and> limbs_shl a sh ! m = fold (\<lambda>i x. x OR
     ((if i + sh div 32 + 1 = m \<and> sh mod 32 \<noteq> 0 then drop_bit (32 - sh mod 32) (a ! i) else 0) OR
      (if i + sh div 32 = m then push_bit (sh mod 32) (a ! i) else 0))) [0..<WIDTH] (replicate WIDTH 0 ! m)"
  unfolding limbs_shl_def Let_def
  by (rule fold_or_nth) (use assms in \<open>auto simp: or_at_nth or.assoc\<close>)

lemma shr_nth:
  assumes "m < WIDTH"
  shows "length (limbs_shr a sh) = WIDTH \<and> limbs_shr a sh ! m = fold (\<lambda>i x. x OR
     ((if i = m + sh div 32 + 1 \<and> sh mod 32 \<noteq> 0 then push_bit (32 - sh mod 32) (a ! i) else 0) OR
      (if i = m + sh div 32 then drop_bit (sh mod 32) (a ! i) else 0))) [0..<WIDTH] (replicate WIDTH 0 ! m)"
  unfolding limbs_shr_def Let_def
  by (rule fold_or_nth) (use assms in \<open>auto simp: or_at_nth or.assoc\<close>)

lemma bit_if_0: "bit (if c then x else (0 :: u32)) j \<longleftrightarrow> c \<and> bit x j"
  by simp

lemma bit_shl_limb:
  assumes "m < WIDTH" "j < 32"
  shows "bit (limbs_shl a sh ! m) j \<longleftrightarrow> (\<exists>i<WIDTH. (i + sh div 32 + 1 = m \<and> sh mod 32 \<noteq> 0 \<and> bit (a ! i) (32 - sh mod 32 + j)) \<or>
      (i + sh div 32 = m \<and> sh mod 32 \<le> j \<and> bit (a ! i) (j - sh mod 32)))"
  unfolding conjunct2 [OF shl_nth [OF assms(1), of a sh]] bit_fold_or bit_or_iff bit_if_0 bit_drop_bit_eq bit_push_bit_iff
  using assms by (simp add: Bex_def)

lemma bit_shr_limb:
  assumes "m < WIDTH" "j < 32"
  shows "bit (limbs_shr a sh ! m) j \<longleftrightarrow> (\<exists>i<WIDTH. (i = m + sh div 32 + 1 \<and> sh mod 32 \<noteq> 0 \<and> 32 - sh mod 32 \<le> j \<and> bit (a ! i) (j - (32 - sh mod 32))) \<or>
      (i = m + sh div 32 \<and> bit (a ! i) (sh mod 32 + j)))"
  unfolding conjunct2 [OF shr_nth [OF assms(1), of a sh]] bit_fold_or bit_or_iff bit_if_0 bit_drop_bit_eq bit_push_bit_iff
  using assms by (simp add: Bex_def)

lemma no_high_bit: "32 \<le> j \<Longrightarrow> \<not> bit (x :: u32) j"
  using bit_imp_le_length [of x j] by auto

lemma bit_limbs_at: "limbs_ok a \<Longrightarrow> j < 32 \<Longrightarrow> bit (limbs_word a) (32 * i + j) \<longleftrightarrow> i < WIDTH \<and> bit (a ! i) j"
  using bit_limbs_word [of a "32 * i + j"] by (auto simp: WIDTH_def)

lemma bit_shl:
  assumes "m < WIDTH" "j < 32" "limbs_ok a"
  shows "bit (limbs_shl a sh ! m) j \<longleftrightarrow> sh \<le> 32 * m + j \<and> bit (limbs_word a) (32 * m + j - sh)"
proof -
  obtain k s where ks: "sh = 32 * k + s" "s < 32" by (metis mod_less_divisor mult_div_mod_eq zero_less_numeral)
  then have dm: "sh div 32 = k" "sh mod 32 = s" by simp_all
  show ?thesis
  proof (cases "s \<le> j")
    case True
    have le: "sh \<le> 32 * m + j \<longleftrightarrow> k \<le> m" using True ks assms(2) by linarith
    have "32 * m + j - sh = 32 * (m - k) + (j - s)" if "k \<le> m" using that True ks by (simp add: diff_mult_distrib2)
    moreover have "bit (limbs_shl a sh ! m) j \<longleftrightarrow> k \<le> m \<and> bit (a ! (m - k)) (j - s)"
      unfolding bit_shl_limb [OF assms(1,2)] dm using True ks assms(1)
      by (auto simp: no_high_bit intro: exI [of _ "m - k"])
    ultimately show ?thesis using le bit_limbs_at [OF assms(3), of "j - s" "m - k"] assms(1,2) by auto
  next
    case False
    have le: "sh \<le> 32 * m + j \<longleftrightarrow> k + 1 \<le> m" using False ks assms(2) by linarith
    have "32 * m + j - sh = 32 * (m - k - 1) + (32 - s + j)" if "k + 1 \<le> m" using that False ks by (simp add: diff_mult_distrib2)
    moreover have "bit (limbs_shl a sh ! m) j \<longleftrightarrow> k + 1 \<le> m \<and> bit (a ! (m - k - 1)) (32 - s + j)"
      unfolding bit_shl_limb [OF assms(1,2)] dm using False ks assms(1)
      by (auto intro: exI [of _ "m - k - 1"])
    ultimately show ?thesis using le False bit_limbs_at [OF assms(3), of "32 - s + j" "m - k - 1"] assms(1,2) by auto
  qed
qed

lemma bit_shr:
  assumes "m < WIDTH" "j < 32" "limbs_ok a"
  shows "bit (limbs_shr a sh ! m) j \<longleftrightarrow> bit (limbs_word a) (32 * m + j + sh)"
proof -
  obtain k s where ks: "sh = 32 * k + s" "s < 32" by (metis mod_less_divisor mult_div_mod_eq zero_less_numeral)
  then have dm: "sh div 32 = k" "sh mod 32 = s" by simp_all
  show ?thesis
  proof (cases "s + j < 32")
    case True
    have "32 * m + j + sh = 32 * (m + k) + (s + j)" using ks by simp
    moreover have "bit (limbs_shr a sh ! m) j \<longleftrightarrow> m + k < WIDTH \<and> bit (a ! (m + k)) (s + j)"
      unfolding bit_shr_limb [OF assms(1,2)] dm using True by auto
    ultimately show ?thesis using bit_limbs_at [OF assms(3) True, of "m + k"] by (simp only:)
  next
    case False
    have "32 * m + j + sh = 32 * (m + k + 1) + (j - (32 - s))" using ks False by simp
    moreover have "bit (limbs_shr a sh ! m) j \<longleftrightarrow> m + k + 1 < WIDTH \<and> bit (a ! (m + k + 1)) (j - (32 - s))"
      unfolding bit_shr_limb [OF assms(1,2)] dm using False ks assms(2) by (auto simp: no_high_bit)
    moreover have "j - (32 - s) < 32" using assms(2) by simp
    ultimately show ?thesis using bit_limbs_at [OF assms(3), of "j - (32 - s)" "m + k + 1"] by (simp only:)
  qed
qed

lemma limbs_ok_shift: "limbs_ok (limbs_shl a sh)" "limbs_ok (limbs_shr a sh)"
  using shl_nth [of 0] shr_nth [of 0] by (simp_all add: limbs_ok_def WIDTH_def)

lemma limbs_word_shift:
  assumes "limbs_ok a"
  shows "limbs_word (limbs_shl a sh) = push_bit sh (limbs_word a)" "limbs_word (limbs_shr a sh) = drop_bit sh (limbs_word a)"
proof -
  have m: "n div 32 < WIDTH" "n mod 32 < 32" "32 * (n div 32) + n mod 32 = n" if "n < 256" for n
    using that by (auto simp: WIDTH_def)
  show "limbs_word (limbs_shl a sh) = push_bit sh (limbs_word a)"
    by (rule bit_word_eqI) (simp add: bit_limbs_word limbs_ok_shift bit_shl m assms bit_push_bit_iff)
  show "limbs_word (limbs_shr a sh) = drop_bit sh (limbs_word a)"
    by (rule bit_word_eqI) (simp add: bit_limbs_word limbs_ok_shift bit_shr m assms bit_drop_bit_eq add.commute)
qed

section \<open>Comparisons and the number of bits\<close>

lemma limbs_num_snoc: "limbs_num (pn @ [p]) = limbs_num pn + 2 ^ (32 * length pn) * unat p"
  by (induction pn) (simp_all add: power_add algebra_simps)

lemma compare_down_num:
  "length ps = length bs \<Longrightarrow> compare_down ps bs =
     (if limbs_num (rev ps) < limbs_num (rev bs) then - 1 else if limbs_num (rev bs) < limbs_num (rev ps) then 1 else 0)"
proof (induction ps bs rule: list_induct2)
  case (Cons p ps b bs)
  let ?B = "2 ^ (32 * length bs) :: nat"
  have lt: "limbs_num (rev ps) < ?B" "limbs_num (rev bs) < ?B"
    using limbs_num_bound [of "rev ps"] limbs_num_bound [of "rev bs"] Cons(1) by simp_all
  have less: "x + ?B * unat p < y + ?B * unat b" if "p < b" "x < ?B" for x y
  proof -
    have "Suc (unat p) \<le> unat b" using that(1) by (simp add: word_less_nat_alt Suc_leI)
    then have "?B * Suc (unat p) \<le> ?B * unat b" by (rule mult_le_mono2)
    then show ?thesis using that(2) by simp
  qed
  have more: "y + ?B * unat b < x + ?B * unat p" if "b < p" "y < ?B" for x y
  proof -
    have "Suc (unat b) \<le> unat p" using that(1) by (simp add: word_less_nat_alt Suc_leI)
    then have "?B * Suc (unat b) \<le> ?B * unat p" by (rule mult_le_mono2)
    then show ?thesis using that(2) by simp
  qed
  consider "p < b" | "b < p" | "p = b" by (meson linorder_neqE)
  then show ?case
  proof cases
    case 1
    then show ?thesis using less [OF 1 lt(1)] Cons(1) by (simp add: limbs_num_snoc)
  next
    case 2
    then show ?thesis using more [OF 2 lt(2), of "limbs_num (rev ps)"] Cons(1) by (simp add: limbs_num_snoc)
  next
    case 3
    then show ?thesis using Cons by (simp add: limbs_num_snoc)
  qed
qed simp

lemma CompareTo_word:
  "limbs_ok a \<Longrightarrow> limbs_ok b \<Longrightarrow>
   CompareTo a b = (if limbs_word a < limbs_word b then - 1 else if limbs_word b < limbs_word a then 1 else 0)"
  using compare_down_num [of "rev a" "rev b"] unat_limbs_word [of a] unat_limbs_word [of b]
  by (simp add: CompareTo_def word_less_nat_alt limbs_ok_def)

lemma bit_size_unique: "2 ^ k \<le> n \<Longrightarrow> n < 2 ^ Suc k \<Longrightarrow> bit_size n = Suc k"
proof -
  assume le: "2 ^ k \<le> n" and "n < 2 ^ Suc k"
  then have "bit_size n \<le> Suc k" by (intro bit_size_le)
  moreover have "(2 :: nat) ^ k < 2 ^ bit_size n" using le bit_size_lt [of n] by (rule le_less_trans)
  ultimately show ?thesis by simp
qed

lemma top_bit_set:
  assumes "unat (p :: u32) < 2 ^ Suc k"
  shows "p AND push_bit k 1 \<noteq> 0 \<longleftrightarrow> 2 ^ k \<le> unat p"
proof -
  have "p AND push_bit k 1 \<noteq> 0 \<longleftrightarrow> bit (unat p) k"
    by (simp add: push_bit_of_1 and_exp_eq_0_iff_not_bit bit_unsigned_iff)
  also have "\<dots> \<longleftrightarrow> 2 ^ k \<le> unat p"
  proof -
    have "unat p div 2 ^ k < 2" using assms by (simp add: less_mult_imp_div_less)
    then show ?thesis by (auto simp: bit_iff_odd less_2_cases_iff div_eq_0_iff intro: leI)
  qed
  finally show ?thesis .
qed

lemma top_bit_size: "p \<noteq> 0 \<Longrightarrow> unat p < 2 ^ Suc k \<Longrightarrow> top_bit p k = bit_size (unat p)"
proof (induction k)
  case 0
  then have "unat p = 1" by (metis One_nat_def less_2_cases power_one_right unat_eq_zero)
  then show ?case by (simp add: bit_size_rec)
next
  case (Suc k)
  then show ?case
    using top_bit_set [OF Suc(3)] bit_size_unique [of "Suc k" "unat p"] by (simp add: not_le)
qed

lemma bits_down_size: "bits_down ps = bit_size (limbs_num (rev ps))"
proof (induction ps)
  case (Cons p ps)
  show ?case
  proof (cases "p = 0")
    case True
    then show ?thesis using Cons by (simp add: limbs_num_snoc)
  next
    case False
    let ?B = "2 ^ (32 * length ps) :: nat" and ?n = "bit_size (unat p)" and ?r = "limbs_num (rev ps)"
    have pos: "0 < unat p" using False by (simp add: unat_gt_0)
    then obtain k where k: "?n = Suc k" by (metis bit_size_rec)
    have r: "?r < ?B" using limbs_num_bound [of "rev ps"] by simp
    have "?B * 2 ^ k \<le> ?B * unat p" using bit_size_ge [OF pos] k by (intro mult_le_mono2) simp
    then have lo: "2 ^ (32 * length ps + k) \<le> ?r + ?B * unat p" unfolding power_add by linarith
    have "?B * Suc (unat p) \<le> ?B * 2 ^ Suc k" using bit_size_lt [of "unat p"] k by (intro mult_le_mono2) simp
    then have "?r + ?B * unat p < 2 ^ Suc (32 * length ps + k)" using r by (simp add: power_add)
    from bit_size_unique [OF lo this] show ?thesis
      using False k top_bit_size [OF False, of 31] u32_bound [of p] by (simp add: limbs_num_snoc)
  qed
qed simp

lemma limbs_bits_size: "limbs_ok pn \<Longrightarrow> limbs_bits pn = bit_size (unat (limbs_word pn))"
  by (simp add: limbs_bits_def bits_down_size unat_limbs_word)

section \<open>Division\<close>

text \<open>Setting a bit below all bits that are set adds its value.\<close>

lemma or_at_word:
  assumes "limbs_ok q" "shift < 256"
  shows "limbs_word (or_at (shift div 32) (push_bit (shift mod 32) 1) q) = limbs_word q OR push_bit shift 1"
proof (rule bit_word_eqI)
  fix n assume n: "n < LENGTH(256)"
  then have m: "n div 32 < WIDTH" "n mod 32 < 32" by (simp_all add: WIDTH_def)
  have "n = shift \<longleftrightarrow> shift div 32 = n div 32 \<and> n mod 32 = shift mod 32" by (metis mult_div_mod_eq)
  then show "bit (limbs_word (or_at (shift div 32) (push_bit (shift mod 32) 1) q)) n = bit (limbs_word q OR push_bit shift 1) n"
    using m n assms
    by (auto simp: bit_limbs_word limbs_ok_ops or_at_nth limbs_ok_def bit_or_iff bit_exp_iff)
qed

lemma unat_exp: "k < 256 \<Longrightarrow> unat (2 ^ k :: arith_uint256) = 2 ^ k"
proof -
  assume "k < 256"
  then have "(2 :: nat) ^ k < 2 ^ 256" by (rule power_strict_increasing) simp
  then show ?thesis using unat_of_nat [of "2 ^ k", where ?'a = 256] by simp
qed

lemma unat_push_bit: "unat (w :: arith_uint256) * 2 ^ k < 2 ^ 256 \<Longrightarrow> 0 < unat w \<Longrightarrow> unat (push_bit k w) = unat w * 2 ^ k"
proof -
  assume lt: "unat w * 2 ^ k < 2 ^ 256" and pos: "0 < unat w"
  then have "2 ^ k < (2 :: nat) ^ 256" by (metis le_less_trans mult.commute mult_le_mono2 nat_mult_1_right Suc_leI One_nat_def)
  then have "k < 256" by (simp only: power_strict_increasing_iff)
  then have "unat (2 ^ k :: arith_uint256) = 2 ^ k" by (rule unat_exp)
  then show ?thesis using lt by (simp add: push_bit_eq_mult unat_word_ariths)
qed

lemma unat_set_bit:
  assumes "unat (q :: arith_uint256) mod 2 ^ Suc s = 0" "s < 256"
  shows "unat (q OR push_bit s 1) = unat q + 2 ^ s"
proof -
  obtain m where m: "unat q = 2 ^ Suc s * m" using assms(1) by (metis mod_0_imp_dvd dvdE)
  have "\<not> bit (unat q) s" by (simp add: m bit_iff_odd)
  then have "\<not> bit q s" by (simp add: bit_unsigned_iff)
  then have "q OR push_bit s 1 = q + push_bit s 1"
    by (intro disjunctive_add [symmetric]) (auto simp: bit_exp_iff)
  moreover have "unat (push_bit s 1 :: arith_uint256) = 2 ^ s" using assms(2) by (simp add: unat_exp)
  moreover have "unat q + 2 ^ s < 2 ^ 256"
  proof -
    have "unat q < 2 ^ Suc s * 2 ^ (255 - s)"
      using unsigned_less [of q, where ?'a = nat] assms(2) by (simp add: power_add [symmetric] flip: power_Suc)
    then have "m < 2 ^ (255 - s)" using m by simp
    then have "2 ^ Suc s * Suc m \<le> 2 ^ Suc s * 2 ^ (255 - s)" by (intro mult_le_mono2) simp
    also have "\<dots> = (2 :: nat) ^ 256" using assms(2) by (simp add: power_add [symmetric] flip: power_Suc)
    finally have "2 ^ Suc s * Suc m \<le> (2 :: nat) ^ 256" .
    moreover have "2 ^ Suc s * Suc m = unat q + 2 ^ s + 2 ^ s" using m by simp
    moreover have "(0 :: nat) < 2 ^ s" by simp
    ultimately show ?thesis by linarith
  qed
  ultimately show ?thesis by (simp add: unat_word_ariths)
qed

lemma CompareTo_ge: "limbs_ok a \<Longrightarrow> limbs_ok b \<Longrightarrow> 0 \<le> CompareTo a b \<longleftrightarrow> unat (limbs_word b) \<le> unat (limbs_word a)"
  by (simp add: CompareTo_word word_less_nat_alt)

text \<open>
  The loop with \<open>c\<close> steps to go: the divisor is shifted by \<open>c - 1\<close>, what is left of the number is
  below the divisor shifted by \<open>c\<close>, and the quotient has no bit below \<open>c\<close> yet.
\<close>

lemma div_loop_quotient:
  assumes "limbs_ok num" "limbs_ok d" "limbs_ok q" "0 < D" "unat (limbs_word num) < D * 2 ^ c"
    "unat (limbs_word q) mod 2 ^ c = 0" "0 < c \<longrightarrow> unat (limbs_word d) = D * 2 ^ (c - 1)"
  shows "limbs_ok (div_loop c num d q) \<and>
    unat (limbs_word (div_loop c num d q)) = unat (limbs_word q) + unat (limbs_word num) div D"
  using assms
proof (induction c arbitrary: num d q)
  case (Suc s)
  let ?n = "unat (limbs_word num)" and ?q = "unat (limbs_word q)"
  have d: "unat (limbs_word d) = D * 2 ^ s" using Suc(8) by simp
  then have "D * 2 ^ s < 2 ^ 256" using unsigned_less [of "limbs_word d", where ?'a = nat] by simp
  then have s: "s < 256" using Suc(5) le_less_trans [of "2 ^ s" "D * 2 ^ s" "2 ^ 256"] by (simp only: power_strict_increasing_iff) simp
  have half: "0 < s \<longrightarrow> unat (limbs_word (limbs_shr d 1)) = D * 2 ^ (s - 1)"
    using d Suc(3) by (cases s) (simp_all add: limbs_word_shift drop_bit_eq_div unat_div)
  have mod: "?q mod 2 ^ s = 0" using Suc(7) by (metis mod_0_imp_dvd dvd_trans le_imp_power_dvd lessI less_imp_le dvd_imp_mod_0)
  show ?case
  proof (cases "D * 2 ^ s \<le> ?n")
    case True
    let ?num = "limbs_sub num d" and ?q' = "or_at (s div 32) (push_bit (s mod 32) 1) q"
    have n: "unat (limbs_word ?num) = ?n - D * 2 ^ s"
      using True d Suc(2,3) by (simp add: limbs_word_sub unat_sub word_le_nat_alt)
    have q: "unat (limbs_word ?q') = ?q + 2 ^ s"
      using Suc(4,7) s by (simp only: or_at_word unat_set_bit)
    have "unat (limbs_word ?num) < D * 2 ^ s" using n Suc(6) True by simp
    moreover have "unat (limbs_word ?q') mod 2 ^ s = 0" unfolding q using mod by simp
    ultimately have "limbs_ok (div_loop s ?num (limbs_shr d 1) ?q') \<and>
        unat (limbs_word (div_loop s ?num (limbs_shr d 1) ?q')) = unat (limbs_word ?q') + unat (limbs_word ?num) div D"
      by (rule Suc(1) [OF limbs_ok_ops(3) [OF Suc(2)] limbs_ok_shift(2) limbs_ok_ops(6) [OF Suc(4)] Suc(5) _ _ half])
    moreover have "2 ^ s + (?n - D * 2 ^ s) div D = ?n div D"
      using True Suc(5) div_add_self1
      by (metis le_add_diff_inverse div_mult_self2 neq0_conv mult.commute add.commute)
    ultimately show ?thesis using True d Suc(2,3) by (simp only: div_loop.simps CompareTo_ge n q if_True) simp
  next
    case False
    then show ?thesis using Suc half mod d by (simp add: CompareTo_ge limbs_ok_shift)
  qed
qed simp

lemma limbs_div_word:
  assumes "limbs_ok a" "limbs_ok b"
  shows "limbs_div a b = None \<longleftrightarrow> limbs_word b = 0"
    "limbs_word b \<noteq> 0 \<Longrightarrow> \<exists>q. limbs_div a b = Some q \<and> limbs_ok q \<and> limbs_word q = limbs_word a div limbs_word b"
proof -
  let ?A = "unat (limbs_word a)" and ?B = "unat (limbs_word b)"
  have bits: "limbs_bits a = bit_size ?A" "limbs_bits b = bit_size ?B" using assms by (simp_all add: limbs_bits_size)
  have z: "bit_size ?B = 0 \<longleftrightarrow> limbs_word b = 0"
    using bit_size_lt [of ?B] by (auto simp: unat_eq_zero)
  then show "limbs_div a b = None \<longleftrightarrow> limbs_word b = 0" by (simp add: limbs_div_def Let_def bits)
  assume nz: "limbs_word b \<noteq> 0"
  then have pos: "0 < ?B" by (simp add: unat_gt_0)
  then obtain k where k: "bit_size ?B = Suc k" using z nz not0_implies_Suc by blast
  have lo: "2 ^ k \<le> ?B" using bit_size_ge [OF pos] k by simp
  have eq: "limbs_word q = limbs_word a div limbs_word b" if "unat (limbs_word q) = ?A div ?B" for q
    using that by (simp add: word_unat_eq_iff unat_div)
  show "\<exists>q. limbs_div a b = Some q \<and> limbs_ok q \<and> limbs_word q = limbs_word a div limbs_word b"
  proof (cases "bit_size ?A < bit_size ?B")
    case True
    then have "(2 :: nat) ^ bit_size ?A \<le> 2 ^ k" using k by (intro power_increasing) simp_all
    then have "?A < 2 ^ k" using bit_size_lt [of ?A] by (rule less_le_trans [rotated])
    then have "?A div ?B = 0" using lo by simp
    then have "limbs_word (replicate WIDTH 0) = limbs_word a div limbs_word b"
      by (intro eq) (simp add: unat_limbs_word limbs_ok_ops)
    then show ?thesis using True z nz by (simp add: limbs_div_def Let_def bits limbs_ok_ops)
  next
    case False
    let ?s = "bit_size ?A - bit_size ?B"
    have top: "bit_size ?A \<le> 256" using unsigned_less [of "limbs_word a", where ?'a = nat] by (intro bit_size_le) simp
    have "?B * 2 ^ ?s < 2 ^ bit_size ?B * 2 ^ ?s" using bit_size_lt [of ?B] by simp
    also have "\<dots> = 2 ^ bit_size ?A" using False by (simp add: power_add [symmetric])
    also have "\<dots> \<le> 2 ^ 256" by (rule power_increasing [OF top]) simp
    finally have d: "unat (limbs_word (limbs_shl b ?s)) = ?B * 2 ^ ?s"
      using pos assms(2) by (simp only: limbs_word_shift unat_push_bit)
    have "?A < 2 ^ bit_size ?A" by (rule bit_size_lt)
    also have "\<dots> = 2 ^ k * 2 ^ Suc ?s" using False k by (simp add: power_add [symmetric] flip: power_Suc)
    also have "\<dots> \<le> ?B * 2 ^ Suc ?s" using lo by (rule mult_le_mono1)
    finally have lt: "?A < ?B * 2 ^ Suc ?s" .
    have zero: "unat (limbs_word (replicate WIDTH 0)) = 0" by (simp add: unat_limbs_word limbs_ok_ops)
    have "limbs_ok (div_loop (Suc ?s) a (limbs_shl b ?s) (replicate WIDTH 0)) \<and>
        unat (limbs_word (div_loop (Suc ?s) a (limbs_shl b ?s) (replicate WIDTH 0))) = unat (limbs_word (replicate WIDTH 0)) + ?A div ?B"
      by (rule div_loop_quotient [OF assms(1) limbs_ok_shift(1) limbs_ok_ops(7) pos lt]) (simp_all add: zero d)
    then show ?thesis using False z nz eq zero by (simp add: limbs_div_def Let_def bits del: div_loop.simps)
  qed
qed

section \<open>64-bit numbers\<close>

lemma limbs_split:
  assumes "limbs_ok pn"
  obtains p0 p1 rest where "pn = p0 # p1 # rest" "limbs_num pn = unat p0 + 2 ^ 32 * (unat p1 + 2 ^ 32 * limbs_num rest)"
proof -
  obtain p0 p1 rest where "pn = p0 # p1 # rest" using assms by (auto simp: limbs_ok_def WIDTH_def length_Suc_conv numeral_eq_Suc)
  then show ?thesis using that by simp
qed

lemma limbs_num_0: "limbs_num pn = 0 \<longleftrightarrow> list_all (\<lambda>p. p = 0) pn"
  by (induction pn) (simp_all add: unat_eq_zero)

lemma low_half: "unat (b AND 0xffffffff :: u64) = unat b mod 2 ^ 32"
proof -
  have "b AND 0xffffffff = take_bit 32 b" by (simp add: take_bit_eq_mask mask_eq_exp_minus_1)
  then show ?thesis by (simp add: take_bit_eq_mod unat_mod)
qed

lemma EqualTo_word:
  assumes "limbs_ok pn"
  shows "EqualTo pn b \<longleftrightarrow> limbs_word pn = word_of_nat (unat b)"
proof -
  obtain p0 p1 rest where pn: "pn = p0 # p1 # rest"
    and num: "limbs_num pn = unat p0 + 2 ^ 32 * (unat p1 + 2 ^ 32 * limbs_num rest)"
    using assms by (rule limbs_split)
  let ?b = "unat b" and ?R = "limbs_num rest"
  have b: "?b < 2 ^ 32 * 2 ^ 32" using unsigned_less [of b, where ?'a = nat] by simp
  have "limbs_word pn = word_of_nat ?b \<longleftrightarrow> unat (limbs_word pn) = unat (word_of_nat ?b :: arith_uint256)"
    by (rule word_unat_eq_iff)
  also have "\<dots> \<longleftrightarrow> unat p0 + 2 ^ 32 * (unat p1 + 2 ^ 32 * ?R) = ?b"
    using b unat_of_nat [of ?b, where ?'a = 256] by (simp add: unat_limbs_word assms num)
  also have "\<dots> \<longleftrightarrow> ?R = 0 \<and> unat p1 = ?b div 2 ^ 32 \<and> unat p0 = ?b mod 2 ^ 32"
  proof
    assume eq: "unat p0 + 2 ^ 32 * (unat p1 + 2 ^ 32 * ?R) = ?b"
    have "(unat p0 + 2 ^ 32 * y) div 2 ^ 32 = y \<and> (unat p0 + 2 ^ 32 * y) mod 2 ^ 32 = unat p0" for y
      using u32_bound [of p0] by simp
    then have hi: "unat p1 + 2 ^ 32 * ?R = ?b div 2 ^ 32" and lo: "unat p0 = ?b mod 2 ^ 32"
      unfolding eq [symmetric] by metis+
    moreover have "?R = 0" using hi b less_mult_imp_div_less [of ?b "2 ^ 32" "2 ^ 32"] by (cases ?R) simp_all
    ultimately show "?R = 0 \<and> unat p1 = ?b div 2 ^ 32 \<and> unat p0 = ?b mod 2 ^ 32" by simp
  next
    assume "?R = 0 \<and> unat p1 = ?b div 2 ^ 32 \<and> unat p0 = ?b mod 2 ^ 32"
    then show "unat p0 + 2 ^ 32 * (unat p1 + 2 ^ 32 * ?R) = ?b" by (simp only: mult_0_right add_0_right mod_mult_div_eq)
  qed
  also have "\<dots> \<longleftrightarrow> EqualTo pn b"
    unfolding EqualTo_def pn word_unat_eq_iff unat_u32_u64 unat_high low_half nth_Cons_0 One_nat_def nth_Cons_Suc
    by (simp add: limbs_num_0 unat_eq_zero)
  finally show ?thesis by simp
qed

lemma GetLow64_word:
  assumes "limbs_ok pn"
  shows "GetLow64 pn = ucast (limbs_word pn)"
proof (rule bit_word_eqI)
  fix n assume n: "n < LENGTH(64)"
  have "n div 32 = (if n < 32 then 0 else 1)" "n mod 32 = (if n < 32 then n else n - 32)" using n by (auto simp: mod_if)
  then show "bit (GetLow64 pn) n = bit (ucast (limbs_word pn) :: u64) n"
    using n assms by (auto simp: GetLow64_def bit_or_iff bit_push_bit_iff bit_unsigned_iff bit_limbs_word no_high_bit)
qed

section \<open>The contract\<close>

text \<open>
  C20. The limb-by-limb operators of \<^verbatim>\<open>base_uint<256>\<close> compute exactly what 256-bit machine arithmetic
  does: sums, differences and both products wrap modulo \<open>2 ^ 256\<close>, the shifts lose the bits that
  leave the number, the comparisons order by value, and \<^verbatim>\<open>bits\<close> is the position of the highest bit.
\<close>

theorem arith_uint256_refines:
  assumes "limbs_ok a" "limbs_ok b"
  shows "limbs_word (limbs_add a b) = limbs_word a + limbs_word b \<and>
    limbs_word (limbs_sub a b) = limbs_word a - limbs_word b \<and>
    limbs_word (limbs_mul32 a b32) = limbs_word a * word_of_nat (unat b32) \<and>
    limbs_word (limbs_mul a b) = limbs_word a * limbs_word b \<and>
    limbs_word (limbs_shl a k) = push_bit k (limbs_word a) \<and>
    limbs_word (limbs_shr a k) = drop_bit k (limbs_word a) \<and>
    CompareTo a b = (if limbs_word a < limbs_word b then - 1 else if limbs_word b < limbs_word a then 1 else 0) \<and>
    limbs_bits a = bit_size (unat (limbs_word a)) \<and>
    (EqualTo a x \<longleftrightarrow> limbs_word a = word_of_nat (unat x)) \<and> GetLow64 a = ucast (limbs_word a)"
  using assms
  by (simp add: limbs_word_ops limbs_word_sub limbs_word_shift CompareTo_word limbs_bits_size EqualTo_word GetLow64_word)

theorem arith_uint256_refines_witness:
  "limbs_ok (5 # replicate 7 0) \<and> limbs_ok (7 # replicate 7 0) \<and>
   limbs_word (limbs_sub (5 # replicate 7 0) (7 # replicate 7 0)) = - 2"
proof -
  let ?a = "5 # replicate 7 0 :: limbs" and ?b = "7 # replicate 7 0 :: limbs"
  have ok: "limbs_ok ?a" "limbs_ok ?b" by (simp_all add: limbs_ok_def WIDTH_def)
  have "limbs_word ?a = 5" "limbs_word ?b = 7" by (simp_all add: limbs_word_def)
  then show ?thesis using arith_uint256_refines [OF ok, of 0 0 0] ok by simp
qed

text \<open>
  C19. Division by shifting and subtracting: it throws exactly when the divisor is zero, and
  otherwise the loop ends with the quotient rounded down.
\<close>

theorem division_correct:
  assumes "limbs_ok a" "limbs_ok b"
  shows "limbs_div a b = None \<and> limbs_word b = 0 \<or>
    (\<exists>q. limbs_div a b = Some q \<and> limbs_ok q \<and> limbs_word b \<noteq> 0 \<and>
      unat (limbs_word q) = unat (limbs_word a) div unat (limbs_word b))"
  using limbs_div_word [OF assms] by (cases "limbs_word b = 0") (auto simp: unat_div)

theorem division_correct_witness:
  "\<exists>q. limbs_div (200 # replicate 7 0) (7 # replicate 7 0) = Some q \<and> unat (limbs_word q) = 28"
proof -
  have "limbs_ok (200 # replicate 7 0)" "limbs_ok (7 # replicate 7 0)" by (simp_all add: limbs_ok_def WIDTH_def)
  from division_correct [OF this] show ?thesis by (auto simp: limbs_word_def)
qed

end
