(* ===== verification/Pow.thy ===== *)
theory Pow
  imports Arith256
begin

text \<open>
  Proof of work (\<^verbatim>\<open>pow.cpp\<close> and the compact form of targets in \<^verbatim>\<open>arith_uint256.cpp\<close>): the
  target a block must meet, the three retargeting rules, the check of a header against its
  target and the work a block adds to its chain.

  A block index is the list of the blocks of its chain, the newest first, so that \<^verbatim>\<open>pprev\<close> is the
  tail and the height is one less than the length. 256-bit numbers are words; that the limbs of
  the code compute the same is shown with them. An assertion or a division that fails is \<open>None\<close>.
\<close>

section \<open>Compact targets\<close>

definition SetCompact :: "u32 \<Rightarrow> arith_uint256 \<times> bool \<times> bool" where
  "SetCompact nCompact =
     (let nSize = unat (drop_bit 24 nCompact);
          nWord = (if nSize \<le> 3 then drop_bit (8 * (3 - nSize)) (nCompact AND 0x007fffff) else nCompact AND 0x007fffff);
          value = (if nSize \<le> 3 then ucast nWord else push_bit (8 * (nSize - 3)) (ucast nWord))
      in (value, nWord \<noteq> 0 \<and> nCompact AND 0x00800000 \<noteq> 0,
          nWord \<noteq> 0 \<and> (34 < nSize \<or> 0xff < nWord \<and> 33 < nSize \<or> 0xffff < nWord \<and> 32 < nSize)))"

text \<open>No caller asks for the sign bit: the argument of \<^verbatim>\<open>GetCompact\<close> is its default, \<^verbatim>\<open>false\<close>.\<close>

definition GetCompact :: "arith_uint256 \<Rightarrow> u32 option" where
  "GetCompact x =
     (let nSize = (bit_size (unat x) + 7) div 8;
          nCompact = (if nSize \<le> 3 then ucast (push_bit (8 * (3 - nSize)) (ucast x :: u64))
                      else ucast (ucast (drop_bit (8 * (nSize - 3)) x) :: u64)) :: u32;
          (nCompact, nSize) = (if nCompact AND 0x00800000 \<noteq> 0 then (drop_bit 8 nCompact, nSize + 1) else (nCompact, nSize))
      in if nCompact AND NOT 0x007fffff \<noteq> 0 \<or> 256 \<le> nSize then None
         else Some (nCompact OR push_bit 24 (word_of_nat nSize)))"

section \<open>Blocks and parameters\<close>

record CBlockIndex =
  bi_nTime :: u32
  bi_nBits :: u32

type_synonym block_index = "CBlockIndex list"

definition bi_nHeight :: "block_index \<Rightarrow> int" where
  "bi_nHeight pindex = int (length pindex) - 1"

definition GetBlockTime :: "CBlockIndex \<Rightarrow> int" where
  "GetBlockTime b = uint (bi_nTime b)"

definition GetAncestor_at :: "block_index \<Rightarrow> int \<Rightarrow> CBlockIndex" where
  "GetAncestor_at pindex i = pindex ! nat (bi_nHeight pindex - i)"

definition nMedianTimeSpan :: nat where "nMedianTimeSpan = 11"

definition GetMedianTimePast :: "block_index \<Rightarrow> int" where
  "GetMedianTimePast pindex =
     (let pmedian = sort (map GetBlockTime (take nMedianTimeSpan pindex)) in pmedian ! (length pmedian div 2))"

record PowParams =
  powLimit :: uint256
  nPowAllowMinDifficultyBlocksAfterHeight :: "u32 option"
  nDigishieldAveragingWindow :: int
  nDigishieldMaxAdjustDown :: int
  nDigishieldMaxAdjustUp :: int
  nPowTargetSpacing :: int
  nZawyLWMAAveragingWindow :: int
  eh_epoch_fade_length :: u64
  UPGRADE_LWMA_height :: int
  UPGRADE_EQUI144_5_height :: int
  UPGRADE_ACADIA_height :: int
  UPGRADE_KAMIOOKA_height :: int
  NetworkID_regtest :: bool

definition DigishieldAveragingWindowTimespan :: "PowParams \<Rightarrow> int" where
  "DigishieldAveragingWindowTimespan p = wrap64 (nDigishieldAveragingWindow p * nPowTargetSpacing p)"

definition DigishieldMinActualTimespan :: "PowParams \<Rightarrow> int" where
  "DigishieldMinActualTimespan p = cdiv (wrap64 (DigishieldAveragingWindowTimespan p * (100 - nDigishieldMaxAdjustUp p))) 100"

definition DigishieldMaxActualTimespan :: "PowParams \<Rightarrow> int" where
  "DigishieldMaxActualTimespan p = cdiv (wrap64 (DigishieldAveragingWindowTimespan p * (100 + nDigishieldMaxAdjustDown p))) 100"

text \<open>The two epoch ends are computed in \<^verbatim>\<open>unsigned long\<close>.\<close>

definition eh_epoch_1_end :: "PowParams \<Rightarrow> u64" where
  "eh_epoch_1_end p = word_of_int (UPGRADE_EQUI144_5_height p) + eh_epoch_fade_length p - 1"

definition eh_epoch_2_end :: "PowParams \<Rightarrow> u64" where
  "eh_epoch_2_end p = word_of_int (UPGRADE_KAMIOOKA_height p) + eh_epoch_fade_length p - 1"

section \<open>The retargeting rules\<close>

text \<open>The constructor from \<^verbatim>\<open>uint64_t\<close>, and a division that throws for zero.\<close>

definition arith_of_int :: "int \<Rightarrow> arith_uint256" where
  "arith_of_int x = ucast (word_of_int x :: u64)"

definition uint_div :: "arith_uint256 \<Rightarrow> int \<Rightarrow> arith_uint256 option" where
  "uint_div x y = (if arith_of_int y = 0 then None else Some (x div arith_of_int y))"

definition bnPowLimit :: "PowParams \<Rightarrow> arith_uint256" where
  "bnPowLimit p = UintToArith256 (powLimit p)"

definition DigishieldCalculateNextWorkRequired :: "arith_uint256 \<Rightarrow> int \<Rightarrow> int \<Rightarrow> PowParams \<Rightarrow> u32 option" where
  "DigishieldCalculateNextWorkRequired bnAvg nLastBlockTime nFirstBlockTime p =
     (let span = DigishieldAveragingWindowTimespan p;
          nActualTimespan = wrap64 (nLastBlockTime - nFirstBlockTime);
          nActualTimespan = wrap64 (span + cdiv (wrap64 (nActualTimespan - span)) 4);
          nActualTimespan = max nActualTimespan (DigishieldMinActualTimespan p);
          nActualTimespan = min nActualTimespan (DigishieldMaxActualTimespan p)
      in case uint_div bnAvg span of
           None \<Rightarrow> None
         | Some bnNew \<Rightarrow>
             let bnNew = bnNew * word_of_nat (unat (word_of_int nActualTimespan :: u32))
             in GetCompact (min bnNew (bnPowLimit p)))"

fun over :: "(int \<Rightarrow> 's \<Rightarrow> 's option) \<Rightarrow> int list \<Rightarrow> 's \<Rightarrow> 's option" where
  "over f [] s = Some s"
| "over f (i # is) s = (case f i s of None \<Rightarrow> None | Some s' \<Rightarrow> over f is s')"

definition FTL :: int where "FTL = 360"

definition LWMACalculateNextWorkRequired :: "block_index \<Rightarrow> PowParams \<Rightarrow> u32 option" where
  "LWMACalculateNextWorkRequired pindexLast p =
     (let T = nPowTargetSpacing p; N = nZawyLWMAAveragingWindow p; k = cdiv (wrap64 (N * (N + 1) * T)) 2;
          height = bi_nHeight pindexLast
      in if height \<le> N then None
         else case over (\<lambda>i (j, t, sum_target).
             let block = GetAncestor_at pindexLast i; block_Prev = GetAncestor_at pindexLast (i - 1);
                 solvetime = GetBlockTime block - GetBlockTime block_Prev;
                 solvetime = max (- FTL) (min solvetime (6 * T));
                 j = j + 1; t = wrap64 (t + solvetime * j)
             in map_option (\<lambda>q. (j, t, sum_target + q)) (uint_div (fst (SetCompact (bi_nBits block))) (wrap64 (k * N))))
           [height - N + 1..height] (0, 0, 0) of
           None \<Rightarrow> None
         | Some (j, t, sum_target) \<Rightarrow>
             let t = max t (cdiv k 10); next_target = arith_of_int t * sum_target
             in GetCompact (min next_target (bnPowLimit p)))"

definition lwma3_clamp :: "arith_uint256 \<Rightarrow> arith_uint256 \<Rightarrow> arith_uint256 \<Rightarrow> arith_uint256" where
  "lwma3_clamp limit previousDiff nextTarget =
     (let nextTarget = (if previousDiff * 150 div 100 < nextTarget then previousDiff * 150 div 100 else nextTarget);
          nextTarget = (if nextTarget < previousDiff * 67 div 100 then previousDiff * 67 div 100 else nextTarget)
      in if limit < nextTarget then limit else nextTarget)"

definition lwma3_step :: "block_index \<Rightarrow> PowParams \<Rightarrow> int \<Rightarrow> int \<times> int \<times> int \<times> arith_uint256 \<Rightarrow> (int \<times> int \<times> int \<times> arith_uint256) option" where
  "lwma3_step pindexLast p i = (\<lambda>(previousTimestamp, j, t, sumTarget).
     let T = nPowTargetSpacing p; N = nZawyLWMAAveragingWindow p; k = cdiv (wrap64 (N * (N + 1) * T)) 2;
         block = GetAncestor_at pindexLast i;
         thisTimestamp = (if previousTimestamp < GetBlockTime block then GetBlockTime block else previousTimestamp + 1);
         solvetime = min (6 * T) (thisTimestamp - previousTimestamp);
         j = j + 1; t = wrap64 (t + solvetime * j)
     in map_option (\<lambda>q. (thisTimestamp, j, t, sumTarget + q)) (uint_div (fst (SetCompact (bi_nBits block))) (wrap64 (k * N))))"

definition Lwma3CalculateNextWorkRequired :: "block_index \<Rightarrow> PowParams \<Rightarrow> u32 option" where
  "Lwma3CalculateNextWorkRequired pindexLast p =
     (let N = nZawyLWMAAveragingWindow p; height = bi_nHeight pindexLast
      in if height < N then GetCompact (bnPowLimit p)
         else case over (lwma3_step pindexLast p) [height - N + 1..height]
             (GetBlockTime (GetAncestor_at pindexLast (height - N)), 0, 0, 0) of
           None \<Rightarrow> None
         | Some (_, _, t, sumTarget) \<Rightarrow>
             let previousDiff = (if 0 < N then fst (SetCompact (bi_nBits (hd pindexLast))) else 0)
             in GetCompact (lwma3_clamp (bnPowLimit p) previousDiff (arith_of_int t * sumTarget)))"

section \<open>The work required and the work done\<close>

text \<open>Up to \<open>n\<close> blocks back: the sum of the targets, and the block where the walk ends.\<close>

fun average_loop :: "nat \<Rightarrow> block_index \<Rightarrow> arith_uint256 \<Rightarrow> arith_uint256 \<times> block_index" where
  "average_loop (Suc n) (b # pprev) bnTot = average_loop n pprev (bnTot + fst (SetCompact (bi_nBits b)))"
| "average_loop _ pindexFirst bnTot = (bnTot, pindexFirst)"

definition fade_factor :: "PowParams \<Rightarrow> int \<Rightarrow> u32" where
  "fade_factor p nHeight = ucast (eh_epoch_2_end p + 61 - word_of_int nHeight)"

definition faded_target :: "PowParams \<Rightarrow> int \<Rightarrow> arith_uint256 \<Rightarrow> arith_uint256" where
  "faded_target p nHeight fullTarget =
     (let targetStep = drop_bit 5 fullTarget;
          targetStep = targetStep * word_of_nat (unat (fade_factor p nHeight));
          fullTarget = fullTarget + targetStep
      in if bnPowLimit p < fullTarget then bnPowLimit p else fullTarget)"

definition allows_min_difficulty :: "PowParams \<Rightarrow> block_index \<Rightarrow> int option \<Rightarrow> bool" where
  "allows_min_difficulty p pindexLast blockTime \<longleftrightarrow>
     (case nPowAllowMinDifficultyBlocksAfterHeight p of
        None \<Rightarrow> False
      | Some h \<Rightarrow> h \<le> word_of_int (bi_nHeight pindexLast) \<and>
          (case blockTime of None \<Rightarrow> False | Some t \<Rightarrow> GetBlockTime (hd pindexLast) + nPowTargetSpacing p * 2 < t))"

definition GetNextWorkRequired :: "block_index \<Rightarrow> int option \<Rightarrow> PowParams \<Rightarrow> u32 option" where
  "GetNextWorkRequired pindexLast blockTime p =
     (let limit = GetCompact (bnPowLimit p); nHeight = bi_nHeight pindexLast; height = word_of_int nHeight :: u64 in
      if pindexLast = [] then limit
      else if eh_epoch_1_end p - 1 < height \<and> height < eh_epoch_1_end p + 61 then limit
      else if eh_epoch_2_end p - 1 < height \<and> height < eh_epoch_2_end p + 64 then
        (case Lwma3CalculateNextWorkRequired pindexLast p of
           None \<Rightarrow> None
         | Some nBits \<Rightarrow> GetCompact (faded_target p nHeight (fst (SetCompact nBits))))
      else if allows_min_difficulty p pindexLast blockTime then limit
      else case average_loop (nat (nDigishieldAveragingWindow p)) pindexLast 0 of (bnTot, pindexFirst) \<Rightarrow>
        if pindexFirst = [] then limit
        else case uint_div bnTot (nDigishieldAveragingWindow p) of
          None \<Rightarrow> None
        | Some bnAvg \<Rightarrow>
            if nHeight + 1 < UPGRADE_LWMA_height p then
              DigishieldCalculateNextWorkRequired bnAvg (GetMedianTimePast pindexLast) (GetMedianTimePast pindexFirst) p
            else if nHeight + 1 < UPGRADE_ACADIA_height p then LWMACalculateNextWorkRequired pindexLast p
            else Lwma3CalculateNextWorkRequired pindexLast p)"

definition CheckProofOfWork :: "uint256 \<Rightarrow> u32 \<Rightarrow> PowParams \<Rightarrow> bool" where
  "CheckProofOfWork hash nBits p =
     (case SetCompact nBits of (bnTarget, fNegative, fOverflow) \<Rightarrow>
        if NetworkID_regtest p then True
        else if fNegative \<or> bnTarget = 0 \<or> fOverflow \<or> bnPowLimit p < bnTarget then False
        else \<not> bnTarget < UintToArith256 hash)"

definition GetBlockProof :: "u32 \<Rightarrow> arith_uint256" where
  "GetBlockProof nBits =
     (case SetCompact nBits of (bnTarget, fNegative, fOverflow) \<Rightarrow>
        if fNegative \<or> fOverflow \<or> bnTarget = 0 then 0 else NOT bnTarget div (bnTarget + 1) + 1)"

definition GetBlockProofEquivalentTime :: "arith_uint256 \<Rightarrow> arith_uint256 \<Rightarrow> u32 \<Rightarrow> PowParams \<Rightarrow> int option" where
  "GetBlockProofEquivalentTime toWork fromWork tipBits p =
     (let (r, sign) = (if fromWork < toWork then (toWork - fromWork, 1) else (fromWork - toWork, - 1))
      in if GetBlockProof tipBits = 0 then None
         else let r = r * arith_of_int (nPowTargetSpacing p) div GetBlockProof tipBits
              in Some (if 63 < bit_size (unat r) then sign * (2 ^ 63 - 1) else sint (word_of_int sign * (ucast r :: u64))))"

section \<open>Compact targets as numbers\<close>

text \<open>The bytes of a number, as \<^verbatim>\<open>GetCompact\<close> counts them.\<close>

definition byte_size :: "nat \<Rightarrow> nat" where
  "byte_size X = (bit_size X + 7) div 8"

lemma byte_size_bounds: "X < 256 ^ byte_size X" "0 < X \<Longrightarrow> 256 ^ (byte_size X - 1) \<le> X"
proof -
  have p: "(256 :: nat) ^ k = 2 ^ (8 * k)" for k by (simp add: power_mult)
  have "(2 :: nat) ^ bit_size X \<le> 2 ^ (8 * byte_size X)" by (rule power_increasing) (simp_all add: byte_size_def)
  then show "X < 256 ^ byte_size X" unfolding p by (rule less_le_trans [OF bit_size_lt])
  assume X: "0 < X"
  then have "0 < bit_size X" by (simp add: bit_size_rec)
  then have "8 * (byte_size X - 1) \<le> bit_size X - 1" by (simp add: byte_size_def)
  then have "(2 :: nat) ^ (8 * (byte_size X - 1)) \<le> 2 ^ (bit_size X - 1)" by (rule power_increasing) simp
  then show "256 ^ (byte_size X - 1) \<le> X" unfolding p by (rule order_trans [OF _ bit_size_ge [OF X]])
qed

lemma byte_size_le: "unat (x :: arith_uint256) < 2 ^ 256" "byte_size (unat x) \<le> 32"
proof -
  show "unat x < 2 ^ 256" using unsigned_less [of x, where ?'a = nat] by simp
  then have "bit_size (unat x) \<le> 256" by (rule bit_size_le)
  then show "byte_size (unat x) \<le> 32" by (simp add: byte_size_def)
qed

text \<open>The leading three bytes.\<close>

definition leading :: "nat \<Rightarrow> nat" where
  "leading X = (if byte_size X \<le> 3 then X * 256 ^ (3 - byte_size X) else X div 256 ^ (byte_size X - 3))"

lemma leading_bounds: "leading X < 2 ^ 24" "0 < X \<Longrightarrow> 2 ^ 16 \<le> leading X"
proof -
  let ?n = "byte_size X"
  have up: "X < 256 ^ ?n" by (rule byte_size_bounds)
  show "leading X < 2 ^ 24"
  proof (cases "?n \<le> 3")
    case True
    have "X * 256 ^ (3 - ?n) < 256 ^ ?n * 256 ^ (3 - ?n)" using up by simp
    also have "\<dots> = 2 ^ 24" using True by (simp add: power_add [symmetric])
    finally show ?thesis using True by (simp add: leading_def)
  next
    case False
    then have "(256 :: nat) ^ ?n = 256 ^ 3 * 256 ^ (?n - 3)" by (simp only: power_add [symmetric]) simp
    then have "X < 256 ^ 3 * 256 ^ (?n - 3)" using up by simp
    then show ?thesis using False by (simp add: leading_def less_mult_imp_div_less)
  qed
  assume X: "0 < X"
  then have lo: "256 ^ (?n - 1) \<le> X" by (rule byte_size_bounds)
  have "?n \<noteq> 0"
  proof
    assume "?n = 0"
    then show False using up X by simp
  qed
  then have n: "0 < ?n" by simp
  show "2 ^ 16 \<le> leading X"
  proof (cases "?n \<le> 3")
    case True
    have "?n - 1 + (3 - ?n) = 2" using True n by simp
    then have "(2 :: nat) ^ 16 = 256 ^ (?n - 1) * 256 ^ (3 - ?n)" by (simp add: power_add [symmetric])
    also have "\<dots> \<le> X * 256 ^ (3 - ?n)" using lo by (rule mult_le_mono1)
    finally show ?thesis using True by (simp add: leading_def)
  next
    case False
    then have "?n - 1 = 2 + (?n - 3)" by simp
    then have "(256 :: nat) ^ (?n - 1) = 256 ^ 2 * 256 ^ (?n - 3)" by (simp only: power_add)
    then have "256 ^ 2 * 256 ^ (?n - 3) \<le> X" using lo by simp
    then have "256 ^ 2 \<le> X div 256 ^ (?n - 3)" by (simp add: less_eq_div_iff_mult_less_eq)
    then show ?thesis using False by (simp add: leading_def)
  qed
qed

text \<open>Mantissa and exponent: one byte less when the third byte would look like a sign.\<close>

definition mantissa :: "nat \<Rightarrow> nat" where
  "mantissa X = (if 2 ^ 23 \<le> leading X then leading X div 256 else leading X)"

definition exponent :: "nat \<Rightarrow> nat" where
  "exponent X = (if 2 ^ 23 \<le> leading X then byte_size X + 1 else byte_size X)"

lemma mantissa_bounds: "mantissa X < 2 ^ 23" "0 < X \<Longrightarrow> 2 ^ 15 \<le> mantissa X"
  using leading_bounds [of X] by (auto simp: mantissa_def)

lemma unat_u32_and_mask: "unat (w AND 0x007fffff :: u32) = unat w mod 2 ^ 23"
proof -
  have "w AND 0x007fffff = take_bit 23 w" by (simp add: take_bit_eq_mask mask_eq_exp_minus_1)
  then show ?thesis by (simp add: take_bit_eq_mod unat_mod)
qed

lemma small_mantissa: "unat (w :: u32) < 2 ^ 23 \<Longrightarrow> w AND NOT 0x007fffff = 0"
proof -
  assume "unat w < 2 ^ 23"
  then have "w AND 0x007fffff = w" using unat_u32_and_mask [of w] by (simp add: word_unat_eq_iff)
  then show ?thesis by (metis and.assoc bit.conj_cancel_right and_zero_eq)
qed

lemma unat_drop_bit_u32: "unat (drop_bit k (w :: u32)) = unat w div 2 ^ k"
proof (cases "k < 32")
  case True
  then have "unat (2 ^ k :: u32) = 2 ^ k"
    using unat_of_nat [of "2 ^ k", where ?'a = 32] power_strict_increasing [OF True, of "2 :: nat"] by simp
  then show ?thesis by (simp add: drop_bit_eq_div unat_div)
next
  case False
  then have "(2 :: nat) ^ 32 \<le> 2 ^ k" by (intro power_increasing) simp_all
  then have "unat w div 2 ^ k = 0" using u32_bound [of w] by simp
  moreover have "drop_bit k w = 0" using False by (intro bit_word_eqI) (simp add: bit_drop_bit_eq no_high_bit)
  ultimately show ?thesis by simp
qed

lemma ucast_twice: "unat (w :: arith_uint256) < 2 ^ 24 \<Longrightarrow> unat (ucast (ucast w :: u64) :: u32) = unat w"
proof -
  assume lt: "unat w < 2 ^ 24"
  then have "unat (ucast w :: u64) = unat w" by (simp add: unsigned_ucast_eq take_bit_nat_eq_self)
  with lt show ?thesis
    by (simp only: unsigned_ucast_eq [where ?'a = nat, of "ucast w :: u64"]) (simp add: take_bit_nat_eq_self)
qed

lemma leading_word:
  fixes x :: arith_uint256
  defines "n \<equiv> byte_size (unat x)"
  shows "unat ((if n \<le> 3 then ucast (push_bit (8 * (3 - n)) (ucast x :: u64))
     else ucast (ucast (drop_bit (8 * (n - 3)) x) :: u64)) :: u32) = leading (unat x)"
proof (cases "n \<le> 3")
  case True
  let ?X = "unat x"
  have p: "(2 :: nat) ^ (8 * (3 - n)) = 256 ^ (3 - n)" by (simp add: power_mult)
  have lt: "?X * 256 ^ (3 - n) < 2 ^ 24" using leading_bounds(1) [of ?X] True by (simp add: leading_def n_def)
  moreover have "?X \<le> ?X * 256 ^ (3 - n)" by simp
  ultimately have X: "?X < 2 ^ 24" by (rule le_less_trans [rotated])
  then have low: "unat (ucast x :: u64) = ?X" by (simp add: unsigned_ucast_eq take_bit_nat_eq_self)
  have "unat (push_bit (8 * (3 - n)) (ucast x :: u64)) = ?X * 256 ^ (3 - n)"
    using lt by (simp only: unsigned_push_bit_eq low) (simp add: push_bit_eq_mult p take_bit_nat_eq_self)
  then show ?thesis using lt True by (simp add: leading_def n_def unsigned_ucast_eq take_bit_nat_eq_self)
next
  case False
  let ?X = "unat x"
  have p: "(2 :: nat) ^ (8 * (n - 3)) = 256 ^ (n - 3)" by (simp add: power_mult)
  have lt: "?X div 256 ^ (n - 3) < 2 ^ 24" using leading_bounds(1) [of ?X] False by (simp add: leading_def n_def)
  have "unat (drop_bit (8 * (n - 3)) x) = ?X div 256 ^ (n - 3)"
    by (simp only: unsigned_drop_bit_eq) (simp add: drop_bit_eq_div p take_bit_nat_eq_self [OF byte_size_le(1)])
  then show ?thesis using lt False ucast_twice [of "drop_bit (8 * (n - 3)) x"] by (simp add: leading_def n_def)
qed

lemma GetCompact_Some:
  "GetCompact x = Some (word_of_nat (mantissa (unat x)) OR push_bit 24 (word_of_nat (exponent (unat x))))"
proof -
  let ?X = "unat x"
  define c :: u32 where "c = (if byte_size ?X \<le> 3 then ucast (push_bit (8 * (3 - byte_size ?X)) (ucast x :: u64))
     else ucast (ucast (drop_bit (8 * (byte_size ?X - 3)) x) :: u64))"
  have c: "unat c = leading ?X" unfolding c_def by (rule leading_word)
  have sign: "c AND 0x00800000 \<noteq> 0 \<longleftrightarrow> 2 ^ 23 \<le> leading ?X"
    using top_bit_set [of c 23] leading_bounds(1) [of ?X] c by simp
  have e: "exponent ?X < 256" using byte_size_le(2) [of x] by (simp add: exponent_def)
  define r where "r = (if c AND 0x00800000 \<noteq> 0 then (drop_bit 8 c, byte_size ?X + 1) else (c, byte_size ?X))"
  have r: "unat (fst r) = mantissa ?X" "snd r = exponent ?X"
    using unat_drop_bit_u32 [of 8 c] c by (simp_all only: r_def sign mantissa_def exponent_def split: if_splits) simp_all
  have "GetCompact x = (if fst r AND NOT 0x007fffff \<noteq> 0 \<or> 256 \<le> snd r then None else Some (fst r OR push_bit 24 (word_of_nat (snd r))))"
    unfolding GetCompact_def byte_size_def [symmetric] Let_def c_def [symmetric] r_def [symmetric] by (simp add: case_prod_beta)
  moreover have "fst r AND NOT 0x007fffff = 0" using r mantissa_bounds(1) [of ?X] by (intro small_mantissa) simp
  moreover have "fst r = word_of_nat (mantissa ?X)" by (simp flip: r(1))
  ultimately show ?thesis using e r(2) by simp
qed

text \<open>The number a compact form stands for: the leading bits, and zeros after them.\<close>

definition compact_value :: "nat \<Rightarrow> nat" where
  "compact_value X = (if exponent X \<le> 3 then X else mantissa X * 256 ^ (exponent X - 3))"

lemma small_exact: "exponent X \<le> 3 \<Longrightarrow> mantissa X = X * 256 ^ (3 - exponent X)"
proof (cases "2 ^ 23 \<le> leading X")
  case True
  assume "exponent X \<le> 3"
  then have "3 - byte_size X = Suc (3 - exponent X)" "byte_size X \<le> 3" using True by (auto simp: exponent_def)
  then show ?thesis using True by (simp add: mantissa_def leading_def)
qed (simp add: mantissa_def leading_def exponent_def)

lemma large_mantissa: "3 < exponent X \<Longrightarrow> mantissa X = X div 256 ^ (exponent X - 3)"
proof (cases "2 ^ 23 \<le> leading X")
  case True
  assume "3 < exponent X"
  then have n: "exponent X - 3 = Suc (byte_size X - 3)" "3 \<le> byte_size X" using True by (auto simp: exponent_def)
  then have "leading X = X div 256 ^ (byte_size X - 3)" by (cases "byte_size X = 3") (auto simp: leading_def)
  then show ?thesis using True n by (simp add: mantissa_def div_mult2_eq [symmetric] mult.commute)
qed (simp add: mantissa_def leading_def exponent_def)

lemma compact_value_le: "compact_value X \<le> X"
  by (auto simp: compact_value_def large_mantissa)

lemma compact_value_close: "(X - compact_value X) * 2 ^ 15 \<le> compact_value X"
proof (cases "exponent X \<le> 3 \<or> X = 0")
  case False
  let ?B = "256 ^ (exponent X - 3) :: nat"
  from False have e: "3 < exponent X" and X: "0 < X" by auto
  have "X - compact_value X = X mod ?B"
    using e by (simp add: compact_value_def large_mantissa minus_div_mult_eq_mod)
  also have "\<dots> \<le> ?B" by (simp add: less_imp_le)
  finally have "(X - compact_value X) * 2 ^ 15 \<le> ?B * 2 ^ 15" by (rule mult_le_mono1)
  also have "\<dots> \<le> ?B * mantissa X" using mantissa_bounds(2) [OF X] by (rule mult_le_mono2)
  finally show ?thesis using e by (simp add: compact_value_def mult.commute)
qed (auto simp: compact_value_def)

lemma compact_fields:
  assumes "m < 2 ^ 23" "s < 256"
  defines "w \<equiv> (word_of_nat m OR push_bit 24 (word_of_nat s)) :: u32"
  shows "unat (drop_bit 24 w) = s" "w AND 0x007fffff = word_of_nat m" "w AND 0x00800000 = 0"
proof -
  have m: "unat (word_of_nat m :: u32) = m" using assms(1) unat_of_nat [of m, where ?'a = 32] by simp
  have s: "unat (push_bit 24 (word_of_nat s :: u32)) = 2 ^ 24 * s"
    using assms(2) unat_of_nat [of s, where ?'a = 32]
    by (simp only: unsigned_push_bit_eq) (simp add: push_bit_eq_mult take_bit_nat_eq_self mult.commute)
  have low: "\<not> bit (word_of_nat m :: u32) n" if "23 \<le> n" for n
  proof -
    have "(2 :: nat) ^ 23 \<le> 2 ^ n" using that by (intro power_increasing) simp_all
    then have "\<not> bit (unat (word_of_nat m :: u32)) n" using m assms(1) by (simp add: bit_iff_odd)
    then show ?thesis by (simp add: bit_unsigned_iff)
  qed
  have "w = word_of_nat m + push_bit 24 (word_of_nat s)"
    unfolding w_def using low by (intro disjunctive_add [symmetric]) (force simp: bit_push_bit_iff)
  then have u: "unat w = m + 2 ^ 24 * s" using m s assms(1,2) by (simp add: unat_word_ariths)
  show "unat (drop_bit 24 w) = s" using u assms(1) by (simp add: unat_drop_bit_u32)
  have "m + 2 ^ 24 * s = m + 2 ^ 23 * (2 * s)" by simp
  then have "(m + 2 ^ 24 * s) mod 2 ^ 23 = m" using assms(1) by (simp only: mod_mult_self2) simp
  then show "w AND 0x007fffff = word_of_nat m" by (simp only: word_unat_eq_iff unat_u32_and_mask u m)
  have "\<not> bit w 23" unfolding w_def using low by (simp add: bit_or_iff bit_push_bit_iff)
  then show "w AND 0x00800000 = 0" using and_exp_eq_0_iff_not_bit [of w 23] by simp
qed

lemma SetCompact_GetCompact:
  "\<exists>nBits. GetCompact x = Some nBits \<and> SetCompact nBits = (word_of_nat (compact_value (unat x)), False, False)"
proof -
  let ?X = "unat x" and ?m = "mantissa (unat x)" and ?s = "exponent (unat x)"
  define w :: u32 where "w = word_of_nat ?m OR push_bit 24 (word_of_nat ?s)"
  have m: "?m < 2 ^ 23" by (rule mantissa_bounds)
  have s: "?s \<le> 33" using byte_size_le(2) [of x] by (simp add: exponent_def)
  note w = compact_fields [OF m, of ?s, folded w_def]
  have mw: "unat (word_of_nat ?m :: u32) = ?m" using m unat_of_nat [of ?m, where ?'a = 32] by simp
  have mu: "ucast (word_of_nat ?m :: u32) = (word_of_nat ?m :: arith_uint256)"
  proof -
    have "?m < 2 ^ 256" using m by simp
    then show ?thesis
      using unat_of_nat [of ?m, where ?'a = 256] mw by (simp add: word_unat_eq_iff unsigned_ucast_eq take_bit_nat_eq_self)
  qed
  have "SetCompact w = (word_of_nat (compact_value ?X), False, False)"
  proof (cases "?s \<le> 3")
    case True
    have p: "(2 :: nat) ^ (8 * (3 - ?s)) = 256 ^ (3 - ?s)" by (simp add: power_mult)
    have v: "unat (drop_bit (8 * (3 - ?s)) (word_of_nat ?m :: u32)) = ?X"
      by (simp only: unat_drop_bit_u32 mw p) (subst small_exact [OF True], simp)
    then have "(ucast (drop_bit (8 * (3 - ?s)) (word_of_nat ?m :: u32)) :: arith_uint256) = x"
      by (simp add: word_unat_eq_iff unsigned_ucast_eq take_bit_nat_eq_self [OF byte_size_le(1)])
    then show ?thesis using True w s by (simp add: SetCompact_def Let_def compact_value_def)
  next
    case False
    have p: "(256 :: arith_uint256) ^ (?s - 3) = 2 ^ (8 * (?s - 3))" by (simp add: power_mult)
    have "push_bit (8 * (?s - 3)) (word_of_nat ?m :: arith_uint256) = word_of_nat (compact_value ?X)"
      using False by (simp add: compact_value_def push_bit_eq_mult p)
    moreover have "\<not> (0xffff < (word_of_nat ?m :: u32) \<and> 32 < ?s)"
    proof
      assume big: "0xffff < (word_of_nat ?m :: u32) \<and> 32 < ?s"
      then have "2 ^ 23 \<le> leading ?X" using byte_size_le(2) [of x] by (auto simp: exponent_def split: if_splits)
      then have "?m < 2 ^ 16" using leading_bounds(1) [of ?X] by (simp add: mantissa_def)
      then show False using big mw by (simp add: word_less_nat_alt)
    qed
    ultimately show ?thesis using False w s by (auto simp: SetCompact_def Let_def mu)
  qed
  then show ?thesis using GetCompact_Some [of x] by (auto simp: w_def)
qed

lemma unat_compact_value:
  fixes x :: arith_uint256
  shows "unat (word_of_nat (compact_value (unat x)) :: arith_uint256) = compact_value (unat x)"
  using compact_value_le [of "unat x"] byte_size_le(1) [of x] unat_of_nat [of "compact_value (unat x)", where ?'a = 256] by simp

text \<open>
  C23. Writing a 256-bit target in compact form never fails an assertion, and reading it back
  gives a target that is neither negative nor overflowing, not above the original and below it by
  at most one part in \<open>2 ^ 15\<close>.
\<close>

theorem compact_rounding:
  "\<exists>nBits y. GetCompact x = Some nBits \<and> SetCompact nBits = (y, False, False) \<and> y \<le> x \<and>
     (unat x - unat y) * 2 ^ 15 \<le> unat y"
proof -
  obtain nBits where "GetCompact x = Some nBits" "SetCompact nBits = (word_of_nat (compact_value (unat x)), False, False)"
    using SetCompact_GetCompact by blast
  then show ?thesis
    using compact_value_le [of "unat x"] compact_value_close [of "unat x"] unat_compact_value [of x]
    by (simp add: word_le_nat_alt)
qed

lemma GetCompact_min:
  "\<exists>nBits y. GetCompact (min x l) = Some nBits \<and> SetCompact nBits = (y, False, False) \<and> y \<le> l \<and> y \<le> x"
proof -
  obtain nBits where n: "GetCompact (min x l) = Some nBits"
    "SetCompact nBits = (word_of_nat (compact_value (unat (min x l))), False, False)"
    using SetCompact_GetCompact by blast
  have "(word_of_nat (compact_value (unat (min x l))) :: arith_uint256) \<le> min x l"
    using compact_value_le [of "unat (min x l)"] unat_compact_value [of "min x l"] by (simp add: word_le_nat_alt)
  then show ?thesis using n by simp
qed

section \<open>The work of a block\<close>

lemma SetCompact_not_max: "fst (SetCompact nBits) \<noteq> - 1"
proof (cases "unat (drop_bit 24 nBits) \<le> 3")
  case True
  let ?w = "drop_bit (8 * (3 - unat (drop_bit 24 nBits))) (nBits AND 0x007fffff)"
  have "unat (ucast ?w :: arith_uint256) < 2 ^ 32" using u32_bound [of ?w] by (simp add: unsigned_ucast_eq take_bit_nat_eq_self)
  moreover have "unat (- 1 :: arith_uint256) = 2 ^ 256 - 1" by (simp add: unsigned_minus_1_eq_mask mask_eq_exp_minus_1)
  ultimately have "(ucast ?w :: arith_uint256) \<noteq> - 1" by auto
  then show ?thesis using True by (simp add: SetCompact_def Let_def)
next
  case False
  let ?s = "8 * (unat (drop_bit 24 nBits) - 3)"
  have "\<not> bit (push_bit ?s (ucast (nBits AND 0x007fffff)) :: arith_uint256) 0" using False by (simp add: bit_push_bit_iff)
  moreover have "bit (- 1 :: arith_uint256) 0" by simp
  ultimately have "(push_bit ?s (ucast (nBits AND 0x007fffff)) :: arith_uint256) \<noteq> - 1" by metis
  then show ?thesis using False by (simp add: SetCompact_def Let_def)
qed

text \<open>
  C24. The work of a block is \<open>2 ^ 256\<close> divided by its target plus one, rounded down, although
  \<open>2 ^ 256\<close> does not fit the type and the code never divides by zero; a block with an invalid
  target adds no work.
\<close>

theorem GetBlockProof_exact:
  "unat (GetBlockProof nBits) =
     (case SetCompact nBits of (bnTarget, fNegative, fOverflow) \<Rightarrow>
        if fNegative \<or> fOverflow \<or> bnTarget = 0 then 0 else 2 ^ 256 div (unat bnTarget + 1)) \<and>
   fst (SetCompact nBits) + 1 \<noteq> 0"
proof -
  obtain t neg ovf where t: "SetCompact nBits = (t, neg, ovf)" by (cases "SetCompact nBits") auto
  have max: "t + 1 \<noteq> 0" using SetCompact_not_max [of nBits] t by (auto simp: eq_neg_iff_add_eq_0)
  then have t1: "unat (t + 1) = unat t + 1" using unatSuc [of t] by (simp add: add.commute)
  have b: "unat t + 1 < 2 ^ 256" using byte_size_le(1) [of "t + 1"] t1 by simp
  have "NOT t = - 1 - t" by (simp add: not_eq_complement)
  then have n: "unat (NOT t) = 2 ^ 256 - 1 - unat t"
    using unat_sub [of t "- 1"] by (simp add: unsigned_minus_1_eq_mask mask_eq_exp_minus_1)
  have "unat (NOT t div (t + 1) + 1) = 2 ^ 256 div (unat t + 1)" if "t \<noteq> 0"
  proof -
    have T: "1 \<le> unat t" using that by (simp add: unat_gt_0 Suc_leI)
    have q: "2 ^ 256 div (unat t + 1) = (2 ^ 256 - 1 - unat t) div (unat t + 1) + 1"
    proof -
      have "(2 :: nat) ^ 256 = (2 ^ 256 - 1 - unat t) + (unat t + 1)" using b by simp
      then show ?thesis by (metis div_add_self2 Suc_eq_plus1 nat.simps(3))
    qed
    have "2 ^ 256 div (unat t + 1) \<le> 2 ^ 256 div 2" using T by (intro div_le_mono2) simp_all
    then have "(2 ^ 256 - 1 - unat t) div (unat t + 1) + 1 < 2 ^ 256" using q by simp
    then have "unat (NOT t div (t + 1) + 1) = (2 ^ 256 - 1 - unat t) div (unat t + 1) + 1"
      using n t1 by (simp add: unat_word_ariths unat_div)
    then show ?thesis using q by simp
  qed
  then show ?thesis using t max by (simp add: GetBlockProof_def)
qed

section \<open>The work required\<close>

definition pow_params_ok :: "PowParams \<Rightarrow> bool" where
  "pow_params_ok p \<longleftrightarrow>
     (let N = nZawyLWMAAveragingWindow p; T = nPowTargetSpacing p; W = nDigishieldAveragingWindow p in
      0 < N \<and> 0 < T \<and> 0 < W \<and> N * (N + 1) * T * N < 2 ^ 63 \<and> W * T < 2 ^ 63 \<and>
      (UPGRADE_ACADIA_height p \<le> UPGRADE_LWMA_height p \<or> N + 1 < UPGRADE_LWMA_height p))"

lemma uint_div_Some: "0 < y \<Longrightarrow> y < 2 ^ 63 \<Longrightarrow> \<exists>q. uint_div x y = Some q"
proof -
  assume y: "0 < y" "y < 2 ^ 63"
  then have "uint (word_of_int y :: u64) = y" by (simp add: uint_word_of_int)
  then have "uint (arith_of_int y) = y" using y by (simp add: arith_of_int_def unsigned_ucast_eq take_bit_int_eq_self)
  then show ?thesis using y by (auto simp: uint_div_def)
qed

lemma lwma_divisor:
  assumes "pow_params_ok p"
  defines "N \<equiv> nZawyLWMAAveragingWindow p"
  defines "k \<equiv> cdiv (wrap64 (N * (N + 1) * nPowTargetSpacing p)) 2"
  shows "0 < wrap64 (k * N)" "wrap64 (k * N) < 2 ^ 63"
proof -
  let ?T = "nPowTargetSpacing p"
  have p: "0 < N" "0 < ?T" "N * (N + 1) * ?T * N < 2 ^ 63"
    using assms(1) by (simp_all add: pow_params_ok_def Let_def N_def)
  let ?P = "N * (N + 1) * ?T"
  have two: "2 \<le> ?P"
  proof -
    have "1 * (1 + 1) \<le> N * (N + 1)" using p(1) by (intro mult_mono) simp_all
    then have "2 * 1 \<le> N * (N + 1) * ?T" using p(2) by (intro mult_mono) simp_all
    then show ?thesis by simp
  qed
  have "?P * 1 \<le> ?P * N" using two p(1) by (intro mult_left_mono) simp_all
  then have "wrap64 ?P = ?P" using p(3) two by (intro wrap64_id) (simp add: i64_range_def)
  then have k: "k = ?P div 2" using two by (simp add: k_def cdiv_nonneg)
  then have k1: "1 \<le> k" using two by simp
  have "k * N \<le> ?P * N" using k two p(1) by (intro mult_right_mono) simp_all
  moreover have "1 * 1 \<le> k * N" using k1 p(1) by (intro mult_mono) simp_all
  ultimately have "wrap64 (k * N) = k * N" "0 < k * N" "k * N < 2 ^ 63" using p(3) by (auto simp: i64_range_def intro!: wrap64_id)
  then show "0 < wrap64 (k * N)" "wrap64 (k * N) < 2 ^ 63" by simp_all
qed

lemma over_Some: "(\<And>i s. \<exists>s'. f i s = Some s') \<Longrightarrow> \<exists>s'. over f is s = Some s'"
proof (induction "is" arbitrary: s)
  case (Cons i "is")
  obtain s1 where "f i s = Some s1" using Cons(2) by blast
  then show ?case using Cons by simp
qed simp

text \<open>A target in compact form that the check of a header does not find out of range.\<close>

definition valid_target :: "PowParams \<Rightarrow> u32 option \<Rightarrow> bool" where
  "valid_target p r \<longleftrightarrow> (case r of None \<Rightarrow> False | Some nBits \<Rightarrow>
     (case SetCompact nBits of (t, fNegative, fOverflow) \<Rightarrow> \<not> fNegative \<and> \<not> fOverflow \<and> t \<le> bnPowLimit p))"

lemma valid_min: "valid_target p (GetCompact (min x (bnPowLimit p)))"
  using GetCompact_min [of x "bnPowLimit p"] by (auto simp: valid_target_def)

lemma valid_limit: "valid_target p (GetCompact (bnPowLimit p))"
  using valid_min [of p "bnPowLimit p"] by simp

lemma clamp_min: "lwma3_clamp l d x = min (max (min x (d * 150 div 100)) (d * 67 div 100)) l"
  by (auto simp: lwma3_clamp_def Let_def min_def max_def not_less)

lemma lwma3_loop:
  assumes "pow_params_ok p"
  shows "\<exists>r. over (lwma3_step pindexLast p) is s = Some r"
proof (rule over_Some)
  fix i :: int and s :: "int \<times> int \<times> int \<times> arith_uint256"
  obtain a j t u where s: "s = (a, j, t, u)" by (cases s)
  show "\<exists>s'. lwma3_step pindexLast p i s = Some s'"
    using uint_div_Some [OF lwma_divisor [OF assms]] by (auto simp: lwma3_step_def s Let_def)
qed

lemma Lwma3_clamped:
  assumes "pow_params_ok p" "nZawyLWMAAveragingWindow p \<le> bi_nHeight pindexLast"
  shows "\<exists>x. Lwma3CalculateNextWorkRequired pindexLast p =
     GetCompact (lwma3_clamp (bnPowLimit p) (fst (SetCompact (bi_nBits (hd pindexLast)))) x)"
proof -
  have "0 < nZawyLWMAAveragingWindow p" using assms(1) by (simp add: pow_params_ok_def Let_def)
  moreover obtain a j t u where "over (lwma3_step pindexLast p)
      [bi_nHeight pindexLast - nZawyLWMAAveragingWindow p + 1..bi_nHeight pindexLast]
      (GetBlockTime (GetAncestor_at pindexLast (bi_nHeight pindexLast - nZawyLWMAAveragingWindow p)), 0, 0, 0) = Some (a, j, t, u)"
    using lwma3_loop [OF assms(1)] by (metis prod_cases4)
  ultimately show ?thesis using assms(2) by (auto simp: Lwma3CalculateNextWorkRequired_def Let_def)
qed

lemma valid_Lwma3: "pow_params_ok p \<Longrightarrow> valid_target p (Lwma3CalculateNextWorkRequired pindexLast p)"
proof (cases "nZawyLWMAAveragingWindow p \<le> bi_nHeight pindexLast")
  case True
  assume "pow_params_ok p"
  from Lwma3_clamped [OF this True] show ?thesis by (auto simp: clamp_min valid_min)
qed (simp add: Lwma3CalculateNextWorkRequired_def Let_def valid_limit)

lemma valid_LWMA:
  assumes "pow_params_ok p" "nZawyLWMAAveragingWindow p < bi_nHeight pindexLast"
  shows "valid_target p (LWMACalculateNextWorkRequired pindexLast p)"
proof -
  let ?f = "\<lambda>i (j, t, sum_target).
     let block = GetAncestor_at pindexLast i; block_Prev = GetAncestor_at pindexLast (i - 1);
         solvetime = GetBlockTime block - GetBlockTime block_Prev;
         solvetime = max (- FTL) (min solvetime (6 * nPowTargetSpacing p));
         j = j + 1; t = wrap64 (t + solvetime * j)
     in map_option (\<lambda>q. (j, t, sum_target + q)) (uint_div (fst (SetCompact (bi_nBits block)))
          (wrap64 (cdiv (wrap64 (nZawyLWMAAveragingWindow p * (nZawyLWMAAveragingWindow p + 1) * nPowTargetSpacing p)) 2 *
             nZawyLWMAAveragingWindow p)))"
  have step: "\<exists>s'. ?f i s = Some s'" for i s
    using uint_div_Some [OF lwma_divisor [OF assms(1)]] by (auto simp: Let_def split: prod.splits)
  have "\<exists>r. over ?f [bi_nHeight pindexLast - nZawyLWMAAveragingWindow p + 1..bi_nHeight pindexLast] (0, 0, 0) = Some r"
    by (rule over_Some) (rule step)
  then obtain j t u where
    "over ?f [bi_nHeight pindexLast - nZawyLWMAAveragingWindow p + 1..bi_nHeight pindexLast] (0, 0, 0) = Some (j, t, u)"
    by (metis prod_cases3)
  then show ?thesis using assms(2) by (simp add: LWMACalculateNextWorkRequired_def Let_def valid_min)
qed

lemma valid_Digishield:
  assumes "pow_params_ok p"
  shows "valid_target p (DigishieldCalculateNextWorkRequired bnAvg a b p)"
proof -
  have w: "0 < nDigishieldAveragingWindow p * nPowTargetSpacing p" "nDigishieldAveragingWindow p * nPowTargetSpacing p < 2 ^ 63"
    using assms by (simp_all add: pow_params_ok_def Let_def)
  then have "DigishieldAveragingWindowTimespan p = nDigishieldAveragingWindow p * nPowTargetSpacing p"
    by (simp add: DigishieldAveragingWindowTimespan_def i64_range_def)
  then obtain q where "uint_div bnAvg (DigishieldAveragingWindowTimespan p) = Some q" using uint_div_Some [of _ bnAvg] w by auto
  then show ?thesis by (simp add: DigishieldCalculateNextWorkRequired_def Let_def valid_min)
qed

text \<open>
  C21. Whatever the chain, the time of the new block and the rule in force, the work that is
  required never fails an assertion or divides by zero, and the target in the header is neither
  negative nor overflowing nor above the limit: the range check of \<^verbatim>\<open>CheckProofOfWork\<close> never refuses
  a block with the required bits for anything but a zero target.
\<close>

theorem next_work_required_valid:
  assumes "pow_params_ok p"
  shows "valid_target p (GetNextWorkRequired pindexLast blockTime p)"
proof -
  have faded: "valid_target p (GetCompact (faded_target p h t))" for h t
  proof -
    have "\<exists>x. faded_target p h t = min x (bnPowLimit p)" by (auto simp: faded_target_def Let_def min_def not_less)
    then show ?thesis using valid_min by metis
  qed
  obtain nBits where l3: "Lwma3CalculateNextWorkRequired pindexLast p = Some nBits"
    using valid_Lwma3 [OF assms, of pindexLast] by (auto simp: valid_target_def split: option.splits)
  let ?W = "nDigishieldAveragingWindow p"
  have w: "0 < ?W" "?W * nPowTargetSpacing p < 2 ^ 63" "0 < nPowTargetSpacing p"
    "UPGRADE_ACADIA_height p \<le> UPGRADE_LWMA_height p \<or> nZawyLWMAAveragingWindow p + 1 < UPGRADE_LWMA_height p"
    using assms by (simp_all add: pow_params_ok_def Let_def)
  have "?W * 1 \<le> ?W * nPowTargetSpacing p" using w(1,3) by (intro mult_left_mono) simp_all
  then have W: "?W < 2 ^ 63" using w(2) by linarith
  obtain tot first where av: "average_loop (nat (nDigishieldAveragingWindow p)) pindexLast 0 = (tot, first)" by fastforce
  obtain avg where q: "uint_div tot (nDigishieldAveragingWindow p) = Some avg" using uint_div_Some [OF w(1) W] by blast
  have lwma: "valid_target p (LWMACalculateNextWorkRequired pindexLast p)"
    if "\<not> bi_nHeight pindexLast + 1 < UPGRADE_LWMA_height p" "bi_nHeight pindexLast + 1 < UPGRADE_ACADIA_height p"
    using that w(4) by (intro valid_LWMA [OF assms]) linarith
  show ?thesis
    using valid_limit [of p] faded valid_Digishield [OF assms] lwma valid_Lwma3 [OF assms, of pindexLast]
    unfolding GetNextWorkRequired_def Let_def l3 av by (simp add: q)
qed

definition mainnet_pow :: PowParams where
  "mainnet_pow = \<lparr>powLimit = replicate 32 0x0f, nPowAllowMinDifficultyBlocksAfterHeight = None,
     nDigishieldAveragingWindow = 17, nDigishieldMaxAdjustDown = 32, nDigishieldMaxAdjustUp = 16, nPowTargetSpacing = 120,
     nZawyLWMAAveragingWindow = 60, eh_epoch_fade_length = 11, UPGRADE_LWMA_height = 0, UPGRADE_EQUI144_5_height = 0,
     UPGRADE_ACADIA_height = 0, UPGRADE_KAMIOOKA_height = 0, NetworkID_regtest = False\<rparr>"

lemma le_num_replicate: "255 * le_num (replicate n b) + unat b = unat b * 256 ^ n"
  by (induction n) (simp_all add: algebra_simps)

lemma mainnet_limit: "bnPowLimit mainnet_pow = 0x0f0f0f0f0f0f0f0f0f0f0f0f0f0f0f0f0f0f0f0f0f0f0f0f0f0f0f0f0f0f0f0f"
proof -
  have "255 * le_num (replicate 32 0x0f) + 15 = 15 * 256 ^ 32" using le_num_replicate [of 32 "0x0f"] by simp
  then have "le_num (replicate 32 0x0f) = 0x0f0f0f0f0f0f0f0f0f0f0f0f0f0f0f0f0f0f0f0f0f0f0f0f0f0f0f0f0f0f0f0f" by simp
  then show ?thesis by (simp add: bnPowLimit_def mainnet_pow_def UintToArith256_def)
qed

lemma mainnet_pow_ok: "pow_params_ok mainnet_pow"
  by (simp add: pow_params_ok_def mainnet_pow_def)

theorem next_work_required_valid_witness:
  "pow_params_ok mainnet_pow \<and> valid_target mainnet_pow (GetNextWorkRequired [\<lparr>bi_nTime = 5, bi_nBits = 0x200f0f0f\<rparr>] None mainnet_pow)"
  using next_work_required_valid [OF mainnet_pow_ok] mainnet_pow_ok by simp

text \<open>
  C22. While the last target times 150 fits 256 bits, one step of the third retargeting rule
  changes the target by no more than its limits: at most to 150 percent, at least to 67 percent
  (or the limit of the chain if that is lower), whatever the timestamps and targets of the window.
\<close>

theorem lwma3_limited:
  assumes "pow_params_ok p" "nZawyLWMAAveragingWindow p \<le> bi_nHeight pindexLast"
    "SetCompact (bi_nBits (hd pindexLast)) = (D, neg, ovf)" "unat D * 150 < 2 ^ 256"
  shows "\<exists>R. Lwma3CalculateNextWorkRequired pindexLast p = GetCompact R \<and> R \<le> bnPowLimit p \<and>
    unat R \<le> unat D * 150 div 100 \<and> min (unat D * 67 div 100) (unat (bnPowLimit p)) \<le> unat R"
proof -
  obtain x where x: "Lwma3CalculateNextWorkRequired pindexLast p = GetCompact (lwma3_clamp (bnPowLimit p) D x)"
    using Lwma3_clamped [OF assms(1,2)] assms(3) by auto
  have d: "unat (D * 150 div 100) = unat D * 150 div 100" "unat (D * 67 div 100) = unat D * 67 div 100"
    using assms(4) by (simp_all add: unat_div unat_word_ariths)
  have "unat D * 67 div 100 \<le> unat D * 150 div 100" by (rule div_le_mono) simp
  then show ?thesis
    unfolding x using d
    by (intro exI [of _ "lwma3_clamp (bnPowLimit p) D x"]) (auto simp: clamp_min word_le_nat_alt min_def max_def)
qed

theorem lwma3_limited_witness:
  "\<exists>R. Lwma3CalculateNextWorkRequired (replicate 61 \<lparr>bi_nTime = 5, bi_nBits = 0x04000064\<rparr>) mainnet_pow = GetCompact R \<and>
     unat R \<le> 38400 \<and> 17152 \<le> unat R"
proof -
  let ?chain = "replicate 61 \<lparr>bi_nTime = 5, bi_nBits = 0x04000064\<rparr>"
  have D: "SetCompact (bi_nBits (hd ?chain)) = (25600, False, False)" by (simp add: SetCompact_def)
  have h: "nZawyLWMAAveragingWindow mainnet_pow \<le> bi_nHeight ?chain" by (simp add: mainnet_pow_def bi_nHeight_def)
  have lim: "unat (25600 :: arith_uint256) * 150 < 2 ^ 256" by simp
  obtain R where R: "Lwma3CalculateNextWorkRequired ?chain mainnet_pow = GetCompact R"
    "unat R \<le> unat (25600 :: arith_uint256) * 150 div 100"
    "min (unat (25600 :: arith_uint256) * 67 div 100) (unat (bnPowLimit mainnet_pow)) \<le> unat R"
    using lwma3_limited [OF mainnet_pow_ok h D lim] by blast
  have "17152 \<le> unat (bnPowLimit mainnet_pow)" by (simp add: mainnet_limit)
  then show ?thesis using R by (intro exI [of _ R]) simp
qed

lemma GetCompact_eval:
  assumes "2 ^ (8 * n - 8) \<le> unat x" "unat x < 2 ^ (8 * n)" "3 \<le> n" "unat x div 256 ^ (n - 3) = l" "l < 2 ^ 23"
  shows "GetCompact x = Some (word_of_nat l OR push_bit 24 (word_of_nat n))"
proof -
  let ?X = "unat x"
  have up: "bit_size ?X \<le> 8 * n" using assms(2) by (rule bit_size_le)
  have "(2 :: nat) ^ (8 * n - 8) < 2 ^ bit_size ?X" using assms(1) bit_size_lt [of ?X] by (rule le_less_trans)
  then have "8 * n - 8 < bit_size ?X" by simp
  then have n: "byte_size ?X = n" using up assms(3) by (simp add: byte_size_def)
  have "leading ?X = l" using assms(3,4) n by (cases "n = 3") (auto simp: leading_def)
  then show ?thesis using n assms(5) by (simp add: GetCompact_Some mantissa_def exponent_def)
qed

lemma mainnet_compact:
  "GetCompact (bnPowLimit mainnet_pow) = Some 0x200f0f0f"
  "GetCompact 0x268cf2b851eb851eb851eb851eb851eb851eb851eb851eb851eb851eb851eb8 = Some 0x200268cf"
  using GetCompact_eval [of 32 "bnPowLimit mainnet_pow"] GetCompact_eval [of 32 "0x268cf2b851eb851eb851eb851eb851eb851eb851eb851eb851eb851eb851eb8"]
  by (simp_all add: mainnet_limit)

lemma wrapped_limits: "lwma3_clamp (bnPowLimit mainnet_pow) 0xf0f0f0000000000000000000000000000000000000000000000000000000000 x = 0x268cf2b851eb851eb851eb851eb851eb851eb851eb851eb851eb851eb851eb8"
proof -
  have "min x 0x21bb53851eb851eb851eb851eb851eb851eb851eb851eb851eb851eb851eb85 \<le> 0x21bb53851eb851eb851eb851eb851eb851eb851eb851eb851eb851eb851eb85" by simp
  then have "max (min x 0x21bb53851eb851eb851eb851eb851eb851eb851eb851eb851eb851eb851eb85) 0x268cf2b851eb851eb851eb851eb851eb851eb851eb851eb851eb851eb851eb8 = (0x268cf2b851eb851eb851eb851eb851eb851eb851eb851eb851eb851eb851eb8 :: arith_uint256)"
    by (intro max_absorb2) (rule order_trans [OF _ order.strict_implies_order], assumption, simp)
  then show ?thesis by (simp add: clamp_min mainnet_limit)
qed

text \<open>
  C30. On the main network the limits of the third rule wrap: 150 and 67 times a target near the
  limit exceed 256 bits. After a block at the easiest target the next target does not depend on the
  chain at all: whatever the timestamps, it is less than a sixth of the one before, where the limit
  is meant to be two thirds.
\<close>

theorem lwma3_limits_wrap:
  assumes "60 \<le> bi_nHeight pindexLast" "GetCompact (bnPowLimit mainnet_pow) = Some (bi_nBits (hd pindexLast))"
  shows "Lwma3CalculateNextWorkRequired pindexLast mainnet_pow = Some 0x200268cf \<and>
    6 * unat (fst (SetCompact 0x200268cf)) < unat (fst (SetCompact (bi_nBits (hd pindexLast))))"
proof -
  have "bi_nBits (hd pindexLast) = 0x200f0f0f" using assms(2) mainnet_compact(1) by simp
  moreover have "SetCompact 0x200f0f0f = (0xf0f0f0000000000000000000000000000000000000000000000000000000000, False, False)" "fst (SetCompact 0x200268cf) = 0x268cf0000000000000000000000000000000000000000000000000000000000"
    by (simp_all add: SetCompact_def)
  moreover have "nZawyLWMAAveragingWindow mainnet_pow \<le> bi_nHeight pindexLast" using assms(1) by (simp add: mainnet_pow_def)
  then obtain x where "Lwma3CalculateNextWorkRequired pindexLast mainnet_pow =
      GetCompact (lwma3_clamp (bnPowLimit mainnet_pow) (fst (SetCompact (bi_nBits (hd pindexLast)))) x)"
    using Lwma3_clamped [OF mainnet_pow_ok] by blast
  ultimately show ?thesis using mainnet_compact(2) wrapped_limits [of x] by simp
qed

theorem lwma3_limits_wrap_witness:
  "Lwma3CalculateNextWorkRequired (replicate 61 \<lparr>bi_nTime = 5, bi_nBits = 0x200f0f0f\<rparr>) mainnet_pow = Some 0x200268cf"
proof -
  let ?chain = "replicate 61 \<lparr>bi_nTime = 5, bi_nBits = 0x200f0f0f\<rparr>"
  have "60 \<le> bi_nHeight ?chain" by (simp add: bi_nHeight_def)
  moreover have "GetCompact (bnPowLimit mainnet_pow) = Some (bi_nBits (hd ?chain))" by (simp add: mainnet_compact)
  ultimately show ?thesis using lwma3_limits_wrap [of ?chain] by blast
qed

text \<open>
  The factor of the fade after the second epoch is an \<^verbatim>\<open>unsigned long\<close> cut to 32 bits: after block 72
  of the main network, where it should have faded out, it is \<open>2 ^ 32 - 1\<close>.
\<close>

lemma fade_factor_wraps: "fade_factor mainnet_pow 71 = 0" "fade_factor mainnet_pow 72 = - 1" "fade_factor mainnet_pow 73 = - 2"
  by (simp_all add: fade_factor_def eh_epoch_2_end_def mainnet_pow_def unsigned_minus_1_eq_mask mask_eq_exp_minus_1)

end
