(* ===== verification/Merkle.thy ===== *)
theory Merkle
  imports Opoi_Sortition
begin

text \<open>
  The Merkle tree of a block (\<^verbatim>\<open>primitives/block.cpp\<close>) and the check of its root in \<^verbatim>\<open>CheckBlock\<close>:
  the flat vector of all levels with its running offset, the flag for a repeated pair at the end of
  a level, the branch of a transaction and its verification.

  The lemmas show that the vector holds the levels of the tree, that every branch leads to the
  root, and that the root with the flag fixes the transactions of a block unless the hash collides.
\<close>

section \<open>The code\<close>

definition Hash2 :: "opoi_env \<Rightarrow> uint256 \<Rightarrow> uint256 \<Rightarrow> uint256" where
  "Hash2 e a b = hash256 e (a @ b)"

definition partner :: "nat \<Rightarrow> nat \<Rightarrow> nat" where
  "partner nSize i = min (i + 1) (nSize - 1)"

definition pair_hash :: "opoi_env \<Rightarrow> uint256 list \<Rightarrow> nat \<Rightarrow> nat \<Rightarrow> nat \<Rightarrow> uint256" where
  "pair_hash e vMerkleTree j nSize i = Hash2 e (vMerkleTree ! (j + i)) (vMerkleTree ! (j + partner nSize i))"

definition pair_repeats :: "uint256 list \<Rightarrow> nat \<Rightarrow> nat \<Rightarrow> nat \<Rightarrow> bool" where
  "pair_repeats vMerkleTree j nSize i \<longleftrightarrow>
     partner nSize i = i + 1 \<and> partner nSize i + 1 = nSize \<and> vMerkleTree ! (j + i) = vMerkleTree ! (j + partner nSize i)"

text \<open>The inner loop runs over \<open>0, 2, 4, \<dots>\<close> below \<open>nSize\<close>.\<close>

definition even_positions :: "nat \<Rightarrow> nat list" where
  "even_positions nSize = map (\<lambda>m. 2 * m) [0..<(nSize + 1) div 2]"

function merkle_loop :: "opoi_env \<Rightarrow> uint256 list \<Rightarrow> nat \<Rightarrow> nat \<Rightarrow> bool \<Rightarrow> uint256 list \<times> bool" where
  "merkle_loop e vMerkleTree j nSize mutated =
     (if nSize \<le> 1 then (vMerkleTree, mutated)
      else merkle_loop e (vMerkleTree @ map (pair_hash e vMerkleTree j nSize) (even_positions nSize)) (j + nSize)
             ((nSize + 1) div 2) (mutated \<or> list_ex (pair_repeats vMerkleTree j nSize) (even_positions nSize)))"
  by pat_completeness auto
termination by (relation "measure (\<lambda>(e, v, j, nSize, m). nSize)") auto

declare merkle_loop.simps [simp del]

definition BuildMerkleTree :: "opoi_env \<Rightarrow> uint256 list \<Rightarrow> uint256 \<times> uint256 list \<times> bool" where
  "BuildMerkleTree e txids =
     (case merkle_loop e txids 0 (length txids) False of (vMerkleTree, mutated) \<Rightarrow>
        (if vMerkleTree = [] then uint256_zero else last vMerkleTree, vMerkleTree, mutated))"

function branch_loop :: "uint256 list \<Rightarrow> nat \<Rightarrow> nat \<Rightarrow> nat \<Rightarrow> uint256 list" where
  "branch_loop vMerkleTree j nSize nIndex =
     (if nSize \<le> 1 then []
      else vMerkleTree ! (j + min (nIndex XOR 1) (nSize - 1)) #
             branch_loop vMerkleTree (j + nSize) ((nSize + 1) div 2) (drop_bit 1 nIndex))"
  by pat_completeness auto
termination by (relation "measure (\<lambda>(v, j, nSize, i). nSize)") auto

declare branch_loop.simps [simp del]

definition GetMerkleBranch :: "opoi_env \<Rightarrow> uint256 list \<Rightarrow> nat \<Rightarrow> uint256 list" where
  "GetMerkleBranch e txids nIndex = branch_loop (fst (snd (BuildMerkleTree e txids))) 0 (length txids) nIndex"

fun check_branch :: "opoi_env \<Rightarrow> uint256 \<Rightarrow> uint256 list \<Rightarrow> nat \<Rightarrow> uint256" where
  "check_branch e hash [] nIndex = hash"
| "check_branch e hash (it # vMerkleBranch) nIndex =
     check_branch e (if nIndex AND 1 \<noteq> 0 then Hash2 e it hash else Hash2 e hash it) vMerkleBranch (drop_bit 1 nIndex)"

definition CheckMerkleBranch :: "opoi_env \<Rightarrow> uint256 \<Rightarrow> uint256 list \<Rightarrow> int \<Rightarrow> uint256" where
  "CheckMerkleBranch e hash vMerkleBranch nIndex =
     (if nIndex = - 1 then uint256_zero else check_branch e hash vMerkleBranch (nat nIndex))"

definition check_merkle_root :: "opoi_env \<Rightarrow> uint256 \<Rightarrow> uint256 list \<Rightarrow> reject option" where
  "check_merkle_root e hashMerkleRoot txids =
     (case BuildMerkleTree e txids of (hashMerkleRoot2, _, mutated) \<Rightarrow>
        if hashMerkleRoot \<noteq> hashMerkleRoot2 then Some (DoS 100 ''bad-txnmrklroot'')
        else if mutated then Some (DoS 100 ''bad-txns-duplicate'')
        else None)"

section \<open>The levels\<close>

fun level :: "opoi_env \<Rightarrow> uint256 list \<Rightarrow> uint256 list" where
  "level e (x # y # zs) = Hash2 e x y # level e zs"
| "level e [x] = [Hash2 e x x]"
| "level e [] = []"

fun level_pairs :: "uint256 list \<Rightarrow> (uint256 \<times> uint256) list" where
  "level_pairs (x # y # zs) = (x, y) # level_pairs zs"
| "level_pairs [x] = [(x, x)]"
| "level_pairs [] = []"

fun repeats :: "uint256 list \<Rightarrow> bool" where
  "repeats (x # y # zs) = (if zs = [] then x = y else repeats zs)"
| "repeats _ = False"

lemma length_level [simp]: "length (level e xs) = (length xs + 1) div 2"
  by (induction e xs rule: level.induct) simp_all

lemma level_nth:
  "m < (length xs + 1) div 2 \<Longrightarrow> level e xs ! m = Hash2 e (xs ! (2 * m)) (xs ! partner (length xs) (2 * m))"
proof (induction e xs arbitrary: m rule: level.induct)
  case (1 e x y zs)
  show ?case
  proof (cases m)
    case (Suc k)
    then have k: "k < (length zs + 1) div 2" using 1(2) by simp
    then have "partner (length (x # y # zs)) (2 * m) = partner (length zs) (2 * k) + 2" using Suc by (simp add: partner_def min_def) linarith
    then show ?thesis using Suc 1(1) [OF k] by simp
  qed (simp add: partner_def)
qed (simp_all add: partner_def)

lemma repeats_last: "repeats xs \<longleftrightarrow> 2 \<le> length xs \<and> even (length xs) \<and> xs ! (length xs - 2) = xs ! (length xs - 1)"
proof (induction xs rule: repeats.induct)
  case (1 x y zs)
  consider "zs = []" | "length zs = 1" | k where "length zs = k + 2"
    by (metis One_nat_def Suc_eq_plus1 add_2_eq_Suc' length_0_conv nat.exhaust)
  then show ?case
  proof cases
    case 2
    then show ?thesis using 1 by auto
  next
    case (3 k)
    then have "(x # y # zs) ! (length (x # y # zs) - 2) = zs ! (length zs - 2)"
      "(x # y # zs) ! (length (x # y # zs) - 1) = zs ! (length zs - 1)" by simp_all
    then show ?thesis using 1 3 by force
  qed simp
qed simp_all

text \<open>The current level is the end of the vector.\<close>

lemma level_step:
  assumes "drop j v = xs" "j \<le> length v"
  shows "map (pair_hash e v j (length xs)) (even_positions (length xs)) = level e xs"
    "list_ex (pair_repeats v j (length xs)) (even_positions (length xs)) \<longleftrightarrow> repeats xs"
proof -
  have at: "v ! (j + i) = xs ! i" for i using assms by (auto simp flip: nth_drop)
  show "map (pair_hash e v j (length xs)) (even_positions (length xs)) = level e xs"
    by (rule nth_equalityI) (simp_all add: even_positions_def pair_hash_def at level_nth)
  have "list_ex (pair_repeats v j (length xs)) (even_positions (length xs)) \<longleftrightarrow>
      (\<exists>m<(length xs + 1) div 2. partner (length xs) (2 * m) = 2 * m + 1 \<and> 2 * m + 2 = length xs \<and> xs ! (2 * m) = xs ! (2 * m + 1))"
    by (auto simp: list_ex_iff even_positions_def pair_repeats_def at)
  also have "\<dots> \<longleftrightarrow> repeats xs"
  proof
    assume "\<exists>m<(length xs + 1) div 2. partner (length xs) (2 * m) = 2 * m + 1 \<and> 2 * m + 2 = length xs \<and> xs ! (2 * m) = xs ! (2 * m + 1)"
    then obtain m where m: "length xs = 2 * m + 2" "xs ! (2 * m) = xs ! (2 * m + 1)" by metis
    then have "length xs - 2 = 2 * m" "length xs - 1 = 2 * m + 1" by simp_all
    then show "repeats xs" using m by (simp only: repeats_last) simp
  next
    assume "repeats xs"
    then obtain b where b: "length xs = 2 * b" "1 \<le> b" "xs ! (length xs - 2) = xs ! (length xs - 1)"
      by (auto simp: repeats_last elim: evenE)
    then have "2 * (b - 1) = length xs - 2" "2 * (b - 1) + 1 = length xs - 1" by simp_all
    then show "\<exists>m<(length xs + 1) div 2. partner (length xs) (2 * m) = 2 * m + 1 \<and> 2 * m + 2 = length xs \<and> xs ! (2 * m) = xs ! (2 * m + 1)"
      using b by (intro exI [of _ "b - 1"]) (simp add: partner_def)
  qed
  finally show "list_ex (pair_repeats v j (length xs)) (even_positions (length xs)) \<longleftrightarrow> repeats xs" .
qed

section \<open>The whole tree\<close>

function tree_levels :: "opoi_env \<Rightarrow> uint256 list \<Rightarrow> uint256 list list" where
  "tree_levels e xs = (if length xs \<le> 1 then [xs] else xs # tree_levels e (level e xs))"
  by pat_completeness auto
termination by (relation "measure (\<lambda>(e, xs). length xs)") auto

declare tree_levels.simps [simp del]

lemma tree_levels_small: "length xs \<le> 1 \<Longrightarrow> tree_levels e xs = [xs]"
  by (simp add: tree_levels.simps)

lemma tree_levels_big: "1 < length xs \<Longrightarrow> tree_levels e xs = xs # tree_levels e (level e xs)"
  by (simp add: tree_levels.simps [of e xs])

lemma level_measure: "1 < length xs \<Longrightarrow> length (level e xs) < length xs"
  by simp

lemma tree_induct [case_names small big]:
  assumes "\<And>xs. length xs \<le> 1 \<Longrightarrow> P xs" "\<And>xs. 1 < length xs \<Longrightarrow> P (level e xs) \<Longrightarrow> P xs"
  shows "P xs"
proof (induction xs rule: measure_induct_rule [of length])
  case (less xs)
  then show ?case using assms level_measure [of xs e] by (cases "length xs \<le> 1") (simp_all add: not_le)
qed

definition tree_mutated :: "opoi_env \<Rightarrow> uint256 list \<Rightarrow> bool" where
  "tree_mutated e xs \<longleftrightarrow> list_ex repeats (tree_levels e xs)"

lemma merkle_loop_levels:
  "drop j v = xs \<Longrightarrow> j \<le> length v \<Longrightarrow>
   merkle_loop e v j (length xs) m = (take j v @ concat (tree_levels e xs), m \<or> tree_mutated e xs)"
proof (induction xs arbitrary: j v m rule: tree_induct [where e = e])
  case (small xs)
  have "\<not> repeats xs" using small(1) by (simp add: repeats_last)
  moreover have "take j v @ xs = v" using small(2) by auto
  ultimately show ?case using small(1) by (simp add: merkle_loop.simps tree_levels_small tree_mutated_def)
next
  case (big xs)
  note step = level_step [OF big(3,4)]
  have len: "length v = j + length xs" using big(3,4) by auto
  then have d: "drop (j + length xs) (v @ level e xs) = level e xs" by simp
  have v: "v = take j v @ xs" using big(3) by auto
  have "merkle_loop e v j (length xs) m = merkle_loop e (v @ level e xs) (j + length xs) (length (level e xs)) (m \<or> repeats xs)"
    using big(1) by (subst merkle_loop.simps) (simp add: step)
  also have "\<dots> = (take (j + length xs) (v @ level e xs) @ concat (tree_levels e (level e xs)), (m \<or> repeats xs) \<or> tree_mutated e (level e xs))"
    using len by (intro big(2) d) simp
  finally show ?case
    using big(1) v len by (auto simp: tree_levels_big tree_mutated_def)
qed

lemma tree_levels_last: "tree_levels e xs \<noteq> [] \<and> length (last (tree_levels e xs)) \<le> 1 \<and>
    (xs \<noteq> [] \<longrightarrow> length (last (tree_levels e xs)) = 1)"
proof (induction xs rule: tree_induct [where e = e])
  case (small xs)
  then show ?case by (cases xs) (auto simp: tree_levels_small)
next
  case (big xs)
  then have "level e xs \<noteq> []" using length_level [of e xs] by force
  with big show ?case by (simp add: tree_levels_big)
qed

text \<open>The root: the only hash of the last level.\<close>

definition root :: "opoi_env \<Rightarrow> uint256 list \<Rightarrow> uint256" where
  "root e xs = hd (last (tree_levels e xs))"

lemma BuildMerkleTree_levels:
  assumes "xs \<noteq> []"
  shows "BuildMerkleTree e xs = (root e xs, concat (tree_levels e xs), tree_mutated e xs)"
proof -
  let ?ls = "tree_levels e xs"
  obtain r where r: "last ?ls = [r]" using tree_levels_last [of e xs] assms by (auto simp: length_Suc_conv)
  have ls: "?ls = butlast ?ls @ [[r]]" using tree_levels_last [of e xs] r by (metis append_butlast_last_id)
  then have "concat ?ls = concat (butlast ?ls) @ [r]" by (metis concat.simps concat_append append_Nil2)
  then have "concat ?ls \<noteq> []" "last (concat ?ls) = r" by simp_all
  then show ?thesis using merkle_loop_levels [of 0 xs xs e False] r by (auto simp: BuildMerkleTree_def root_def)
qed

section \<open>Branches\<close>

lemma sibling:
  assumes "idx < length xs" "1 < length xs"
  defines "it \<equiv> xs ! min (idx XOR 1) (length xs - 1)"
  shows "(if idx AND 1 \<noteq> 0 then Hash2 e it (xs ! idx) else Hash2 e (xs ! idx) it) = level e xs ! (idx div 2)"
proof -
  have m: "idx div 2 < (length xs + 1) div 2" using assms(1) by (auto simp: less_eq_div_iff_mult_less_eq div_less_iff_less_mult)
  show ?thesis
  proof (cases "even idx")
    case True
    then have "2 * (idx div 2) = idx" "idx XOR 1 = idx + 1" by (simp_all add: xor_Suc_0_eq)
    then show ?thesis using True m by (simp add: level_nth it_def partner_def and_Suc_0_eq mod2_eq_if)
  next
    case False
    then have "2 * (idx div 2) = idx - 1" "idx XOR 1 = idx - 1" "0 < idx" by (auto simp: xor_Suc_0_eq elim: oddE intro: odd_pos)
    moreover have "idx \<le> length xs - 1" using assms(1) by linarith
    ultimately show ?thesis using False m by (auto simp: level_nth it_def partner_def and_Suc_0_eq mod2_eq_if min_def)
  qed
qed

lemma branch_to_root:
  "v = pre @ concat (tree_levels e xs) \<Longrightarrow> idx < length xs \<Longrightarrow>
   check_branch e (xs ! idx) (branch_loop v (length pre) (length xs) idx) idx = root e xs"
proof (induction xs arbitrary: pre idx rule: tree_induct [where e = e])
  case (small xs)
  then show ?case by (cases xs) (auto simp: branch_loop.simps root_def tree_levels_small)
next
  case (big xs)
  have v: "v = (pre @ xs) @ concat (tree_levels e (level e xs))" using big(1,3) by (simp add: tree_levels_big)
  have at: "v ! (length pre + min (idx XOR 1) (length xs - 1)) = xs ! min (idx XOR 1) (length xs - 1)"
  proof -
    have "min (idx XOR 1) (length xs - 1) < length xs" using big(1) by (intro min.strict_coboundedI2) linarith
    then show ?thesis by (simp add: v nth_append del: One_nat_def)
  qed
  have loop: "branch_loop v (length pre) (length xs) idx = v ! (length pre + min (idx XOR 1) (length xs - 1)) #
      branch_loop v (length pre + length xs) ((length xs + 1) div 2) (idx div 2)"
    using big(1) by (subst branch_loop.simps) (simp add: drop_bit_Suc)
  have half: "drop_bit 1 idx = idx div 2" by (simp add: drop_bit_Suc)
  have "check_branch e (xs ! idx) (branch_loop v (length pre) (length xs) idx) idx =
      check_branch e (level e xs ! (idx div 2)) (branch_loop v (length (pre @ xs)) (length (level e xs)) (idx div 2)) (idx div 2)"
    by (simp only: loop check_branch.simps at sibling [OF big(4,1)] half length_append length_level)
  also have "\<dots> = root e (level e xs)" using big(4) by (intro big(2) v) auto
  finally show ?case using big(1) tree_levels_last [of e "level e xs"] by (simp add: root_def tree_levels_big)
qed

text \<open>
  C26. The branch of every transaction of a block verifies against the root of the tree, whatever
  the number of transactions and their position.
\<close>

theorem merkle_branch_verifies:
  assumes "nIndex < length txids"
  shows "CheckMerkleBranch e (txids ! nIndex) (GetMerkleBranch e txids nIndex) (int nIndex) = fst (BuildMerkleTree e txids)"
proof -
  have "txids \<noteq> []" using assms by auto
  then show ?thesis
    using branch_to_root [of _ "[]" e txids nIndex] assms
    by (simp add: CheckMerkleBranch_def GetMerkleBranch_def BuildMerkleTree_levels)
qed

theorem merkle_branch_verifies_witness:
  "CheckMerkleBranch sample_env [3] (GetMerkleBranch sample_env [[1], [2], [3]] 2) 2 =
   fst (BuildMerkleTree sample_env [[1], [2], [3]])"
  using merkle_branch_verifies [of 2 "[[1], [2], [3]]" sample_env] by (simp add: numeral_2_eq_2)

section \<open>The root fixes the transactions\<close>

text \<open>Every pair of hashes that is hashed while the tree is built.\<close>

definition tree_inputs :: "opoi_env \<Rightarrow> uint256 list \<Rightarrow> (uint256 \<times> uint256) set" where
  "tree_inputs e xs = (\<Union>l\<in>set (butlast (tree_levels e xs)). set (level_pairs l))"

definition collision_free :: "opoi_env \<Rightarrow> (uint256 \<times> uint256) set \<Rightarrow> bool" where
  "collision_free e P \<longleftrightarrow> inj_on (\<lambda>(a, b). Hash2 e a b) P"

lemma level_map: "level e xs = map (\<lambda>(a, b). Hash2 e a b) (level_pairs xs)"
  by (induction e xs rule: level.induct) simp_all

lemma tree_inputs_small: "length xs \<le> 1 \<Longrightarrow> tree_inputs e xs = {}"
  by (simp add: tree_inputs_def tree_levels_small)

lemma tree_inputs_big: "1 < length xs \<Longrightarrow> tree_inputs e xs = set (level_pairs xs) \<union> tree_inputs e (level e xs)"
  using tree_levels_last [of e "level e xs"] by (simp add: tree_inputs_def tree_levels_big)

lemma tree_mutated_big: "1 < length xs \<Longrightarrow> tree_mutated e xs \<longleftrightarrow> repeats xs \<or> tree_mutated e (level e xs)"
  by (simp add: tree_mutated_def tree_levels_big)

lemma root_big: "1 < length xs \<Longrightarrow> root e xs = root e (level e xs)"
  using tree_levels_last [of e "level e xs"] by (simp add: root_def tree_levels_big)

text \<open>Two levels with the same pairs differ only by a repetition at the end.\<close>

lemma level_pairs_Nil [simp]: "level_pairs xs = [] \<longleftrightarrow> xs = []" "[] = level_pairs xs \<longleftrightarrow> xs = []"
  by (cases xs rule: level_pairs.cases; simp)+

lemma level_pairs_eq: "level_pairs xs = level_pairs ys \<Longrightarrow> \<not> repeats xs \<Longrightarrow> \<not> repeats ys \<Longrightarrow> xs = ys"
proof (induction xs arbitrary: ys rule: level_pairs.induct)
  case (1 x y zs)
  then show ?case by (cases ys rule: level_pairs.cases) (auto split: if_splits elim: level_pairs.elims)
next
  case (2 x)
  then show ?case by (cases ys rule: level_pairs.cases) (auto split: if_splits elim: level_pairs.elims)
next
  case 3
  then show ?case by (cases ys rule: level_pairs.cases) auto
qed

lemma level_injective:
  assumes "level e xs = level e ys" "\<not> repeats xs" "\<not> repeats ys" "set (level_pairs xs) \<subseteq> P" "set (level_pairs ys) \<subseteq> P"
    "collision_free e P"
  shows "xs = ys"
proof -
  have "level_pairs xs = level_pairs ys"
    using assms(1) inj_on_subset [OF assms(6) [unfolded collision_free_def] Un_least [OF assms(4,5)]]
    unfolding level_map by (rule map_inj_on)
  then show ?thesis using assms(2,3) by (rule level_pairs_eq)
qed

text \<open>\<open>above e ys xs\<close>: \<open>xs\<close> is a level of the tree over \<open>ys\<close>.\<close>

inductive above :: "opoi_env \<Rightarrow> uint256 list \<Rightarrow> uint256 list \<Rightarrow> bool" for e ys where
  here: "above e ys ys"
| up: "above e ys zs \<Longrightarrow> 1 < length zs \<Longrightarrow> above e ys (level e zs)"

lemma above_level: "above e (level e ys) xs \<Longrightarrow> 1 < length ys \<Longrightarrow> above e ys xs"
  by (induction rule: above.induct) (auto intro: above.intros)

lemma above_top: "ys \<noteq> [] \<Longrightarrow> above e ys [root e ys]"
proof (induction ys rule: tree_induct [where e = e])
  case (small ys)
  then show ?case by (cases ys) (auto simp: root_def tree_levels_small intro: above.here)
next
  case (big ys)
  then have "level e ys \<noteq> []" using length_level [of e ys] by force
  then show ?case using big by (simp add: root_big above_level)
qed

lemma above_facts:
  "above e ys xs \<Longrightarrow> tree_inputs e xs \<subseteq> tree_inputs e ys \<and> (tree_mutated e xs \<longrightarrow> tree_mutated e ys)"
  by (induction rule: above.induct) (auto simp: tree_inputs_big tree_mutated_big)

text \<open>A tree without a repetition whose hashes stay collision free.\<close>

definition sound_tree :: "opoi_env \<Rightarrow> (uint256 \<times> uint256) set \<Rightarrow> uint256 list \<Rightarrow> bool" where
  "sound_tree e P xs \<longleftrightarrow> collision_free e P \<and> tree_inputs e xs \<subseteq> P \<and> \<not> tree_mutated e xs"

lemma sound_above: "sound_tree e P ys \<Longrightarrow> above e ys xs \<Longrightarrow> sound_tree e P xs"
  using above_facts [of e ys xs] by (auto simp: sound_tree_def)

lemma sound_level: "sound_tree e P ys \<Longrightarrow> 1 < length ys \<Longrightarrow> sound_tree e P (level e ys)"
  by (rule sound_above) (auto intro: above.intros)

lemma sound_down:
  assumes "level e us = level e zs" "1 < length us" "1 < length zs" "sound_tree e P us" "sound_tree e P zs"
  shows "us = zs"
  using assms by (intro level_injective [of e us zs P]) (simp_all add: sound_tree_def tree_inputs_big tree_mutated_big)

lemma above_down:
  assumes "above e (level e ys) (level e xs)" "1 < length xs" "1 < length ys" "sound_tree e P xs" "sound_tree e P ys"
  shows "above e ys xs"
  using assms(1)
proof cases
  case here
  then have "xs = ys" using assms by (intro sound_down [of e xs ys P])
  then show ?thesis by (simp add: above.here)
next
  case (up zs)
  have ab: "above e ys zs" using up(2) assms(3) by (rule above_level)
  have "xs = zs" using up(1,3) assms(2,4) sound_above [OF assms(5) ab] by (intro sound_down [of e xs zs P])
  with ab show ?thesis by simp
qed

text \<open>Trees with the same root: one is the upper part of the other.\<close>

lemma same_root_above:
  "xs \<noteq> [] \<Longrightarrow> ys \<noteq> [] \<Longrightarrow> root e xs = root e ys \<Longrightarrow> sound_tree e P xs \<Longrightarrow> sound_tree e P ys \<Longrightarrow>
   above e ys xs \<or> above e xs ys"
proof (induction xs arbitrary: ys rule: tree_induct [where e = e])
  case (small xs)
  then have "xs = [root e xs]" by (cases xs) (auto simp: root_def tree_levels_small)
  then show ?case using small(3,4) above_top [of ys e] by metis
next
  case (big xs)
  show ?case
  proof (cases "length ys \<le> 1")
    case True
    then have "ys = [root e ys]" using big(4) by (cases ys) (auto simp: root_def tree_levels_small)
    then show ?thesis using big(3,5) above_top [of xs e] by metis
  next
    case False
    then have ys: "1 < length ys" by simp
    have ne: "level e xs \<noteq> []" "level e ys \<noteq> []" using big(1) ys length_level [of e xs] length_level [of e ys] by force+
    have "root e (level e xs) = root e (level e ys)" using big(5) root_big [OF big(1)] root_big [OF ys] by simp
    then have "above e (level e ys) (level e xs) \<or> above e (level e xs) (level e ys)"
      by (rule big(2) [OF ne _ sound_level [OF big(6,1)] sound_level [OF big(7) ys]])
    then show ?thesis using above_down [OF _ big(1) ys big(6,7)] above_down [OF _ ys big(1) big(7,6)] by blast
  qed
qed

text \<open>A level that is not the lowest consists of hashes of pairs.\<close>

lemma above_hashed: "above e ys xs \<Longrightarrow> xs = ys \<or> set xs \<subseteq> (\<lambda>(a, b). Hash2 e a b) ` tree_inputs e ys"
proof (induction rule: above.induct)
  case (up zs)
  then have "set (level_pairs zs) \<subseteq> tree_inputs e ys" using above_facts [OF up(1)] by (auto simp: tree_inputs_big)
  then show ?case by (auto simp: level_map)
qed simp

text \<open>
  C25. Two lists of transactions that both pass the check of one Merkle root are the same list,
  unless two of the pairs hashed on the way collide or a transaction id is itself the hash of such a
  pair: with the flag for repeated hashes the root fixes the number, the order and the ids of the
  transactions (without it, a repetition at the end of a level goes unnoticed).
\<close>

theorem merkle_root_binds:
  assumes "check_merkle_root e r xs = None" "check_merkle_root e r ys = None" "xs \<noteq> []" "ys \<noteq> []"
    "collision_free e (tree_inputs e xs \<union> tree_inputs e ys)"
    "\<forall>(a, b)\<in>tree_inputs e xs \<union> tree_inputs e ys. Hash2 e a b \<notin> set xs \<union> set ys"
  shows "xs = ys"
proof -
  have r: "root e xs = root e ys" "\<not> tree_mutated e xs" "\<not> tree_mutated e ys"
    using assms(1-4) by (auto simp: check_merkle_root_def BuildMerkleTree_levels split: if_splits)
  then have "above e ys xs \<or> above e xs ys"
    using assms(3-5) by (intro same_root_above [where P = "tree_inputs e xs \<union> tree_inputs e ys"]) (auto simp: sound_tree_def)
  then show ?thesis
  proof
    assume "above e ys xs"
    from above_hashed [OF this] show ?thesis using assms(3,6) by (cases xs) auto
  next
    assume "above e xs ys"
    from above_hashed [OF this] show ?thesis using assms(4,6) by (cases ys) auto
  qed
qed

definition sample_root :: uint256 where
  "sample_root = Hash2 sample_env [1] [2]"

definition sample_txids :: "uint256 list" where
  "sample_txids = map (\<lambda>n. [n]) [1, 2]"

lemma sample_tree:
  "tree_levels sample_env [[1], [2]] = [[[1], [2]], [sample_root]]" "tree_inputs sample_env [[1], [2]] = {([1], [2])}"
  by (simp_all add: tree_levels_big tree_levels_small tree_inputs_big tree_inputs_small sample_root_def)

lemma sample_root_passes:
  "check_merkle_root sample_env sample_root [[1], [2]] = None" "check_merkle_root sample_env sample_root sample_txids = None"
  by (simp_all add: check_merkle_root_def BuildMerkleTree_levels root_def tree_mutated_def sample_tree sample_txids_def)

theorem merkle_root_binds_witness:
  "collision_free sample_env (tree_inputs sample_env sample_txids) \<and> sample_txids = [[1], [2]]"
proof (rule conjI)
  show "collision_free sample_env (tree_inputs sample_env sample_txids)"
    by (simp add: sample_txids_def sample_tree collision_free_def)
  have "length (Hash2 sample_env [1] [2]) = 32" by (simp add: Hash2_def hash256_def sample_env_def)
  then have "Hash2 sample_env [1] [2] \<noteq> [1]" "Hash2 sample_env [1] [2] \<noteq> [2]" by auto
  then show "sample_txids = [[1], [2]]"
    by (intro merkle_root_binds [OF sample_root_passes(2,1)])
      (simp_all add: sample_txids_def sample_tree collision_free_def)
qed

end
