(* ===== verification/Spec2Isabelle.thy ===== *)
theory Spec2Isabelle
  imports Cs_Subsidy Coins_Codec Opoi_Reach Opoi_Flood Opoi_Wire Pow Merkle
begin

text \<open>
  A verification library for the OPoI layer of the CS Coin node.
\<close>

end
